(* ===== verification/Svm_Prelude.thy ===== *)
theory Svm_Prelude
  imports Main "HOL-Library.Word"
begin

unbundle bit_operations_syntax

text \<open>
  Shared vocabulary of the development: the machine integer types of the Rust sources, Rust's
  \<open>Result\<close>, the state-and-error monad in which the fallible methods taking \<open>&mut self\<close> are
  written, the checked and saturating integer operations of the Rust core library, little-endian
  byte encodings, and the generic lemmas on lists and words that the component theories use.

  Conventions. A Rust \<open>u8\<close>, \<open>u16\<close>, \<open>u32\<close>, \<open>u64\<close> is a word of that width; a signed integer that is
  only ever moved, truncated or added (register contents, instruction immediates) is the same word
  read with \<^const>\<open>sint\<close>; counters that are compared and accumulated as signed numbers are \<open>int\<close> with
  the saturation or the overflow check written out. An index into, or the length of, an in-memory
  collection (\<open>usize\<close>) is a \<open>nat\<close>: such a number is bounded by the address space, so it never meets
  the end of the \<open>usize\<close> range.
\<close>

section \<open>Machine integers and results\<close>

type_synonym u8 = "8 word"
type_synonym u16 = "16 word"
type_synonym u32 = "32 word"
type_synonym u64 = "64 word"
type_synonym bytes = "8 word list"

datatype ('a, 'e) result = Ok 'a | Err 'e

definition is_ok :: "('a, 'e) result \<Rightarrow> bool" where
  "is_ok r = (case r of Ok _ \<Rightarrow> True | Err _ \<Rightarrow> False)"

definition ok_or :: "'e \<Rightarrow> 'a option \<Rightarrow> ('a, 'e) result" where
  "ok_or e x = (case x of None \<Rightarrow> Err e | Some a \<Rightarrow> Ok a)"

definition bindR :: "('a, 'e) result \<Rightarrow> ('a \<Rightarrow> ('b, 'e) result) \<Rightarrow> ('b, 'e) result" where
  "bindR r f = (case r of Ok a \<Rightarrow> f a | Err e \<Rightarrow> Err e)"

text \<open>
  Code that can panic (an index out of range, a division by zero, a failed assertion) has the panic
  as one of its failures.
\<close>

datatype 'e failure = Panic | Fail 'e

definition unwrap :: "'a option \<Rightarrow> ('a, 'e failure) result" where
  "unwrap x = ok_or Panic x"

lemma bindR_simps [simp]:
  "bindR (Ok a) f = f a"
  "bindR (Err e) f = Err e"
  by (simp_all add: bindR_def)

lemma bindR_cong_weak: "r = r' \<Longrightarrow> bindR r f = bindR r' f"
  by simp

lemma bindR_eq_Ok_iff: "bindR r f = Ok b \<longleftrightarrow> (\<exists>a. r = Ok a \<and> f a = Ok b)"
  by (cases r) auto

lemma bindR_eq_Err_iff: "bindR r f = Err e \<longleftrightarrow> r = Err e \<or> (\<exists>a. r = Ok a \<and> f a = Err e)"
  by (cases r) auto

lemma unwrap_simps [simp]: "unwrap None = Err Panic" "unwrap (Some a) = Ok a"
  by (simp_all add: unwrap_def ok_or_def)

text \<open>
  A \<open>match\<close> on an opcode with guards is a list of arms, tried from the first to the last; an arm has
  its opcode, its guard and its body.
\<close>

fun select_arm :: "u8 \<Rightarrow> (u8 \<times> bool \<times> 'b) list \<Rightarrow> 'b option" where
  "select_arm opcode [] = None"
| "select_arm opcode ((code, guard, body) # arms) =
    (if opcode = code \<and> guard then Some body else select_arm opcode arms)"

lemma select_armD:
  "select_arm c arms = Some b \<Longrightarrow> \<exists>g. (c, g, b) \<in> set arms \<and> g"
  by (induction c arms rule: select_arm.induct) (auto split: if_splits)

lemma select_arm_eq_None_iff:
  "select_arm c arms = None \<longleftrightarrow> (\<forall>(code, guard, _) \<in> set arms. \<not> (c = code \<and> guard))"
  by (induction c arms rule: select_arm.induct) auto

section \<open>The state-and-error monad\<close>

text \<open>
  A Rust method with a mutable receiver and a \<open>Result\<close> return type can change its receiver and fail
  afterwards, so the state is returned on both branches.
\<close>

type_synonym ('s, 'a, 'e) sm = "'s \<Rightarrow> ('a, 'e) result \<times> 's"

definition ret :: "'a \<Rightarrow> ('s, 'a, 'e) sm" where
  "ret a s = (Ok a, s)"

definition throw :: "'e \<Rightarrow> ('s, 'a, 'e) sm" where
  "throw e s = (Err e, s)"

definition bindM :: "('s, 'a, 'e) sm \<Rightarrow> ('a \<Rightarrow> ('s, 'b, 'e) sm) \<Rightarrow> ('s, 'b, 'e) sm" where
  "bindM m f s = (case m s of (Ok a, t) \<Rightarrow> f a t | (Err e, t) \<Rightarrow> (Err e, t))"

definition seqM :: "('s, 'a, 'e) sm \<Rightarrow> ('s, 'b, 'e) sm \<Rightarrow> ('s, 'b, 'e) sm" where
  "seqM m n = bindM m (\<lambda>_. n)"

definition getsM :: "('s \<Rightarrow> 'a) \<Rightarrow> ('s, 'a, 'e) sm" where
  "getsM f s = (Ok (f s), s)"

definition modifyM :: "('s \<Rightarrow> 's) \<Rightarrow> ('s, unit, 'e) sm" where
  "modifyM f s = (Ok (), f s)"

definition liftR :: "('s \<Rightarrow> ('a, 'e) result) \<Rightarrow> ('s, 'a, 'e) sm" where
  "liftR f s = (f s, s)"

definition failIf :: "bool \<Rightarrow> 'e \<Rightarrow> ('s, unit, 'e) sm" where
  "failIf b e = (if b then throw e else ret ())"

text \<open>
  The weakest precondition of a computation for a normal and an error postcondition; its equations
  turn a Hoare-style goal about a composed method into one about its parts.
\<close>

definition wp :: "('s, 'a, 'e) sm \<Rightarrow> ('a \<Rightarrow> 's \<Rightarrow> bool) \<Rightarrow> ('e \<Rightarrow> 's \<Rightarrow> bool) \<Rightarrow> 's \<Rightarrow> bool" where
  "wp m Q E s = (case m s of (Ok a, t) \<Rightarrow> Q a t | (Err e, t) \<Rightarrow> E e t)"

named_theorems wp_rules \<open>weakest preconditions of the monad's combinators\<close>

lemma wp_ret [simp, wp_rules]: "wp (ret a) Q E s = Q a s"
  by (simp add: wp_def ret_def)

lemma wp_throw [simp, wp_rules]: "wp (throw e) Q E s = E e s"
  by (simp add: wp_def throw_def)

lemma wp_bindM [simp, wp_rules]: "wp (bindM m f) Q E s = wp m (\<lambda>a. wp (f a) Q E) E s"
  by (auto simp: wp_def bindM_def split: prod.splits result.splits)

lemma wp_seqM [simp, wp_rules]: "wp (seqM m n) Q E s = wp m (\<lambda>_. wp n Q E) E s"
  by (simp add: seqM_def)

lemma wp_getsM [simp, wp_rules]: "wp (getsM f) Q E s = Q (f s) s"
  by (simp add: wp_def getsM_def)

lemma wp_modifyM [simp, wp_rules]: "wp (modifyM f) Q E s = Q () (f s)"
  by (simp add: wp_def modifyM_def)

lemma wp_liftR [simp, wp_rules]:
  "wp (liftR f) Q E s = (case f s of Ok a \<Rightarrow> Q a s | Err e \<Rightarrow> E e s)"
  by (simp add: wp_def liftR_def split: result.splits)

lemma wp_failIf [simp, wp_rules]: "wp (failIf b e) Q E s = (if b then E e s else Q () s)"
  by (simp add: failIf_def)

lemma wp_if [simp, wp_rules]:
  "wp (if b then m else n) Q E s = (if b then wp m Q E s else wp n Q E s)"
  by simp

lemma wp_mono:
  assumes "wp m Q E s"
    and "\<And>a t. Q a t \<Longrightarrow> Q' a t" and "\<And>e t. E e t \<Longrightarrow> E' e t"
  shows "wp m Q' E' s"
  using assms by (auto simp: wp_def split: prod.splits result.splits)

lemma wp_conj: "wp m Q E s \<Longrightarrow> wp m Q' E' s \<Longrightarrow> wp m (\<lambda>a t. Q a t \<and> Q' a t) (\<lambda>e t. E e t \<and> E' e t) s"
  by (auto simp: wp_def split: prod.splits result.splits)

lemma wp_OkD: "wp m Q E s \<Longrightarrow> m s = (Ok a, t) \<Longrightarrow> Q a t"
  by (simp add: wp_def)

lemma wp_ErrD: "wp m Q E s \<Longrightarrow> m s = (Err e, t) \<Longrightarrow> E e t"
  by (simp add: wp_def)

lemmas monad_defs = ret_def throw_def bindM_def seqM_def getsM_def modifyM_def liftR_def failIf_def
  bindR_def ok_or_def

section \<open>Checked and saturating arithmetic of the Rust core library\<close>

definition checked_add :: "'w::len word \<Rightarrow> 'w word \<Rightarrow> 'w word option" where
  "checked_add a b = (if unat a + unat b < 2 ^ LENGTH('w) then Some (a + b) else None)"

definition checked_sub :: "'w::len word \<Rightarrow> 'w word \<Rightarrow> 'w word option" where
  "checked_sub a b = (if b \<le> a then Some (a - b) else None)"

definition checked_mul :: "'w::len word \<Rightarrow> 'w word \<Rightarrow> 'w word option" where
  "checked_mul a b = (if unat a * unat b < 2 ^ LENGTH('w) then Some (a * b) else None)"

definition saturating_add :: "'w::len word \<Rightarrow> 'w word \<Rightarrow> 'w word" where
  "saturating_add a b = (if unat a + unat b < 2 ^ LENGTH('w) then a + b else - 1)"

definition saturating_sub :: "'w::len word \<Rightarrow> 'w word \<Rightarrow> 'w word" where
  "saturating_sub a b = (if b \<le> a then a - b else 0)"

definition saturating_mul :: "'w::len word \<Rightarrow> 'w word \<Rightarrow> 'w word" where
  "saturating_mul a b = (if unat a * unat b < 2 ^ LENGTH('w) then a * b else - 1)"

text \<open>Signed accumulators: the value as an \<open>int\<close>, with the end of the \<open>i64\<close> and \<open>i128\<close> range written out.\<close>

definition saturate_i64 :: "int \<Rightarrow> int" where
  "saturate_i64 x = max (- (2 ^ 63)) (min (2 ^ 63 - 1) x)"

definition checked_i128 :: "int \<Rightarrow> int option" where
  "checked_i128 x = (if - (2 ^ 127) \<le> x \<and> x < 2 ^ 127 then Some x else None)"

definition usize_as_i64 :: "nat \<Rightarrow> int" where
  "usize_as_i64 n = sint (word_of_nat n :: 64 word)"

text \<open>The shift amount of \<open>wrapping_shl\<close> and \<open>wrapping_shr\<close> is taken modulo the width.\<close>

definition wrapping_shl :: "'w::len word \<Rightarrow> u32 \<Rightarrow> 'w word" where
  "wrapping_shl a n = push_bit (unat n mod LENGTH('w)) a"

definition wrapping_shr :: "'w::len word \<Rightarrow> u32 \<Rightarrow> 'w word" where
  "wrapping_shr a n = drop_bit (unat n mod LENGTH('w)) a"

definition wrapping_ashr :: "'w::len word \<Rightarrow> u32 \<Rightarrow> 'w word" where
  "wrapping_ashr a n = signed_drop_bit (unat n mod LENGTH('w)) a"

lemma unat_checked_add: "checked_add a b = Some c \<longleftrightarrow> unat a + unat b < 2 ^ LENGTH('w) \<and> c = a + b"
  for a b c :: "'w::len word"
  by (auto simp: checked_add_def)

lemma unat_add_no_overflow:
  fixes a b :: "'w::len word"
  assumes "unat a + unat b < 2 ^ LENGTH('w)"
  shows "unat (a + b) = unat a + unat b"
  using assms by (simp add: unat_word_ariths)

lemma checked_add_within:
  fixes a b c :: "'w::len word"
  shows "(case checked_add a b of None \<Rightarrow> None | Some e \<Rightarrow> if e \<le> c \<and> P then Some y else None)
    = (if unat a + unat b \<le> unat c \<and> P then Some y else None)"
proof (cases "unat a + unat b < 2 ^ LENGTH('w)")
  case True
  then show ?thesis by (simp add: checked_add_def word_le_nat_alt unat_add_no_overflow)
next
  case False
  moreover have "unat c < 2 ^ LENGTH('w)" by (rule unsigned_less)
  ultimately have "\<not> unat a + unat b \<le> unat c" by linarith
  then show ?thesis using False by (simp add: checked_add_def)
qed

lemmas checked_add_within' = checked_add_within [where P = True, simplified simp_thms]

lemma checked_add_SomeD:
  fixes a b c :: "'w::len word"
  assumes "checked_add a b = Some c"
  shows "unat c = unat a + unat b"
  using assms by (simp add: unat_checked_add unat_add_no_overflow)

lemma checked_sub_SomeD:
  fixes a b c :: "'w::len word"
  assumes "checked_sub a b = Some c"
  shows "unat c = unat a - unat b \<and> unat b \<le> unat a"
  using assms by (auto simp: checked_sub_def unat_sub word_le_nat_alt split: if_splits)

lemma unat_saturating_sub: "unat (saturating_sub a b) = unat a - unat b"
  by (simp add: saturating_sub_def unat_sub word_le_nat_alt)

lemma unat_saturating_add:
  "unat (saturating_add a b) = min (unat a + unat b) (2 ^ LENGTH('w) - 1)" for a b :: "'w::len word"
proof (cases "unat a + unat b < 2 ^ LENGTH('w)")
  case True
  then show ?thesis by (simp add: saturating_add_def unat_add_no_overflow)
next
  case False
  then show ?thesis by (simp add: saturating_add_def unsigned_minus_1_eq_mask mask_eq_exp_minus_1)
qed

lemma unat_saturating_mul:
  "unat (saturating_mul a b) = min (unat a * unat b) (2 ^ LENGTH('w) - 1)" for a b :: "'w::len word"
proof (cases "unat a * unat b < 2 ^ LENGTH('w)")
  case True
  then show ?thesis by (simp add: saturating_mul_def unat_word_ariths)
next
  case False
  then show ?thesis by (simp add: saturating_mul_def unsigned_minus_1_eq_mask mask_eq_exp_minus_1)
qed

lemma usize_as_i64_small [simp]: "n < 2 ^ 63 \<Longrightarrow> usize_as_i64 n = int n"
  by (simp add: usize_as_i64_def signed_of_nat signed_take_bit_int_eq_self)

lemma saturate_i64_id [simp]: "- (2 ^ 63) \<le> x \<Longrightarrow> x < 2 ^ 63 \<Longrightarrow> saturate_i64 x = x"
  by (simp add: saturate_i64_def)

lemma unat_ucast_up: "LENGTH('a) \<le> LENGTH('b) \<Longrightarrow> unat (ucast x :: 'b::len word) = unat x" for x :: "'a::len word"
proof -
  assume le: "LENGTH('a) \<le> LENGTH('b)"
  have "unat x < 2 ^ LENGTH('a)" by (rule unsigned_less)
  also have "(2 :: nat) ^ LENGTH('a) \<le> 2 ^ LENGTH('b)" using le by simp
  finally show ?thesis by (simp add: unsigned_ucast_eq take_bit_nat_eq_self)
qed

lemma unat_ucast_down: "unat x < 2 ^ LENGTH('b) \<Longrightarrow> unat (ucast x :: 'b::len word) = unat x" for x :: "'a::len word"
  by (simp add: unsigned_ucast_eq take_bit_nat_eq_self)

lemma unat_u64_le: "unat (x :: u64) \<le> 2 ^ 64 - 1"
proof -
  have "unat x < 2 ^ LENGTH(64)" by (rule unsigned_less)
  then show ?thesis by simp
qed

text \<open>Truncating a sign extension gives the original number back.\<close>

lemma ucast_scast_down [simp]:
  fixes w :: "'a::len word"
  assumes "LENGTH('a) \<le> LENGTH('b)"
  shows "(ucast (scast w :: 'b::len word) :: 'a word) = w"
proof (rule bit_word_eqI)
  fix n assume "n < LENGTH('a)"
  then have "min (LENGTH('a) - 1) n = n" by auto
  then show "bit (ucast (scast w :: 'b word) :: 'a word) n \<longleftrightarrow> bit w n"
    using assms \<open>n < LENGTH('a)\<close> by (simp add: bit_ucast_iff bit_signed_iff)
qed

section \<open>Little-endian bytes\<close>

definition le_bytes :: "nat \<Rightarrow> u64 \<Rightarrow> bytes" where
  "le_bytes n v = map (\<lambda>i. ucast (drop_bit (8 * i) v)) [0..<n]"

fun of_le_bytes :: "bytes \<Rightarrow> u64" where
  "of_le_bytes [] = 0"
| "of_le_bytes (b # bs) = ucast b OR push_bit 8 (of_le_bytes bs)"

lemma length_le_bytes [simp]: "length (le_bytes n v) = n"
  by (simp add: le_bytes_def)

lemma bit_of_le_bytes:
  "bit (of_le_bytes bs) k \<longleftrightarrow> k < 64 \<and> k div 8 < length bs \<and> bit (bs ! (k div 8)) (k mod 8)"
proof (induction bs arbitrary: k)
  case Nil
  then show ?case by simp
next
  case (Cons b bs)
  show ?case
  proof (cases "k < 8")
    case True
    then show ?thesis by (auto simp: bit_or_iff bit_push_bit_iff bit_simps)
  next
    case False
    then obtain j where j: "k = 8 + j" using le_Suc_ex by (auto simp: not_less)
    have "\<not> bit b (8 + j)"
      using bit_imp_le_length [of b "8 + j"] by auto
    moreover have "(8 + j) div 8 = Suc (j div 8)" by simp
    ultimately show ?thesis using j Cons.IH [of j]
      by (auto simp: bit_or_iff bit_push_bit_iff bit_ucast_iff)
  qed
qed

lemma bit_le_bytes_nth: "i < n \<Longrightarrow> bit (le_bytes n v ! i) k \<longleftrightarrow> k < 8 \<and> bit v (8 * i + k)"
  by (auto simp: le_bytes_def bit_ucast_iff bit_drop_bit_eq)

lemma of_le_bytes_le_bytes:
  assumes "n \<le> 8"
  shows "of_le_bytes (le_bytes n v) = take_bit (8 * n) v"
proof (rule bit_eqI)
  fix k
  have "k div 8 < n \<longleftrightarrow> k < 8 * n" by (auto simp: less_mult_imp_div_less mult.commute div_less_iff_less_mult)
  moreover have "8 * (k div 8) + k mod 8 = k" by simp
  ultimately show "bit (of_le_bytes (le_bytes n v)) k \<longleftrightarrow> bit (take_bit (8 * n) v) k"
    by (auto simp: bit_of_le_bytes bit_le_bytes_nth bit_take_bit_iff dest: bit_imp_le_length)
qed

lemma le_bytes_of_le_bytes:
  assumes "length bs \<le> 8"
  shows "le_bytes (length bs) (of_le_bytes bs) = bs"
proof (rule nth_equalityI)
  show "length (le_bytes (length bs) (of_le_bytes bs)) = length bs" by simp
next
  fix i assume "i < length (le_bytes (length bs) (of_le_bytes bs))"
  then have i: "i < length bs" by simp
  show "le_bytes (length bs) (of_le_bytes bs) ! i = bs ! i"
  proof (rule bit_eqI)
    fix k
    show "bit (le_bytes (length bs) (of_le_bytes bs) ! i) k \<longleftrightarrow> bit (bs ! i) k"
      using i assms bit_imp_le_length [of "bs ! i" k] by (auto simp: bit_le_bytes_nth bit_of_le_bytes)
  qed
qed

section \<open>Lists and maps\<close>

text \<open>Element at an index, as Rust's \<open>slice::get\<close>.\<close>

definition get_at :: "'a list \<Rightarrow> nat \<Rightarrow> 'a option" where
  "get_at xs i = (if i < length xs then Some (xs ! i) else None)"

lemma get_at_Some_iff [simp]: "get_at xs i = Some x \<longleftrightarrow> i < length xs \<and> xs ! i = x"
  by (auto simp: get_at_def)

lemma get_at_None_iff [simp]: "get_at xs i = None \<longleftrightarrow> length xs \<le> i"
  by (auto simp: get_at_def)

lemma get_at_update: "get_at (xs[i := v]) j = (if i = j \<and> j < length xs then Some v else get_at xs j)"
  by (auto simp: get_at_def nth_list_update)

text \<open>\<open>Vec::resize\<close>: truncate, or fill up with copies of a value.\<close>

definition vec_resize :: "'a list \<Rightarrow> nat \<Rightarrow> 'a \<Rightarrow> 'a list" where
  "vec_resize xs n v = take n xs @ replicate (n - length xs) v"

lemma length_vec_resize [simp]: "length (vec_resize xs n v) = n"
  by (simp add: vec_resize_def)

lemma vec_resize_same [simp]: "vec_resize xs (length xs) v = xs"
  by (simp add: vec_resize_def)

lemma vec_resize_nth: "i < n \<Longrightarrow> vec_resize xs n v ! i = (if i < length xs then xs ! i else v)"
  by (auto simp: vec_resize_def nth_append)

lemma sum_list_update_int:
  fixes f :: "'a \<Rightarrow> int"
  assumes "i < length xs"
  shows "sum_list (map f (xs[i := v])) = sum_list (map f xs) + f v - f (xs ! i)"
  using assms by (induction xs arbitrary: i) (auto split: nat.splits)

lemma seqM_liftR:
  "seqM (liftR g) m tc = (case g tc of Ok _ \<Rightarrow> m tc | Err e \<Rightarrow> (Err e, tc))"
  by (simp add: seqM_def bindM_def liftR_def split: result.split)

lemma eq_replicate_iff: "xs = replicate n x \<longleftrightarrow> length xs = n \<and> (\<forall>y \<in> set xs. y = x)"
  by (auto intro: replicate_eqI)

lemma sum_list_bounds:
  assumes "\<forall>x \<in> set xs. f x \<le> (b :: nat)"
  shows "(\<Sum>x\<leftarrow>xs. int (f x)) \<le> int (length xs) * int b" "0 \<le> (\<Sum>x\<leftarrow>xs. int (f x))"
  using assms by (induction xs) (auto simp: algebra_simps)

lemma nth_update_in: "j < length xs \<Longrightarrow> xs[i := x] ! j = (if i = j then x else xs ! j)"
  by (simp add: nth_list_update)

lemma map_update_same: "f y = f (xs ! n) \<Longrightarrow> map f (xs[n := y]) = map f xs"
  by (metis list_update_id map_update)

end
