(* ===== verification/Sbpf_Program.thy ===== *)
theory Sbpf_Program
  imports Sbpf_Ebpf
begin

text \<open>
  The parts of \<^verbatim>\<open>src/sbpf/src/program.rs\<close>, \<^verbatim>\<open>error.rs\<close> and \<^verbatim>\<open>vm.rs\<close> that describe a program to the
  virtual machine: the SBPF versions with their feature gates, the VM configuration, the errors, the
  function registry and the built-in program (loader) that holds the syscalls.

  A \<open>BTreeMap\<close> is an association list in strictly ascending key order, the order its iterators
  follow. The symbol hash (Murmur3, from the \<^verbatim>\<open>hash32\<close> crate) is the parameter \<open>hash_symbol_name\<close>.
\<close>

section \<open>SBPF versions\<close>

datatype sbpf_version = V0 | V1 | V2 | V3 | V4 | Reserved

text \<open>The derived \<open>PartialOrd\<close> compares the positions of the variants.\<close>

fun version_index :: "sbpf_version \<Rightarrow> nat" where
  "version_index V0 = 0"
| "version_index V1 = 1"
| "version_index V2 = 2"
| "version_index V3 = 3"
| "version_index V4 = 4"
| "version_index Reserved = 5"

lemma version_index_inject [simp]: "version_index v = version_index w \<longleftrightarrow> v = w"
  by (cases v; cases w) simp_all

instantiation sbpf_version :: linorder
begin

definition less_eq_sbpf_version :: "sbpf_version \<Rightarrow> sbpf_version \<Rightarrow> bool" where
  "v \<le> w \<longleftrightarrow> version_index v \<le> version_index w"

definition less_sbpf_version :: "sbpf_version \<Rightarrow> sbpf_version \<Rightarrow> bool" where
  "v < w \<longleftrightarrow> version_index v < version_index w"

instance
  by standard (auto simp: less_eq_sbpf_version_def less_sbpf_version_def)

end

definition manual_stack_frame_bump :: "sbpf_version \<Rightarrow> bool" where
  "manual_stack_frame_bump v \<longleftrightarrow> v = V1 \<or> v = V2"

definition stack_frame_gaps :: "sbpf_version \<Rightarrow> bool" where
  "stack_frame_gaps v \<longleftrightarrow> v = V0"

definition enable_pqr :: "sbpf_version \<Rightarrow> bool" where
  "enable_pqr v \<longleftrightarrow> v = V2"

definition explicit_sign_extension_of_results :: "sbpf_version \<Rightarrow> bool" where
  "explicit_sign_extension_of_results v \<longleftrightarrow> v = V2"

definition swap_sub_reg_imm_operands :: "sbpf_version \<Rightarrow> bool" where
  "swap_sub_reg_imm_operands v \<longleftrightarrow> v = V2"

definition disable_neg :: "sbpf_version \<Rightarrow> bool" where
  "disable_neg v \<longleftrightarrow> v = V2"

definition callx_uses_src_reg :: "sbpf_version \<Rightarrow> bool" where
  "callx_uses_src_reg v \<longleftrightarrow> v = V2"

definition disable_lddw :: "sbpf_version \<Rightarrow> bool" where
  "disable_lddw v \<longleftrightarrow> v = V2"

definition disable_le :: "sbpf_version \<Rightarrow> bool" where
  "disable_le v \<longleftrightarrow> v = V2"

definition move_memory_instruction_classes :: "sbpf_version \<Rightarrow> bool" where
  "move_memory_instruction_classes v \<longleftrightarrow> v = V2"

definition static_syscalls :: "sbpf_version \<Rightarrow> bool" where
  "static_syscalls v \<longleftrightarrow> V3 \<le> v"

definition enable_stricter_elf_headers :: "sbpf_version \<Rightarrow> bool" where
  "enable_stricter_elf_headers v \<longleftrightarrow> V3 \<le> v"

definition enable_lower_rodata_vaddr :: "sbpf_version \<Rightarrow> bool" where
  "enable_lower_rodata_vaddr v \<longleftrightarrow> V3 \<le> v"

definition enable_jmp32 :: "sbpf_version \<Rightarrow> bool" where
  "enable_jmp32 v \<longleftrightarrow> V3 \<le> v"

definition callx_uses_dst_reg :: "sbpf_version \<Rightarrow> bool" where
  "callx_uses_dst_reg v \<longleftrightarrow> V3 \<le> v"

lemmas version_gates = manual_stack_frame_bump_def stack_frame_gaps_def enable_pqr_def
  explicit_sign_extension_of_results_def swap_sub_reg_imm_operands_def disable_neg_def
  callx_uses_src_reg_def disable_lddw_def disable_le_def move_memory_instruction_classes_def
  static_syscalls_def enable_stricter_elf_headers_def enable_lower_rodata_vaddr_def
  enable_jmp32_def callx_uses_dst_reg_def less_eq_sbpf_version_def

definition i64_saturating_add :: "u64 \<Rightarrow> u64 \<Rightarrow> u64" where
  "i64_saturating_add a b = word_of_int (saturate_i64 (sint a + sint b))"

definition calculate_call_imm_target_pc :: "sbpf_version \<Rightarrow> u64 \<Rightarrow> u64 \<Rightarrow> u32" where
  "calculate_call_imm_target_pc v pc i =
    (if static_syscalls v then ucast (i64_saturating_add (i64_saturating_add pc i) 1) else ucast i)"

section \<open>Configuration\<close>

record config =
  max_call_depth :: nat
  stack_frame_size :: nat
  enable_address_translation :: bool
  enable_stack_frame_gaps :: bool
  instruction_meter_checkpoint_distance :: nat
  enable_instruction_meter :: bool
  enable_register_tracing :: bool
  enable_symbol_and_section_labels :: bool
  reject_broken_elfs :: bool
  optimize_rodata :: bool
  allow_memory_region_zero :: bool
  aligned_memory_mapping :: bool
  enabled_sbpf_versions :: "sbpf_version \<times> sbpf_version"

definition stack_size :: "config \<Rightarrow> nat" where
  "stack_size c = stack_frame_size c * max_call_depth c"

definition default_config :: config where
  "default_config = \<lparr>max_call_depth = 64, stack_frame_size = 4096, enable_address_translation = True,
     enable_stack_frame_gaps = True, instruction_meter_checkpoint_distance = 10000,
     enable_instruction_meter = True, enable_register_tracing = False,
     enable_symbol_and_section_labels = False, reject_broken_elfs = False, optimize_rodata = True,
     allow_memory_region_zero = True, aligned_memory_mapping = False,
     enabled_sbpf_versions = (V0, V4)\<rparr>"

section \<open>Errors\<close>

datatype access_type = Load | Store

text \<open>The payload of a syscall error is a boxed trait object; it is represented by its message.\<close>

datatype ebpf_error =
    CallDepthExceeded
  | ExitRootCallFrame
  | DivideByZero
  | DivideOverflow
  | ExecutionOverrun
  | CallOutsideTextSegment
  | ExceededMaxInstructions
  | JitNotCompiled
  | InvalidMemoryRegion nat
  | AccessViolation access_type u64 u64 string
  | StackAccessViolation access_type u64 u64 int
  | InvalidInstruction
  | UnsupportedInstruction
  | SyscallError string

type_synonym program_result = "(u64, ebpf_error) result"

datatype elf_error = SymbolHashCollision u32

section \<open>Function registry\<close>

type_synonym 't function_registry = "(u32 \<times> bytes \<times> 't) list"

fun btree_insert :: "u32 \<Rightarrow> 'v \<Rightarrow> (u32 \<times> 'v) list \<Rightarrow> (u32 \<times> 'v) list" where
  "btree_insert k v [] = [(k, v)]"
| "btree_insert k v ((k', v') # es) =
    (if k < k' then (k, v) # (k', v') # es
     else if k = k' then (k, v) # es
     else (k', v') # btree_insert k v es)"

definition register_function :: "u32 \<Rightarrow> bytes \<Rightarrow> 't \<Rightarrow> ('t function_registry, unit, elf_error) sm" where
  "register_function key name value reg =
    (case map_of reg key of
       None \<Rightarrow> (Ok (), btree_insert key (name, value) reg)
     | Some (_, value') \<Rightarrow> if value' \<noteq> value then (Err (SymbolHashCollision key), reg) else (Ok (), reg))"

definition unregister_function :: "u32 \<Rightarrow> 't function_registry \<Rightarrow> bool \<times> 't function_registry" where
  "unregister_function key reg = (map_of reg key \<noteq> None, filter (\<lambda>e. fst e \<noteq> key) reg)"

definition registry_keys :: "'t function_registry \<Rightarrow> u32 list" where
  "registry_keys reg = map fst reg"

definition lookup_by_key :: "'t function_registry \<Rightarrow> u32 \<Rightarrow> (bytes \<times> 't) option" where
  "lookup_by_key reg key = map_of reg key"

definition lookup_by_name :: "'t function_registry \<Rightarrow> bytes \<Rightarrow> (bytes \<times> 't) option" where
  "lookup_by_name reg name = find (\<lambda>e. fst e = name) (map snd reg)"

section \<open>Built-in programs\<close>

record 'f builtin_program =
  bp_config :: "config option"
  sparse_registry :: "'f function_registry"

definition new_loader :: "config \<Rightarrow> 'f builtin_program" where
  "new_loader c = \<lparr>bp_config = Some c, sparse_registry = []\<rparr>"

definition new_builtin :: "'f builtin_program" where
  "new_builtin = \<lparr>bp_config = None, sparse_registry = []\<rparr>"

definition builtin_register_function ::
  "(bytes \<Rightarrow> u32) \<Rightarrow> bytes \<Rightarrow> 'f \<Rightarrow> ('f builtin_program, unit, elf_error) sm" where
  "builtin_register_function hash_symbol_name name entry bp =
    (let key = hash_symbol_name name;
         (r, reg) = register_function key name entry (sparse_registry bp)
     in (r, bp\<lparr>sparse_registry := reg\<rparr>))"

definition builtin_unregister_function ::
  "(bytes \<Rightarrow> u32) \<Rightarrow> bytes \<Rightarrow> 'f builtin_program \<Rightarrow> bool \<times> 'f builtin_program" where
  "builtin_unregister_function hash_symbol_name name bp =
    (let key = hash_symbol_name name;
         (b, reg) = unregister_function key (sparse_registry bp)
     in (b, bp\<lparr>sparse_registry := reg\<rparr>))"

text \<open>\<^verbatim>\<open>b"entrypoint"\<close>\<close>

definition entrypoint_name :: bytes where
  "entrypoint_name = [0x65, 0x6e, 0x74, 0x72, 0x79, 0x70, 0x6f, 0x69, 0x6e, 0x74]"

definition register_function_hashed_legacy ::
  "(bytes \<Rightarrow> u32) \<Rightarrow> config \<Rightarrow> 'f function_registry \<Rightarrow> bool \<Rightarrow> bytes \<Rightarrow> u64
    \<Rightarrow> (u64 function_registry, u32, elf_error) sm" where
  "register_function_hashed_legacy hash_symbol_name conf loader_registry hash_name name value =
    bindM (if hash_name then
             (let hash = (if name = entrypoint_name then hash_symbol_name entrypoint_name
                          else hash_symbol_name (le_bytes 8 value))
              in if lookup_by_key loader_registry hash \<noteq> None then throw (SymbolHashCollision hash)
                 else ret hash)
           else ret (ucast value))
      (\<lambda>key. seqM (register_function key
                    (if enable_symbol_and_section_labels conf \<or> name = entrypoint_name then name else [])
                    value)
              (ret key))"

section \<open>The registry as a symbol table\<close>

text \<open>
  What the loaders rely on: a table with an invariant in which a key, once bound, keeps its value,
  and a second registration under the same key either agrees with it or is refused.
\<close>

locale symbol_table =
  fixes empty :: 'r
    and lookup :: "'r \<Rightarrow> 'k \<Rightarrow> 'v option"
    and register :: "'k \<Rightarrow> 'n \<Rightarrow> 'v \<Rightarrow> ('r, unit, 'e) sm"
    and inv :: "'r \<Rightarrow> bool"
  assumes inv_empty: "inv empty"
    and lookup_empty: "lookup empty k = None"
    and inv_register: "inv r \<Longrightarrow> inv (snd (register k n v r))"
    and register_ok: "inv r \<Longrightarrow> fst (register k n v r) = Ok () \<longleftrightarrow> lookup r k = None \<or> lookup r k = Some v"
    and register_ok_lookup: "inv r \<Longrightarrow> fst (register k n v r) = Ok () \<Longrightarrow>
      lookup (snd (register k n v r)) = (lookup r)(k \<mapsto> v)"
    and register_err_same: "inv r \<Longrightarrow> fst (register k n v r) \<noteq> Ok () \<Longrightarrow> snd (register k n v r) = r"
begin

primrec register_all :: "('k \<times> 'n \<times> 'v) list \<Rightarrow> ('r, unit, 'e) sm" where
  "register_all [] = ret ()"
| "register_all (e # es) = seqM (register (fst e) (fst (snd e)) (snd (snd e))) (register_all es)"

lemma lookup_monotone:
  assumes "inv r" and "lookup r k = Some v"
  shows "lookup (snd (register k' n v' r)) k = Some v"
proof (cases "fst (register k' n v' r) = Ok ()")
  case True
  then have "lookup (snd (register k' n v' r)) = (lookup r)(k' \<mapsto> v')"
    using assms(1) by (intro register_ok_lookup)
  moreover from True have "k' = k \<Longrightarrow> v' = v" using register_ok [OF assms(1)] assms(2) by auto
  ultimately show ?thesis using assms(2) by auto
next
  case False
  then show ?thesis using register_err_same [OF assms(1) False] assms(2) by simp
qed

lemma inv_register_all: "inv r \<Longrightarrow> inv (snd (register_all es r))"
proof (induction es arbitrary: r)
  case Nil
  then show ?case by (simp add: ret_def)
next
  case (Cons e es)
  then show ?case
    using inv_register [OF Cons.prems, of "fst e" "fst (snd e)" "snd (snd e)"]
    by (auto simp: seqM_def bindM_def split: prod.splits result.splits)
qed

lemma register_all_ok:
  assumes "inv r" and "fst (register_all es r) = Ok ()"
  shows "(\<forall>(k, n, v) \<in> set es. lookup (snd (register_all es r)) k = Some v)
    \<and> (\<forall>k v. lookup r k = Some v \<longrightarrow> lookup (snd (register_all es r)) k = Some v)"
  using assms
proof (induction es arbitrary: r)
  case Nil
  then show ?case by (simp add: ret_def)
next
  case (Cons e es)
  obtain k n v where e: "e = (k, n, v)" by (cases e) auto
  obtain x r1 where step: "register k n v r = (x, r1)" by fastforce
  with Cons.prems(2) e have x: "x = Ok ()"
    by (cases x) (auto simp: seqM_def bindM_def)
  have all: "register_all (e # es) r = register_all es r1"
    using step x e by (simp add: seqM_def bindM_def)
  have inv1: "inv r1" using inv_register [OF Cons.prems(1), of k n v] step by simp
  have ok1: "fst (register_all es r1) = Ok ()" using Cons.prems(2) all by simp
  have "lookup r1 k = Some v"
    using register_ok_lookup [OF Cons.prems(1), of k n v] step x by simp
  moreover have "lookup r1 k' = Some v'" if "lookup r k' = Some v'" for k' v'
    using lookup_monotone [OF Cons.prems(1) that, of k n v] step by simp
  ultimately show ?case using Cons.IH [OF inv1 ok1] unfolding all by (auto simp: e)
qed

end

definition registry_sorted :: "'t function_registry \<Rightarrow> bool" where
  "registry_sorted reg \<longleftrightarrow> sorted_wrt (<) (registry_keys reg)"

definition registry_value :: "'t function_registry \<Rightarrow> u32 \<Rightarrow> 't option" where
  "registry_value reg k = map_option snd (lookup_by_key reg k)"

lemma set_btree_insert: "set (map fst (btree_insert k v es)) = insert k (set (map fst es))"
  by (induction k v es rule: btree_insert.induct) auto

lemma sorted_btree_insert:
  "sorted_wrt (<) (map fst es) \<Longrightarrow> sorted_wrt (<) (map fst (btree_insert k v es))"
proof (induction k v es rule: btree_insert.induct)
  case (2 k v k' v' es)
  then show ?case using set_btree_insert [of k v es] by auto
qed simp

lemma map_of_btree_insert:
  "sorted_wrt (<) (map fst es) \<Longrightarrow> map_of (btree_insert k v es) = (map_of es)(k \<mapsto> v)"
proof (induction k v es rule: btree_insert.induct)
  case (2 k v k' v' es)
  then show ?case by (auto simp: fun_eq_iff)
qed auto

interpretation reg: symbol_table "[]" registry_value register_function registry_sorted
proof
  fix r :: "'t function_registry" and k n and v :: 't
  assume inv: "registry_sorted r"
  show "registry_sorted (snd (register_function k n v r))"
    using inv by (auto simp: registry_sorted_def registry_keys_def register_function_def
        sorted_btree_insert split: option.splits)
  show "fst (register_function k n v r) = Ok () \<longleftrightarrow> registry_value r k = None \<or> registry_value r k = Some v"
    by (auto simp: register_function_def registry_value_def lookup_by_key_def split: option.splits)
  show "fst (register_function k n v r) = Ok () \<Longrightarrow>
      registry_value (snd (register_function k n v r)) = (registry_value r)(k \<mapsto> v)"
    using inv by (auto simp: register_function_def registry_value_def lookup_by_key_def fun_eq_iff
        registry_sorted_def registry_keys_def map_of_btree_insert split: option.splits if_splits)
  show "fst (register_function k n v r) \<noteq> Ok () \<Longrightarrow> snd (register_function k n v r) = r"
    by (auto simp: register_function_def split: option.splits if_splits)
qed (simp_all add: registry_sorted_def registry_keys_def registry_value_def lookup_by_key_def)

text \<open>
  C35. Registering a syscall with a loader keeps the registry in key order. When it succeeds, the key
  of its name resolves to the new entry and every other key resolves as before. It fails exactly when
  the key is already bound to a different entry; the error carries the key and the loader is unchanged.
\<close>
theorem builtin_register_function_spec:
  assumes sorted: "registry_sorted (sparse_registry bp)"
    and step: "builtin_register_function h name entry bp = (r, bp')"
  shows "registry_sorted (sparse_registry bp')
    \<and> bp_config bp' = bp_config bp
    \<and> (r = Ok () \<longrightarrow>
        registry_value (sparse_registry bp') = (registry_value (sparse_registry bp))(h name \<mapsto> entry))
    \<and> (r \<noteq> Ok () \<longleftrightarrow>
        (\<exists>other. registry_value (sparse_registry bp) (h name) = Some other \<and> other \<noteq> entry))
    \<and> (r \<noteq> Ok () \<longrightarrow> r = Err (SymbolHashCollision (h name)) \<and> bp' = bp)"
proof -
  let ?R = "register_function (h name) name entry (sparse_registry bp)"
  have r: "r = fst ?R" and bp': "bp' = bp\<lparr>sparse_registry := snd ?R\<rparr>"
    using step by (auto simp: builtin_register_function_def split: prod.splits)
  have ok: "r = Ok () \<longleftrightarrow> registry_value (sparse_registry bp) (h name) \<in> {None, Some entry}"
    using reg.register_ok [OF sorted, of "h name" name entry] by (auto simp: r)
  have "r = Err (SymbolHashCollision (h name))" if "r \<noteq> Ok ()"
    using that by (auto simp: r register_function_def split: option.splits if_splits)
  then show ?thesis
    using reg.inv_register [OF sorted, of "h name" name entry]
      reg.register_ok_lookup [OF sorted, of "h name" name entry]
      reg.register_err_same [OF sorted, of "h name" name entry] ok
    by (auto simp: bp' simp flip: r)
qed

theorem builtin_register_function_spec_witness:
  "registry_sorted (sparse_registry (new_loader default_config :: nat builtin_program))
    \<and> registry_value (sparse_registry (snd (builtin_register_function (\<lambda>n. of_nat (length n)) [1, 2]
          (7::nat) (new_loader default_config)))) 2 = Some 7"
  using builtin_register_function_spec [of "new_loader default_config" "\<lambda>n. of_nat (length n)" "[1, 2]" "7::nat"]
  by (simp add: registry_sorted_def registry_keys_def new_loader_def builtin_register_function_def
      register_function_def)

end
