(* ===== verification/Sbpf_Memory.thy ===== *)
theory Sbpf_Memory
  imports Sbpf_Program "HOL-Library.Signed_Division"
begin

text \<open>
  Address translation, \<^verbatim>\<open>src/sbpf/src/memory_region.rs\<close>: memory regions with and without gaps, the
  unaligned mapping with its Eytzinger search tree and its small cache, the aligned mapping, and the
  loads and stores of the virtual machine. Host memory is a function from host addresses to bytes next
  to an opaque rest of the world \<open>'w\<close>, since an access-violation handler may move account data; the
  handler is a parameter of the operations that call it.

  \<open>find_region\<close> updates its cache through an \<open>UnsafeCell\<close>, so its model returns the mapping as well.
\<close>

section \<open>Regions\<close>

record memory_region =
  host_addr :: u64
  vm_addr :: u64
  region_len :: u64
  vm_gap_shift :: u8
  writable :: bool
  access_violation_handler_payload :: "u16 option"

definition leading_zeros :: "u64 \<Rightarrow> u8" where
  "leading_zeros w = of_nat (length (takeWhile (\<lambda>n. \<not> bit w n) (rev [0..<64])))"

definition new_internal :: "u64 \<Rightarrow> u64 \<Rightarrow> u64 \<Rightarrow> u64 \<Rightarrow> bool \<Rightarrow> memory_region" where
  "new_internal address len addr vm_gap_size w =
    (let shift = (63 :: u8);
         shift = (if 0 < vm_gap_size then saturating_sub shift (leading_zeros vm_gap_size) else shift)
     in \<lparr>host_addr = address, vm_addr = addr, region_len = len, vm_gap_shift = shift, writable = w,
         access_violation_handler_payload = None\<rparr>)"

definition vm_addr_range :: "memory_region \<Rightarrow> u64 \<times> u64" where
  "vm_addr_range r =
    (if vm_gap_shift r = 63 then (vm_addr r, saturating_add (vm_addr r) (region_len r))
     else (vm_addr r, saturating_add (vm_addr r) (saturating_mul (region_len r) 2)))"

definition checked_shr_or_0 :: "u64 \<Rightarrow> u8 \<Rightarrow> u64" where
  "checked_shr_or_0 x n = (if n < 64 then drop_bit (unat n) x else 0)"

definition checked_shl_or_0 :: "u64 \<Rightarrow> u8 \<Rightarrow> u64" where
  "checked_shl_or_0 x n = (if n < 64 then push_bit (unat n) x else 0)"

definition vm_to_host :: "memory_region \<Rightarrow> access_type \<Rightarrow> u64 \<Rightarrow> u64 \<Rightarrow> u64 option" where
  "vm_to_host r access addr len =
    (if access = Store \<and> \<not> writable r then None
     else if addr < vm_addr r then None
     else
       let begin_offset = saturating_sub addr (vm_addr r) in
       if vm_gap_shift r = 63 then
         (case checked_add begin_offset len of
            None \<Rightarrow> None
          | Some end_offset \<Rightarrow>
              if end_offset \<le> region_len r then Some (saturating_add (host_addr r) begin_offset) else None)
       else
         let is_in_gap = checked_shr_or_0 begin_offset (vm_gap_shift r) AND 1 = 1;
             gap_mask = checked_shl_or_0 (- 1) (vm_gap_shift r);
             gapped_offset = checked_shr_or_0 (begin_offset AND gap_mask) 1 OR (begin_offset AND NOT gap_mask)
         in case checked_add gapped_offset len of
              None \<Rightarrow> None
            | Some end_offset \<Rightarrow>
                if end_offset \<le> region_len r \<and> \<not> is_in_gap
                then Some (saturating_add (host_addr r) gapped_offset) else None)"

section \<open>The lookup cache\<close>

definition CACHE_SIZE :: nat where "CACHE_SIZE = 4"

record mapping_cache =
  entries :: "((u64 \<times> u64) \<times> nat) list"
  head :: nat

definition cache_new :: mapping_cache where
  "cache_new = \<lparr>entries = replicate CACHE_SIZE ((0, 0), 0), head = 0\<rparr>"

definition range_contains :: "u64 \<times> u64 \<Rightarrow> u64 \<Rightarrow> bool" where
  "range_contains r addr \<longleftrightarrow> fst r \<le> addr \<and> addr < snd r"

definition cache_find :: "mapping_cache \<Rightarrow> u64 \<Rightarrow> nat option" where
  "cache_find c addr =
    map_option snd (find (\<lambda>e. range_contains (fst e) addr)
      (map (\<lambda>i. entries c ! ((head c + i) mod CACHE_SIZE)) [0..<CACHE_SIZE]))"

text \<open>\<open>head.wrapping_sub(1) % SIZE\<close>: the size divides \<open>2 ^ 64\<close>, so 0 steps back to the last entry.\<close>

definition cache_insert :: "u64 \<times> u64 \<Rightarrow> nat \<Rightarrow> mapping_cache \<Rightarrow> mapping_cache" where
  "cache_insert vm_range region_index c =
    (let h = unat (word_of_nat (head c) - 1 :: u64) mod CACHE_SIZE
     in \<lparr>entries = (entries c)[h := (vm_range, region_index)], head = h\<rparr>)"

definition cache_flush :: "mapping_cache \<Rightarrow> mapping_cache" where
  "cache_flush c = c\<lparr>entries := replicate CACHE_SIZE ((0, 0), 0), head := 0\<rparr>"

section \<open>The unaligned mapping\<close>

record unaligned_mapping =
  um_regions :: "memory_region list"
  region_addresses :: "u64 list"
  region_index_lookup :: "nat list"
  cache :: mapping_cache

text \<open>The recursion fills both arrays; \<open>None\<close> is an index out of range in \<open>regions\<close>.\<close>

function construct_eytzinger_order ::
  "memory_region list \<Rightarrow> nat \<Rightarrow> nat \<Rightarrow> u64 list \<times> nat list \<Rightarrow> (nat \<times> u64 list \<times> nat list) option" where
  "construct_eytzinger_order regions in_index out_index st =
    (if out_index \<ge> length regions then Some (in_index, st)
     else
       (case construct_eytzinger_order regions in_index (out_index * 2 + 1) st of
          None \<Rightarrow> None
        | Some (in_index', addresses, lookup) \<Rightarrow>
            if in_index' < length regions then
              construct_eytzinger_order regions (in_index' + 1) (out_index * 2 + 2)
                (addresses[out_index := vm_addr (regions ! in_index')], lookup[out_index := in_index'])
            else None))"
  by pat_completeness auto
termination
  by (relation "measure (\<lambda>(regions, _, out_index, _). length regions - out_index)") auto

declare construct_eytzinger_order.simps [simp del]

definition unaligned_new_uninitialized :: "memory_region list \<Rightarrow> unaligned_mapping" where
  "unaligned_new_uninitialized regions =
    \<lparr>um_regions = regions, region_addresses = replicate (length regions) 0,
     region_index_lookup = replicate (length regions) 0, cache = cache_new\<rparr>"

fun first_overlap :: "nat \<Rightarrow> memory_region list \<Rightarrow> nat option" where
  "first_overlap index (first # second # rest) =
    (if snd (vm_addr_range first) > vm_addr second then Some index
     else first_overlap (index + 1) (second # rest))"
| "first_overlap index _ = None"

definition unaligned_initialize :: "(unaligned_mapping, unit, ebpf_error failure) sm" where
  "unaligned_initialize m =
    (let m = m\<lparr>um_regions := sort_key vm_addr (um_regions m)\<rparr> in
     case first_overlap 1 (um_regions m) of
       Some index \<Rightarrow> (Err (Fail (InvalidMemoryRegion index)), m)
     | None \<Rightarrow>
         (case construct_eytzinger_order (um_regions m) 0 0 (region_addresses m, region_index_lookup m) of
            None \<Rightarrow> (Err Panic, m)
          | Some (_, addresses, lookup) \<Rightarrow>
              (Ok (), m\<lparr>region_addresses := addresses, region_index_lookup := lookup\<rparr>)))"

text \<open>The search starts at 1 and doubles its index, so the index is never 0 in the loop.\<close>

function eytzinger_search :: "u64 list \<Rightarrow> u64 \<Rightarrow> nat \<Rightarrow> nat" where
  "eytzinger_search addresses addr index =
    (if 0 < index \<and> index \<le> length addresses then
       eytzinger_search addresses addr
         (index * 2 + (if addresses ! (index - 1) \<le> addr then 1 else 0))
     else index)"
  by pat_completeness auto
termination
  by (relation "measure (\<lambda>(addresses, _, index). Suc (length addresses) - index)") auto

declare eytzinger_search.simps [simp del]

fun trailing_zeros :: "nat \<Rightarrow> nat" where
  "trailing_zeros n = (if n = 0 then 64 else if odd n then 0 else Suc (trailing_zeros (n div 2)))"

declare trailing_zeros.simps [simp del]

definition unaligned_find_region ::
  "u64 \<Rightarrow> unaligned_mapping \<Rightarrow> (nat \<times> memory_region) option \<times> unaligned_mapping" where
  "unaligned_find_region addr m =
    (case cache_find (cache m) addr of
       Some index \<Rightarrow> (Some (index, um_regions m ! index), m)
     | None \<Rightarrow>
         let index = eytzinger_search (region_addresses m) addr 1;
             index = index div 2 ^ (trailing_zeros index + 1)
         in if index = 0 then (None, m)
            else
              let index = region_index_lookup m ! (index - 1);
                  region = um_regions m ! index
              in (Some (index, region), m\<lparr>cache := cache_insert (vm_addr_range region) index (cache m)\<rparr>))"

definition unaligned_replace_region ::
  "nat \<Rightarrow> memory_region \<Rightarrow> (unaligned_mapping, unit, ebpf_error failure) sm" where
  "unaligned_replace_region index region m =
    (if index < length (um_regions m) then
       (Ok (), m\<lparr>um_regions := (um_regions m)[index := region], cache := cache_flush (cache m)\<rparr>)
     else (Err Panic, m))"

section \<open>The aligned mapping\<close>

record aligned_mapping =
  am_regions :: "memory_region list"
  am_allow_memory_region_zero :: bool

definition aligned_new_uninitialized :: "memory_region list \<Rightarrow> config \<Rightarrow> aligned_mapping" where
  "aligned_new_uninitialized regions c =
    \<lparr>am_regions = regions, am_allow_memory_region_zero = allow_memory_region_zero c\<rparr>"

definition region_index_of :: "u64 \<Rightarrow> nat" where
  "region_index_of addr = unat (drop_bit VIRTUAL_ADDRESS_BITS addr)"

definition vec_insert :: "nat \<Rightarrow> 'a \<Rightarrow> 'a list \<Rightarrow> 'a list" where
  "vec_insert n x xs = take n xs @ x # drop n xs"

lemma nth_vec_insert_Suc: "n < length xs \<Longrightarrow> vec_insert n x xs ! Suc n = xs ! n"
  by (simp add: vec_insert_def nth_append)

lemma length_vec_insert [simp]: "n \<le> length xs \<Longrightarrow> length (vec_insert n x xs) = Suc (length xs)"
  by (simp add: vec_insert_def)

text \<open>\<open>empty_slice\<close> is the host address of the empty static slice that backs the fill-in regions.\<close>

function fill_regions :: "u64 \<Rightarrow> memory_region list \<Rightarrow> nat \<Rightarrow> (unit, ebpf_error) result \<times> memory_region list" where
  "fill_regions empty_slice regions expected =
    (if expected < length regions then
       let actual = region_index_of (vm_addr (regions ! expected)) in
       if actual > expected then
         fill_regions empty_slice
           (vec_insert expected
             (new_internal empty_slice 0 (saturating_mul (word_of_nat expected) MM_REGION_SIZE) 0 False) regions)
           (expected + 1)
       else if actual < expected then (Err (InvalidMemoryRegion actual), regions)
       else fill_regions empty_slice regions (expected + 1)
     else (Ok (), regions))"
  by pat_completeness auto

termination
  by (relation "measures [\<lambda>(_, regions, expected). length regions - expected,
      \<lambda>(_, regions, expected). region_index_of (vm_addr (regions ! expected)) - expected]")
    (auto simp: nth_vec_insert_Suc)

declare fill_regions.simps [simp del]

fun first_misplaced :: "nat \<Rightarrow> memory_region list \<Rightarrow> nat option" where
  "first_misplaced index [] = None"
| "first_misplaced index (r # rs) =
    (if region_index_of (vm_addr r) \<noteq> index then Some index else first_misplaced (index + 1) rs)"

definition aligned_initialize :: "u64 \<Rightarrow> (aligned_mapping, unit, ebpf_error) sm" where
  "aligned_initialize empty_slice m =
    (if am_allow_memory_region_zero m then
       (let (r, regions) = fill_regions empty_slice (sort_key vm_addr (am_regions m)) 0
        in (r, m\<lparr>am_regions := regions\<rparr>))
     else
       (let regions = sort_key vm_addr (am_regions m @ [new_internal empty_slice 0 0 0 False]);
            m = m\<lparr>am_regions := regions\<rparr>
        in case first_misplaced 0 regions of
             Some index \<Rightarrow> (Err (InvalidMemoryRegion index), m)
           | None \<Rightarrow> (Ok (), m)))"

definition aligned_find_region :: "aligned_mapping \<Rightarrow> u64 \<Rightarrow> (nat \<times> memory_region) option" where
  "aligned_find_region m addr =
    (let index = region_index_of addr in
     if index < length (am_regions m) \<and> (0 < index \<or> am_allow_memory_region_zero m)
     then Some (index, am_regions m ! index) else None)"

definition aligned_replace_region ::
  "nat \<Rightarrow> memory_region \<Rightarrow> (aligned_mapping, unit, ebpf_error failure) sm" where
  "aligned_replace_region index region m =
    (let begin_index = region_index_of (vm_addr region);
         end_index = region_index_of (saturating_add (vm_addr region) (saturating_sub (region_len region) 1))
     in if begin_index \<noteq> index \<or> end_index \<noteq> index then (Err (Fail (InvalidMemoryRegion index)), m)
        else if index < length (am_regions m) then (Ok (), m\<lparr>am_regions := (am_regions m)[index := region]\<rparr>)
        else (Err Panic, m))"

section \<open>The memory mapping\<close>

datatype memory_mapping_type = Aligned aligned_mapping | Unaligned unaligned_mapping

record memory_mapping =
  mm_max_call_depth :: int
  mm_stack_frame_size :: int
  disable_address_translation :: bool
  mm_sbpf_version :: sbpf_version
  initialized :: bool
  ty :: memory_mapping_type

record 'w host =
  mem :: "u64 \<Rightarrow> u8"
  world :: 'w

type_synonym 'w access_violation_handler =
  "memory_region \<Rightarrow> u64 \<Rightarrow> access_type \<Rightarrow> u64 \<Rightarrow> u64 \<Rightarrow> 'w host \<Rightarrow> memory_region \<times> 'w host"

definition default_access_violation_handler :: "'w access_violation_handler" where
  "default_access_violation_handler region max_len access addr len h = (region, h)"

definition new_uninitialized :: "memory_region list \<Rightarrow> config \<Rightarrow> sbpf_version \<Rightarrow> memory_mapping" where
  "new_uninitialized regions c v =
    (let t = (if v \<ge> V4 \<or> aligned_memory_mapping c
              then Aligned (aligned_new_uninitialized regions c)
              else Unaligned (unaligned_new_uninitialized regions))
     in \<lparr>mm_max_call_depth = usize_as_i64 (max_call_depth c), mm_stack_frame_size = usize_as_i64 (stack_frame_size c),
         disable_address_translation = (\<not> enable_address_translation c), mm_sbpf_version = v,
         initialized = False, ty = t\<rparr>)"

definition get_regions :: "memory_mapping \<Rightarrow> memory_region list" where
  "get_regions m = (case ty m of Aligned inner \<Rightarrow> am_regions inner | Unaligned inner \<Rightarrow> um_regions inner)"

definition find_region :: "u64 \<Rightarrow> memory_mapping \<Rightarrow> (nat \<times> memory_region) option \<times> memory_mapping" where
  "find_region addr m =
    (case ty m of
       Aligned inner \<Rightarrow> (aligned_find_region inner addr, m)
     | Unaligned inner \<Rightarrow>
         (let (r, inner) = unaligned_find_region addr inner in (r, m\<lparr>ty := Unaligned inner\<rparr>)))"

definition next_region_start :: "memory_mapping \<Rightarrow> nat \<Rightarrow> u64" where
  "next_region_start m index =
    (case get_at (get_regions m) (index + 1) of None \<Rightarrow> - 1 | Some next_region \<Rightarrow> vm_addr next_region)"

definition replace_region :: "nat \<Rightarrow> memory_region \<Rightarrow> (memory_mapping, unit, ebpf_error failure) sm" where
  "replace_region index region m =
    (let regions = get_regions m in
     if index \<ge> length regions
        \<or> vm_addr (regions ! index) \<noteq> vm_addr region
        \<or> snd (vm_addr_range region) > next_region_start m index
     then (Err (Fail (InvalidMemoryRegion index)), m)
     else case ty m of
            Aligned inner \<Rightarrow>
              (let (r, inner) = aligned_replace_region index region inner in (r, m\<lparr>ty := Aligned inner\<rparr>))
          | Unaligned inner \<Rightarrow>
              (let (r, inner) = unaligned_replace_region index region inner in (r, m\<lparr>ty := Unaligned inner\<rparr>)))"

definition mapping_initialize :: "u64 \<Rightarrow> (memory_mapping, unit, ebpf_error failure) sm" where
  "mapping_initialize empty_slice m =
    (let (r, t) =
       (case ty m of
          Aligned inner \<Rightarrow>
            (let (r, inner) = aligned_initialize empty_slice inner
             in (case r of Ok u \<Rightarrow> Ok u | Err e \<Rightarrow> Err (Fail e), Aligned inner))
        | Unaligned inner \<Rightarrow>
            (let (r, inner) = unaligned_initialize inner in (r, Unaligned inner)))
     in (r, m\<lparr>ty := t, initialized := is_ok r\<rparr>))"

text \<open>A store through the slice that \<open>get_regions_mut\<close> hands out; the slice has as many regions as the mapping.\<close>

definition get_regions_mut :: "nat \<Rightarrow> memory_region \<Rightarrow> (memory_mapping, unit, ebpf_error failure) sm" where
  "get_regions_mut index region m =
    (let m = m\<lparr>initialized := False\<rparr> in
     if index < length (get_regions m) then
       (Ok (), m\<lparr>ty := (case ty m of Aligned inner \<Rightarrow> Aligned (inner\<lparr>am_regions := (am_regions inner)[index := region]\<rparr>)
                                    | Unaligned inner \<Rightarrow> Unaligned (inner\<lparr>um_regions := (um_regions inner)[index := region]\<rparr>))\<rparr>)
     else (Err Panic, m))"

definition new_with_access_violation_handler ::
  "u64 \<Rightarrow> memory_region list \<Rightarrow> config \<Rightarrow> sbpf_version \<Rightarrow> (memory_mapping, ebpf_error failure) result" where
  "new_with_access_violation_handler empty_slice regions c v =
    (case mapping_initialize empty_slice (new_uninitialized regions c v) of
       (Ok _, m) \<Rightarrow> Ok m
     | (Err e, _) \<Rightarrow> Err e)"

definition generate_access_violation :: "memory_mapping \<Rightarrow> access_type \<Rightarrow> u64 \<Rightarrow> u64 \<Rightarrow> program_result" where
  "generate_access_violation m access addr len =
    (let distance = saturate_i64 (sint addr - sint MM_STACK_START);
         stack_frame =
           (if mm_stack_frame_size m = 0 \<or> distance = - (2 ^ 63) \<and> mm_stack_frame_size m = - 1 then 0
            else distance sdiv mm_stack_frame_size m)
     in if \<not> manual_stack_frame_bump (mm_sbpf_version m)
           \<and> - 1 \<le> stack_frame \<and> stack_frame < saturate_i64 (mm_max_call_depth m + 1)
        then Err (StackAccessViolation access addr len stack_frame)
        else
          let base = addr AND NOT (saturating_sub MM_BYTECODE_START 1);
              region_name = (if base = MM_BYTECODE_START then ''program''
                             else if base = MM_STACK_START then ''stack''
                             else if base = MM_HEAP_START then ''heap''
                             else if base = MM_INPUT_START then ''input''
                             else ''unknown'')
          in Err (AccessViolation access addr len region_name))"

definition map_addr :: "access_type \<Rightarrow> u64 \<Rightarrow> u64 \<Rightarrow> memory_mapping \<Rightarrow> program_result \<times> memory_mapping" where
  "map_addr access addr len m =
    (if disable_address_translation m then (Ok addr, m)
     else
       let (found, m) = find_region addr m in
       case found of
         None \<Rightarrow> (generate_access_violation m access addr len, m)
       | Some (_, region) \<Rightarrow>
           (case vm_to_host region access addr len of
              Some ha \<Rightarrow> (Ok ha, m)
            | None \<Rightarrow> (generate_access_violation m access addr len, m)))"

text \<open>
  The failure of \<open>replace_region\<close> is passed on; a panic inside it is not reachable: that is
  one of the laws of the region-map contract in \<^verbatim>\<open>Sbpf_Region_Search\<close>.
\<close>

definition map_with_access_violation_handler ::
  "'w access_violation_handler \<Rightarrow> access_type \<Rightarrow> u64 \<Rightarrow> u64
    \<Rightarrow> (memory_mapping \<times> 'w host, u64, ebpf_error failure) sm" where
  "map_with_access_violation_handler handler access addr len s =
    (let (m, h) = s in
     if disable_address_translation m then (Ok addr, (m, h))
     else
       let (found, m) = find_region addr m;
           violation = (case generate_access_violation m access addr len of Ok a \<Rightarrow> Ok a | Err e \<Rightarrow> Err (Fail e))
       in
       case found of
         None \<Rightarrow> (violation, (m, h))
       | Some (index, region) \<Rightarrow>
           (case vm_to_host region access addr len of
              Some ha \<Rightarrow> (Ok ha, (m, h))
            | None \<Rightarrow>
                let max_len = saturating_sub (next_region_start m index) (vm_addr region);
                    (region, h) = handler region max_len access addr len h
                in case vm_to_host region access addr len of
                     None \<Rightarrow> (violation, (m, h))
                   | Some ha \<Rightarrow>
                       (case replace_region index region m of
                          (Err e, m) \<Rightarrow> (Err e, (m, h))
                        | (Ok _, m) \<Rightarrow> (Ok ha, (m, h)))))"

definition read_mem :: "(u64 \<Rightarrow> u8) \<Rightarrow> u64 \<Rightarrow> nat \<Rightarrow> bytes" where
  "read_mem f a n = map (\<lambda>i. f (a + word_of_nat i)) [0..<n]"

definition write_mem :: "u64 \<Rightarrow> bytes \<Rightarrow> (u64 \<Rightarrow> u8) \<Rightarrow> u64 \<Rightarrow> u8" where
  "write_mem a bs f b = (if unat (b - a) < length bs then bs ! unat (b - a) else f b)"

text \<open>\<open>load::<T>\<close> and \<open>store::<T>\<close> at a type of \<open>n\<close> bytes, 1, 2, 4 or 8.\<close>

definition mapping_load ::
  "'w access_violation_handler \<Rightarrow> nat \<Rightarrow> u64 \<Rightarrow> (memory_mapping \<times> 'w host, u64, ebpf_error failure) sm" where
  "mapping_load handler n addr =
    bindM (map_with_access_violation_handler handler Load addr (word_of_nat n)) (\<lambda>ha.
      getsM (\<lambda>(m, h). of_le_bytes (read_mem (mem h) ha n)))"

definition mapping_store ::
  "'w access_violation_handler \<Rightarrow> nat \<Rightarrow> u64 \<Rightarrow> u64 \<Rightarrow> (memory_mapping \<times> 'w host, u64, ebpf_error failure) sm" where
  "mapping_store handler n value addr =
    bindM (map_with_access_violation_handler handler Store addr (word_of_nat n)) (\<lambda>ha.
      seqM (modifyM (\<lambda>(m, h). (m, h\<lparr>mem := write_mem ha (le_bytes n value) (mem h)\<rparr>))) (ret ha))"

end
