(* ===== verification/Sbpf_Region_Search.thy ===== *)
theory Sbpf_Region_Search
  imports Sbpf_Memory
begin

text \<open>
  Correctness of the address translation of \<^verbatim>\<open>Sbpf_Memory\<close>: the arithmetic of gapped regions, the
  Eytzinger order of the unaligned mapping and the search in it against a reference search in the
  sorted region list, the lookup cache, and the invariants both mappings keep.

  A node of the search tree is its index \<open>k\<close> in the arrays; its children are \<open>2k + 1\<close> and \<open>2k + 2\<close>.
\<close>

section \<open>Specification\<close>

text \<open>Where an address of a gapped region lies in the host memory of the region.\<close>

definition gap_offset :: "nat \<Rightarrow> nat \<Rightarrow> nat" where
  "gap_offset g x = x div 2 ^ Suc g * 2 ^ g + x mod 2 ^ g"

definition host_offset :: "memory_region \<Rightarrow> u64 \<Rightarrow> nat" where
  "host_offset r addr =
    (let begin_offset = unat addr - unat (vm_addr r)
     in if vm_gap_shift r = 63 then begin_offset else gap_offset (unat (vm_gap_shift r)) begin_offset)"

function inorder :: "nat \<Rightarrow> nat \<Rightarrow> nat list" where
  "inorder n k = (if k < n then inorder n (k * 2 + 1) @ k # inorder n (k * 2 + 2) else [])"
  by pat_completeness auto
termination by (relation "measure (\<lambda>(n, k). n - k)") auto

declare inorder.simps [simp del]

definition ancestor :: "nat \<Rightarrow> nat \<Rightarrow> bool" where
  "ancestor k x \<longleftrightarrow> (\<exists>d. Suc x div 2 ^ d = Suc k)"

definition eytzinger_filled :: "memory_region list \<Rightarrow> nat \<Rightarrow> nat list \<Rightarrow> u64 list \<Rightarrow> nat list \<Rightarrow> bool" where
  "eytzinger_filled regions i nodes addresses lookup \<longleftrightarrow>
    (\<forall>j < length nodes. lookup ! (nodes ! j) = i + j \<and> addresses ! (nodes ! j) = vm_addr (regions ! (i + j)))"

definition strip_index :: "nat \<Rightarrow> nat" where
  "strip_index m = m div 2 ^ (trailing_zeros m + 1)"

definition reference_find :: "memory_region list \<Rightarrow> u64 \<Rightarrow> (nat \<times> memory_region) option" where
  "reference_find regions addr =
    (let n = length (takeWhile (\<lambda>r. vm_addr r \<le> addr) regions)
     in if n = 0 then None else Some (n - 1, regions ! (n - 1)))"

definition eytzinger_inv :: "unaligned_mapping \<Rightarrow> bool" where
  "eytzinger_inv m \<longleftrightarrow>
    length (region_addresses m) = length (um_regions m)
    \<and> length (region_index_lookup m) = length (um_regions m)
    \<and> eytzinger_filled (um_regions m) 0 (inorder (length (um_regions m)) 0)
        (region_addresses m) (region_index_lookup m)"

definition regions_sorted :: "memory_region list \<Rightarrow> bool" where
  "regions_sorted rs \<longleftrightarrow> sorted (map vm_addr rs)"

fun regions_disjoint :: "memory_region list \<Rightarrow> bool" where
  "regions_disjoint (r # s # rs) \<longleftrightarrow> snd (vm_addr_range r) \<le> vm_addr s \<and> regions_disjoint (s # rs)"
| "regions_disjoint rs \<longleftrightarrow> True"

definition cache_inv :: "memory_region list \<Rightarrow> mapping_cache \<Rightarrow> bool" where
  "cache_inv rs c \<longleftrightarrow> length (entries c) = CACHE_SIZE
    \<and> (\<forall>(range, i) \<in> set (entries c). range = (0, 0) \<or> i < length rs \<and> range = vm_addr_range (rs ! i))"

definition unaligned_inv :: "unaligned_mapping \<Rightarrow> bool" where
  "unaligned_inv m \<longleftrightarrow> eytzinger_inv m \<and> regions_sorted (um_regions m) \<and> regions_disjoint (um_regions m)
    \<and> cache_inv (um_regions m) (cache m)"

section \<open>Regions\<close>

lemma gapped_offset_word:
  fixes x :: u64
  assumes "g < 63" and "\<not> bit x g"
  shows "drop_bit 1 (x AND push_bit g (- 1)) OR (x AND NOT (push_bit g (- 1)))
    = push_bit g (drop_bit (Suc g) x) OR take_bit g x"
proof (rule bit_word_eqI)
  fix n assume "n < LENGTH(64)"
  moreover have "bit x (Suc n) \<Longrightarrow> n < 63" using bit_imp_le_length [of x "Suc n"] by simp
  ultimately show "bit (drop_bit 1 (x AND push_bit g (- 1)) OR (x AND NOT (push_bit g (- 1)))) n
    = bit (push_bit g (drop_bit (Suc g) x) OR take_bit g x) n"
    using assms by (cases "n < g"; cases "Suc n = g") (auto simp: bit_simps)
qed

lemma bit_word_iff_odd_div: "bit (x::u64) g \<longleftrightarrow> odd (unat x div 2 ^ g)"
proof -
  have "bit (unat x) g \<longleftrightarrow> bit x g" by (auto simp: bit_unsigned_iff dest: bit_imp_le_length)
  then show ?thesis by (simp add: bit_iff_odd)
qed

lemma gap_offset_le: "gap_offset g x \<le> x"
proof -
  have "x div 2 ^ Suc g * 2 ^ g \<le> x div 2 ^ g * 2 ^ g"
    by (simp add: div_le_mono2 )
  then show ?thesis unfolding gap_offset_def by (metis add_le_cancel_right div_mult_mod_eq)
qed

lemma unat_gapped_offset:
  fixes x :: u64
  assumes "g < 63"
  shows "unat (push_bit g (drop_bit (Suc g) x) OR take_bit g x) = gap_offset g (unat x)"
proof -
  have "2 ^ g * (unat x div 2 ^ Suc g) \<le> unat x"
    using gap_offset_le [of g "unat x"] by (simp add: gap_offset_def mult.commute)
  moreover have x: "unat x < 2 ^ LENGTH(64)" by (rule unsigned_less)
  ultimately have "push_bit g (drop_bit (Suc g) (unat x)) < 2 ^ 64"
    by (simp add: push_bit_eq_mult drop_bit_eq_div mult.commute del: power_Suc)
  then have "unat (push_bit g (drop_bit (Suc g) x)) = push_bit g (drop_bit (Suc g) (unat x))"
    using x by (simp add: unsigned_push_bit_eq unsigned_drop_bit_eq take_bit_nat_eq_self)
  moreover have "push_bit g (drop_bit (Suc g) (unat x)) OR take_bit g (unat x)
     = push_bit g (drop_bit (Suc g) (unat x)) + take_bit g (unat x)"
    by (rule disjunctive_add [symmetric]) (auto simp: bit_simps)
  ultimately have "unat (push_bit g (drop_bit (Suc g) x) OR take_bit g x)
      = push_bit g (drop_bit (Suc g) (unat x)) + take_bit g (unat x)"
    by (simp add: unsigned_or_eq unsigned_take_bit_eq)
  then show ?thesis
    by (simp only: gap_offset_def push_bit_eq_mult drop_bit_eq_div take_bit_eq_mod)
qed

lemma vm_to_host_iff:
  assumes shift: "vm_gap_shift r \<le> 63"
  shows "vm_to_host r access addr len = Some ha \<longleftrightarrow>
    (access = Store \<longrightarrow> writable r) \<and> vm_addr r \<le> addr
    \<and> (vm_gap_shift r = 63 \<or> even ((unat addr - unat (vm_addr r)) div 2 ^ unat (vm_gap_shift r)))
    \<and> host_offset r addr + unat len \<le> unat (region_len r)
    \<and> ha = saturating_add (host_addr r) (word_of_nat (host_offset r addr))"
proof (cases "vm_addr r \<le> addr")
  case False
  then show ?thesis by (simp add: vm_to_host_def not_le)
next
  case True
  let ?o = "saturating_sub addr (vm_addr r)"
  have le: "\<not> addr < vm_addr r" using True by simp
  have o: "unat ?o = unat addr - unat (vm_addr r)" by (simp add: unat_saturating_sub)
  show ?thesis
  proof (cases "vm_gap_shift r = 63")
    case 63: True
    have "word_of_nat (host_offset r addr) = ?o" using 63 o by (simp add: host_offset_def flip: o)
    moreover have "vm_to_host r access addr len =
       (if access = Store \<and> \<not> writable r then None
        else if unat ?o + unat len \<le> unat (region_len r)
        then Some (saturating_add (host_addr r) ?o) else None)"
      using le 63 by (simp add: vm_to_host_def Let_def checked_add_within')
    ultimately show ?thesis using True 63 o by (auto simp: host_offset_def)
  next
    case gap: False
    let ?g = "unat (vm_gap_shift r)"
    have "?g \<le> 63" using shift by (simp add: word_le_nat_alt)
    moreover have "?g \<noteq> 63" using gap by (auto simp: word_unat_eq_iff)
    ultimately have g: "?g < 63" by simp
    let ?m = "drop_bit 1 (?o AND push_bit ?g (- 1)) OR (?o AND NOT (push_bit ?g (- 1)))"
    have word: "checked_shr_or_0 ?o (vm_gap_shift r) AND 1 = 1 \<longleftrightarrow> bit ?o ?g"
      "checked_shl_or_0 (- 1) (vm_gap_shift r) = push_bit ?g (- 1)"
      "checked_shr_or_0 x 1 = drop_bit 1 x" for x
      using g by (simp_all add: checked_shr_or_0_def checked_shl_or_0_def word_less_nat_alt and_one_eq bit_iff_odd_drop_bit mod2_eq_if)
    have "vm_to_host r access addr len =
       (if access = Store \<and> \<not> writable r then None
        else if unat ?m + unat len \<le> unat (region_len r) \<and> \<not> bit ?o ?g
        then Some (saturating_add (host_addr r) ?m) else None)"
      using le gap by (simp add: vm_to_host_def word Let_def checked_add_within)
    moreover have "unat ?m = host_offset r addr" if "\<not> bit ?o ?g"
      using gapped_offset_word [OF g that] unat_gapped_offset [OF g, of ?o] gap o
      by (simp add: host_offset_def Let_def)
    moreover have "bit ?o ?g \<longleftrightarrow> odd ((unat addr - unat (vm_addr r)) div 2 ^ ?g)"
      by (simp add: bit_word_iff_odd_div o)
    moreover have "?m = word_of_nat (unat ?m)" by simp
    ultimately show ?thesis
      using True gap by (cases "bit ?o ?g") auto
  qed
qed

section \<open>The search tree\<close>

lemma div_power_Suc: "m div 2 ^ Suc e = m div 2 ^ e div (2::nat)"
  by (simp only: power_Suc2 div_mult2_eq)

lemma ancestor_refl: "ancestor k k"
  unfolding ancestor_def by (rule exI [of _ 0]) simp

lemma ancestor_cases: "ancestor k x \<longleftrightarrow> x = k \<or> ancestor (k * 2 + 1) x \<or> ancestor (k * 2 + 2) x"
proof
  assume "ancestor k x"
  then obtain d where d: "Suc x div 2 ^ d = Suc k" by (auto simp: ancestor_def)
  show "x = k \<or> ancestor (k * 2 + 1) x \<or> ancestor (k * 2 + 2) x"
  proof (cases d)
    case 0
    with d show ?thesis by simp
  next
    case (Suc e)
    then have "Suc x div 2 ^ e div 2 = Suc k" using d by (simp only: div_power_Suc)
    then have "Suc x div 2 ^ e = Suc (k * 2 + 1) \<or> Suc x div 2 ^ e = Suc (k * 2 + 2)" by linarith
    then show ?thesis unfolding ancestor_def by blast
  qed
next
  have up: "Suc x div 2 ^ Suc d = Suc k" if "Suc x div 2 ^ d = Suc (k * 2 + b)" "b = 1 \<or> b = 2" for d b
    using that by (auto simp: div_power_Suc simp del: power_Suc)
  assume "x = k \<or> ancestor (k * 2 + 1) x \<or> ancestor (k * 2 + 2) x"
  then show "ancestor k x"
    using up unfolding ancestor_def by (metis ancestor_def ancestor_refl)
qed

lemma ancestor_le: "ancestor k x \<Longrightarrow> k \<le> x"
  unfolding ancestor_def by (metis Suc_le_mono div_le_dividend)

lemma ancestor_children_disjoint: "\<not> (ancestor (k * 2 + 1) x \<and> ancestor (k * 2 + 2) x)"
proof
  assume "ancestor (k * 2 + 1) x \<and> ancestor (k * 2 + 2) x"
  then obtain d e where d: "Suc x div 2 ^ d = k * 2 + 2" and e: "Suc x div 2 ^ e = k * 2 + 3"
    by (auto simp: ancestor_def numeral_3_eq_3)
  have lower: "Suc x div 2 ^ b \<le> Suc x div 2 ^ a div 2" if "a < b" for a b
  proof -
    have "(2::nat) ^ Suc a \<le> 2 ^ b" using that by (intro power_increasing) auto
    then have "Suc x div 2 ^ b \<le> Suc x div 2 ^ Suc a" by (intro div_le_mono2) auto
    then show ?thesis by (simp only: div_power_Suc)
  qed
  consider "d = e" | "d < e" | "e < d" by linarith
  then show False
    using d e lower [of d e] lower [of e d] by cases auto
qed

lemma set_inorder: "set (inorder n k) = {x. x < n \<and> ancestor k x}"
proof (induction n k rule: inorder.induct)
  case (1 n k)
  show ?case
  proof (cases "k < n")
    case True
    then show ?thesis
      using 1 True ancestor_cases [of k] by (subst inorder.simps) auto
  next
    case False
    then show ?thesis using ancestor_le [of k] by (subst inorder.simps) fastforce
  qed
qed

lemma distinct_inorder: "distinct (inorder n k)"
proof (induction n k rule: inorder.induct)
  case (1 n k)
  show ?case
    using 1 ancestor_children_disjoint [of k] ancestor_le [of "k * 2 + 1" k] ancestor_le [of "k * 2 + 2" k]
    by (subst inorder.simps) (auto simp: set_inorder)
qed

lemma ancestor_root: "ancestor 0 x"
proof (induction x rule: less_induct)
  case (less x)
  show ?case
  proof (cases "x = 0")
    case True
    then show ?thesis by (simp add: ancestor_refl)
  next
    case False
    then have "(x - 1) div 2 < x" by simp
    with less obtain d where "Suc ((x - 1) div 2) div 2 ^ d = 1" by (auto simp: ancestor_def)
    moreover have "Suc ((x - 1) div 2) = Suc x div 2" using False by (cases x) auto
    ultimately have "Suc x div 2 ^ Suc d = Suc 0" by (simp add: div_mult2_eq mult.commute)
    then show ?thesis unfolding ancestor_def by blast
  qed
qed

lemma set_inorder_root: "set (inorder n 0) = {..<n}"
  by (auto simp: set_inorder ancestor_root)

lemma length_inorder_root: "length (inorder n 0) = n"
  using distinct_card [OF distinct_inorder, of n 0] by (simp add: set_inorder_root)

lemma eytzinger_filled_Nil [simp]: "eytzinger_filled regions i [] a l"
  by (simp add: eytzinger_filled_def)

lemma eytzinger_filled_append:
  "eytzinger_filled regions i (xs @ ys) a l \<longleftrightarrow>
    eytzinger_filled regions i xs a l \<and> eytzinger_filled regions (i + length xs) ys a l"
proof
  assume *: "eytzinger_filled regions i (xs @ ys) a l"
  show "eytzinger_filled regions i xs a l \<and> eytzinger_filled regions (i + length xs) ys a l"
    unfolding eytzinger_filled_def
  proof (intro conjI allI impI)
    fix j assume "j < length xs"
    then show "l ! (xs ! j) = i + j" "a ! (xs ! j) = vm_addr (regions ! (i + j))"
      using * by (auto simp: eytzinger_filled_def nth_append dest!: spec [of _ j])
  next
    fix j assume "j < length ys"
    then show "l ! (ys ! j) = i + length xs + j" "a ! (ys ! j) = vm_addr (regions ! (i + length xs + j))"
      using * by (auto simp: eytzinger_filled_def nth_append add.assoc dest!: spec [of _ "length xs + j"])
  qed
next
  assume "eytzinger_filled regions i xs a l \<and> eytzinger_filled regions (i + length xs) ys a l"
  then show "eytzinger_filled regions i (xs @ ys) a l"
    by (auto simp: eytzinger_filled_def nth_append)
qed

lemma eytzinger_filled_Cons:
  "eytzinger_filled regions i (k # ys) a l \<longleftrightarrow>
    l ! k = i \<and> a ! k = vm_addr (regions ! i) \<and> eytzinger_filled regions (Suc i) ys a l"
  using eytzinger_filled_append [of regions i "[k]" ys a l] by (simp add: eytzinger_filled_def)

lemma eytzinger_filled_cong:
  assumes "\<And>x. x \<in> set nodes \<Longrightarrow> a' ! x = a ! x \<and> l' ! x = l ! x"
  shows "eytzinger_filled regions i nodes a' l' = eytzinger_filled regions i nodes a l"
  using assms by (simp add: eytzinger_filled_def)

lemma construct_eytzinger_order_spec:
  assumes "length a = length regions" and "length l = length regions"
    and "i + length (inorder (length regions) k) \<le> length regions"
  shows "\<exists>a' l'. construct_eytzinger_order regions i k (a, l) =
      Some (i + length (inorder (length regions) k), a', l')
    \<and> length a' = length regions \<and> length l' = length regions
    \<and> eytzinger_filled regions i (inorder (length regions) k) a' l'
    \<and> (\<forall>x. x \<notin> set (inorder (length regions) k) \<longrightarrow> a' ! x = a ! x \<and> l' ! x = l ! x)"
  using assms
proof (induction regions i k "(a, l)" arbitrary: a l rule: construct_eytzinger_order.induct)
  case (1 regions i k a l)
  let ?n = "length regions"
  show ?case
  proof (cases "k < ?n")
    case False
    then show ?thesis using 1(3,4) by (subst construct_eytzinger_order.simps) (simp add: inorder.simps [of ?n k])
  next
    case True
    let ?L = "inorder ?n (k * 2 + 1)" and ?R = "inorder ?n (k * 2 + 2)"
    have nodes: "inorder ?n k = ?L @ k # ?R" using True by (subst inorder.simps) simp
    have dist: "distinct (?L @ k # ?R)" using distinct_inorder [of ?n k] nodes by simp
    have bound: "i + length ?L + 1 + length ?R \<le> ?n" using 1(5) nodes by simp
    have k: "\<not> ?n \<le> k" using True by simp
    obtain a1 l1 where left: "construct_eytzinger_order regions i (k * 2 + 1) (a, l) = Some (i + length ?L, a1, l1)"
      and len1: "length a1 = ?n" "length l1 = ?n" and fill1: "eytzinger_filled regions i ?L a1 l1"
      and keep1: "\<And>x. x \<notin> set ?L \<Longrightarrow> a1 ! x = a ! x \<and> l1 ! x = l ! x"
      using 1(1) [OF k 1(3,4)] bound by auto
    let ?a2 = "a1[k := vm_addr (regions ! (i + length ?L))]" and ?l2 = "l1[k := i + length ?L]"
    obtain a3 l3 where right: "construct_eytzinger_order regions (i + length ?L + 1) (k * 2 + 2) (?a2, ?l2)
          = Some (i + length ?L + 1 + length ?R, a3, l3)"
      and len3: "length a3 = ?n" "length l3 = ?n"
      and fill3: "eytzinger_filled regions (i + length ?L + 1) ?R a3 l3"
      and keep3: "\<And>x. x \<notin> set ?R \<Longrightarrow> a3 ! x = ?a2 ! x \<and> l3 ! x = ?l2 ! x"
      using 1(2) [OF k left refl refl] len1 bound by auto
    have "eytzinger_filled regions i ?L a3 l3"
      using fill1
    proof (subst eytzinger_filled_cong [of _ a3 a1 l3 l1])
      fix x assume "x \<in> set ?L"
      then have "x \<noteq> k" "x \<notin> set ?R" using dist by auto
      then show "a3 ! x = a1 ! x \<and> l3 ! x = l1 ! x" using keep3 [of x] by simp
    qed
    moreover have "a3 ! k = vm_addr (regions ! (i + length ?L))" "l3 ! k = i + length ?L"
      using dist keep3 [of k] len1 True by auto
    ultimately have "eytzinger_filled regions i (inorder ?n k) a3 l3"
      using fill3 by (simp add: nodes eytzinger_filled_append eytzinger_filled_Cons)
    moreover have "a3 ! x = a ! x \<and> l3 ! x = l ! x" if "x \<notin> set (inorder ?n k)" for x
      using that keep1 [of x] keep3 [of x] by (auto simp: nodes)
    moreover have "construct_eytzinger_order regions i k (a, l) = Some (i + length (inorder ?n k), a3, l3)"
      using k left right bound by (subst construct_eytzinger_order.simps) (simp add: nodes)
    ultimately show ?thesis using len3 by blast
  qed
qed

lemma strip_index_double: "0 < m \<Longrightarrow> strip_index (m * 2) = strip_index m"
  by (simp add: strip_index_def trailing_zeros.simps [of "m * 2"] div_mult2_eq)

lemma strip_index_odd: "strip_index (m * 2 + 1) = m"
  by (simp add: strip_index_def trailing_zeros.simps [of "Suc (m * 2)"])

lemma strip_index_1: "strip_index (Suc 0) = 0"
  by (simp add: strip_index_def trailing_zeros.simps [of "Suc 0"])

lemma takeWhile_append_stop: "\<not> P y \<Longrightarrow> takeWhile P (xs @ y # ys) = takeWhile P xs"
  by (induction xs) auto

lemma eytzinger_search_spec:
  assumes "sorted (map ((!) addresses) (inorder (length addresses) k))"
  shows "strip_index (eytzinger_search addresses addr (Suc k)) =
    (let below = takeWhile (\<lambda>x. addresses ! x \<le> addr) (inorder (length addresses) k)
     in if below = [] then strip_index (Suc k) else Suc (last below))"
  using assms
proof (induction "length addresses" k rule: inorder.induct)
  case (1 k)
  let ?n = "length addresses" and ?P = "\<lambda>x. addresses ! x \<le> addr"
  show ?case
  proof (cases "k < ?n")
    case False
    then show ?thesis by (simp add: eytzinger_search.simps inorder.simps [of ?n k])
  next
    case True
    let ?L = "inorder ?n (k * 2 + 1)" and ?R = "inorder ?n (k * 2 + 2)"
    have nodes: "inorder ?n k = ?L @ k # ?R" using True by (subst inorder.simps) simp
    have srt: "sorted (map ((!) addresses) ?L)" "sorted (map ((!) addresses) ?R)"
      "\<And>x. x \<in> set ?L \<Longrightarrow> addresses ! x \<le> addresses ! k"
      using 1(3) by (auto simp: nodes sorted_append)
    show ?thesis
    proof (cases "addresses ! k \<le> addr")
      case go: True
      have step: "eytzinger_search addresses addr (Suc k) = eytzinger_search addresses addr (Suc (k * 2 + 2))"
        using True go by (subst eytzinger_search.simps) (simp add: numeral_eq_Suc)
      have "takeWhile ?P (inorder ?n k) = ?L @ k # takeWhile ?P ?R"
        using go srt(3) order.trans by (fastforce simp: nodes takeWhile_append)
      then show ?thesis
        using 1(2) [OF True srt(2)] strip_index_odd [of "Suc k"] unfolding step by (auto simp: Let_def)
    next
      case stay: False
      have step: "eytzinger_search addresses addr (Suc k) = eytzinger_search addresses addr (Suc (k * 2 + 1))"
        using True stay by (subst eytzinger_search.simps) simp
      have "takeWhile ?P (inorder ?n k) = takeWhile ?P ?L"
        unfolding nodes using stay by (rule takeWhile_append_stop)
      then show ?thesis
        using 1(1) [OF True srt(1)] strip_index_double [of "Suc k"] unfolding step by (auto simp: Let_def)
    qed
  qed
qed

lemma first_overlap_None: "first_overlap i rs = None \<longleftrightarrow> regions_disjoint rs"
  by (induction i rs rule: first_overlap.induct) auto

lemma unaligned_initialize_inv:
  assumes len: "length (region_addresses m) = length (um_regions m)"
      "length (region_index_lookup m) = length (um_regions m)"
    and cache: "cache m = cache_new"
    and init: "unaligned_initialize m = (r, m')"
  shows "um_regions m' = sort_key vm_addr (um_regions m)
    \<and> (if regions_disjoint (um_regions m') then r = Ok () \<and> unaligned_inv m'
       else \<exists>i. r = Err (Fail (InvalidMemoryRegion i)))"
proof -
  let ?rs = "sort_key vm_addr (um_regions m)"
  obtain a l where c: "construct_eytzinger_order ?rs 0 0 (region_addresses m, region_index_lookup m)
      = Some (length ?rs, a, l)" "length a = length ?rs" "length l = length ?rs"
      "eytzinger_filled ?rs 0 (inorder (length ?rs) 0) a l"
    using construct_eytzinger_order_spec [of "region_addresses m" ?rs "region_index_lookup m" 0 0] len
    by (auto simp: length_inorder_root)
  have "cache_inv ?rs cache_new" by (simp add: cache_inv_def cache_new_def)
  then show ?thesis
    using init c cache first_overlap_None [of 1 ?rs]
    by (auto simp: unaligned_initialize_def Let_def unaligned_inv_def eytzinger_inv_def regions_sorted_def
        split: option.splits prod.splits)
qed

lemma eytzinger_lookup:
  fixes addr :: u64 and m :: unaligned_mapping
  assumes inv: "eytzinger_inv m" and srt: "regions_sorted (um_regions m)"
  defines "index \<equiv> strip_index (eytzinger_search (region_addresses m) addr 1)"
  defines "n \<equiv> length (takeWhile (\<lambda>r. vm_addr r \<le> addr) (um_regions m))"
  shows "index = 0 \<longleftrightarrow> n = 0" and "0 < n \<Longrightarrow> region_index_lookup m ! (index - 1) = n - 1"
proof -
  let ?N = "length (um_regions m)" and ?A = "region_addresses m"
  let ?nodes = "inorder ?N 0"
  have len: "length ?A = ?N" "length ?nodes = ?N" using inv by (simp_all add: eytzinger_inv_def length_inorder_root)
  have fill: "\<And>j. j < ?N \<Longrightarrow> region_index_lookup m ! (?nodes ! j) = j \<and> ?A ! (?nodes ! j) = vm_addr (um_regions m ! j)"
    using inv len by (auto simp: eytzinger_inv_def eytzinger_filled_def)
  have addrs: "map ((!) ?A) ?nodes = map vm_addr (um_regions m)"
    using fill len by (auto intro: nth_equalityI)
  let ?below = "takeWhile (\<lambda>x. ?A ! x \<le> addr) ?nodes"
  have "length ?below = length (takeWhile (\<lambda>a. a \<le> addr) (map ((!) ?A) ?nodes))"
    by (simp add: takeWhile_map comp_def)
  also have "\<dots> = n" unfolding addrs n_def by (simp add: takeWhile_map comp_def)
  finally have n: "length ?below = n" .
  have "index = (if ?below = [] then 0 else Suc (last ?below))"
    using eytzinger_search_spec [of ?A 0 addr] srt len addrs
    by (simp add: index_def regions_sorted_def Let_def strip_index_1)
  moreover have "last ?below = ?nodes ! (n - 1)" if "0 < n"
    using that n by (metis last_conv_nth length_greater_0_conv diff_less takeWhile_nth zero_less_one)
  moreover have "n - 1 < ?N" if "0 < n"
    using that length_takeWhile_le [of "\<lambda>r. vm_addr r \<le> addr" "um_regions m"] unfolding n_def by linarith
  ultimately show "index = 0 \<longleftrightarrow> n = 0" "0 < n \<Longrightarrow> region_index_lookup m ! (index - 1) = n - 1"
    using n fill by auto
qed

section \<open>The cache and the reference search\<close>

lemma find_SomeD: "find P xs = Some x \<Longrightarrow> x \<in> set xs \<and> P x"
  by (induction xs) (auto split: if_splits)

lemma cache_find_SomeD:
  assumes "cache_inv rs c" and "cache_find c addr = Some i"
  shows "i < length rs \<and> range_contains (vm_addr_range (rs ! i)) addr"
proof -
  obtain e where e: "e \<in> (\<lambda>j. entries c ! ((head c + j) mod CACHE_SIZE)) ` {0..<CACHE_SIZE}"
    and r: "range_contains (fst e) addr" and i: "snd e = i"
    using assms(2) by (auto simp: cache_find_def dest!: find_SomeD)
  then obtain j where "e = entries c ! (j mod CACHE_SIZE)" by blast
  then have "e \<in> set (entries c)" using assms(1) by (auto simp: cache_inv_def CACHE_SIZE_def)
  then have "(fst e, i) \<in> set (entries c)" using i by auto
  moreover from r have "fst e \<noteq> (0, 0)" by (auto simp: range_contains_def)
  ultimately show ?thesis using assms(1) r by (auto simp: cache_inv_def)
qed

lemma cache_inv_insert:
  "cache_inv rs c \<Longrightarrow> i < length rs \<Longrightarrow> cache_inv rs (cache_insert (vm_addr_range (rs ! i)) i c)"
  unfolding cache_inv_def cache_insert_def Let_def
  by (auto dest!: subsetD [OF set_update_subset_insert])

lemma regions_disjoint_iff:
  "regions_disjoint rs \<longleftrightarrow>
    (\<forall>i. Suc i < length rs \<longrightarrow> snd (vm_addr_range (rs ! i)) \<le> vm_addr (rs ! Suc i))"
proof (induction rs rule: regions_disjoint.induct)
  case (1 r s rs)
  then show ?case using less_Suc_eq_0_disj by auto
qed auto

lemmas regions_disjoint_nth = regions_disjoint_iff [THEN iffD1, rule_format]

lemma fst_vm_addr_range [simp]: "fst (vm_addr_range r) = vm_addr r"
  by (simp add: vm_addr_range_def)

lemma reference_find_iff:
  assumes srt: "regions_sorted rs"
  shows "reference_find rs addr = Some (i, r) \<longleftrightarrow>
    i < length rs \<and> r = rs ! i \<and> vm_addr (rs ! i) \<le> addr
      \<and> (\<forall>j. i < j \<and> j < length rs \<longrightarrow> addr < vm_addr (rs ! j))"
proof -
  let ?P = "\<lambda>r. vm_addr r \<le> addr"
  let ?n = "length (takeWhile ?P rs)"
  have mono: "\<And>i j. i \<le> j \<Longrightarrow> j < length rs \<Longrightarrow> vm_addr (rs ! i) \<le> vm_addr (rs ! j)"
    using srt by (auto simp: regions_sorted_def sorted_iff_nth_mono)
  have "i < length rs \<and> vm_addr (rs ! i) \<le> addr \<and> (\<forall>j. i < j \<and> j < length rs \<longrightarrow> addr < vm_addr (rs ! j))
      \<longleftrightarrow> ?n = Suc i"
  proof
    assume *: "i < length rs \<and> vm_addr (rs ! i) \<le> addr \<and> (\<forall>j. i < j \<and> j < length rs \<longrightarrow> addr < vm_addr (rs ! j))"
    have "takeWhile ?P rs = take (Suc i) rs"
    proof (rule takeWhile_eq_take_P_nth)
      fix j assume "j < Suc i" "j < length rs"
      then show "vm_addr (rs ! j) \<le> addr" using mono [of j i] * by (auto intro: order_trans)
    next
      assume "Suc i < length rs"
      then show "\<not> vm_addr (rs ! Suc i) \<le> addr" using * by (simp add: not_le)
    qed
    then show "?n = Suc i" using * by simp
  next
    assume n: "?n = Suc i"
    then have i: "i < length rs" using length_takeWhile_le [of ?P rs] by linarith
    have "vm_addr (rs ! i) \<le> addr"
      using n nth_mem [of i "takeWhile ?P rs"] takeWhile_nth [of i ?P rs] by (auto dest: set_takeWhileD)
    moreover have "addr < vm_addr (rs ! j)" if "i < j" "j < length rs" for j
      using nth_length_takeWhile [of ?P rs] n that mono [of "Suc i" j] by auto
    ultimately show "i < length rs \<and> vm_addr (rs ! i) \<le> addr
        \<and> (\<forall>j. i < j \<and> j < length rs \<longrightarrow> addr < vm_addr (rs ! j))"
      using i by blast
  qed
  then show ?thesis by (auto simp: reference_find_def Let_def)
qed

lemma reference_find_containing:
  assumes srt: "regions_sorted rs" and dis: "regions_disjoint rs"
    and i: "i < length rs" and addr: "range_contains (vm_addr_range (rs ! i)) addr"
  shows "reference_find rs addr = Some (i, rs ! i)"
proof -
  have "addr < vm_addr (rs ! j)" if "i < j" "j < length rs" for j
  proof -
    have "addr < vm_addr (rs ! Suc i)"
      using regions_disjoint_nth [OF dis, of i] addr that by (auto simp: range_contains_def)
    also have "\<dots> \<le> vm_addr (rs ! j)"
      using srt that by (auto simp: regions_sorted_def sorted_iff_nth_mono)
    finally show ?thesis .
  qed
  then show ?thesis using i addr by (auto simp: reference_find_iff [OF srt] range_contains_def)
qed

lemma unaligned_find_region_reference:
  assumes inv: "unaligned_inv m"
  shows "\<exists>c. unaligned_find_region addr m = (reference_find (um_regions m) addr, m\<lparr>cache := c\<rparr>)
    \<and> unaligned_inv (m\<lparr>cache := c\<rparr>)"
proof -
  have parts: "eytzinger_inv m" "regions_sorted (um_regions m)" "regions_disjoint (um_regions m)"
    "cache_inv (um_regions m) (cache m)" using inv by (simp_all add: unaligned_inv_def)
  have upd: "unaligned_inv (m\<lparr>cache := c\<rparr>)" if "cache_inv (um_regions m) c" for c
    using inv that by (simp add: unaligned_inv_def eytzinger_inv_def)
  show ?thesis
  proof (cases "cache_find (cache m) addr")
    case (Some i)
    then have "reference_find (um_regions m) addr = Some (i, um_regions m ! i)"
      using cache_find_SomeD [OF parts(4)] reference_find_containing [OF parts(2,3)] by blast
    then show ?thesis
      using Some inv by (intro exI [of _ "cache m"]) (simp add: unaligned_find_region_def)
  next
    case None
    let ?n = "length (takeWhile (\<lambda>r. vm_addr r \<le> addr) (um_regions m))"
    note look = eytzinger_lookup [OF parts(1,2), of addr]
    show ?thesis
    proof (cases "?n = 0")
      case True
      then show ?thesis
        using None look(1) inv
        by (intro exI [of _ "cache m"])
          (simp add: unaligned_find_region_def reference_find_def Let_def strip_index_def)
    next
      case False
      then have n: "?n - 1 < length (um_regions m)"
        using length_takeWhile_le [of "\<lambda>r. vm_addr r \<le> addr" "um_regions m"] by linarith
      let ?c = "cache_insert (vm_addr_range (um_regions m ! (?n - 1))) (?n - 1) (cache m)"
      have "unaligned_find_region addr m = (reference_find (um_regions m) addr, m\<lparr>cache := ?c\<rparr>)"
        using None look False
        by (simp add: unaligned_find_region_def reference_find_def Let_def strip_index_def)
      then show ?thesis using upd [OF cache_inv_insert [OF parts(4) n]] by blast
    qed
  qed
qed

lemma regions_disjoint_update:
  assumes "regions_disjoint rs" and "i < length rs" and "vm_addr r = vm_addr (rs ! i)"
    and "Suc i < length rs \<Longrightarrow> snd (vm_addr_range r) \<le> vm_addr (rs ! Suc i)"
  shows "regions_disjoint (rs[i := r])"
  using assms by (auto simp: regions_disjoint_iff nth_list_update)

lemma unaligned_replace_region_inv:
  assumes inv: "unaligned_inv m" and i: "i < length (um_regions m)"
    and addr: "vm_addr r = vm_addr (um_regions m ! i)"
    and room: "Suc i < length (um_regions m) \<Longrightarrow> snd (vm_addr_range r) \<le> vm_addr (um_regions m ! Suc i)"
  shows "\<exists>m'. unaligned_replace_region i r m = (Ok (), m') \<and> um_regions m' = (um_regions m)[i := r]
    \<and> unaligned_inv m'"
proof -
  let ?m = "m\<lparr>um_regions := (um_regions m)[i := r], cache := cache_flush (cache m)\<rparr>"
  have same: "map vm_addr ((um_regions m)[i := r]) = map vm_addr (um_regions m)"
    using i addr by (simp add: map_update list_update_same_conv)
  then have "vm_addr ((um_regions m)[i := r] ! j) = vm_addr (um_regions m ! j)" if "j < length (um_regions m)" for j
    using that by (metis length_list_update nth_map)
  then have "eytzinger_inv ?m"
    using inv by (auto simp: unaligned_inv_def eytzinger_inv_def eytzinger_filled_def length_inorder_root)
  moreover have "regions_sorted (um_regions ?m)"
    using inv same by (simp add: unaligned_inv_def regions_sorted_def)
  moreover have "regions_disjoint (um_regions ?m)"
    using inv i addr room by (auto simp: unaligned_inv_def intro!: regions_disjoint_update)
  moreover have "cache_inv (um_regions ?m) (cache ?m)"
    by (simp add: cache_inv_def cache_flush_def)
  ultimately show ?thesis using i by (simp add: unaligned_replace_region_def unaligned_inv_def)
qed

section \<open>The contract of a region map\<close>

text \<open>
  What address translation relies on, whichever mapping holds the regions: a lookup changes neither the
  regions nor any later lookup, it finds a region of the mapping, and replacing a region by one that
  fits in its place changes what lookups give at that place only.
\<close>

definition replaceable :: "memory_region list \<Rightarrow> nat \<Rightarrow> memory_region \<Rightarrow> bool" where
  "replaceable rs i r \<longleftrightarrow> i < length rs \<and> vm_addr r = vm_addr (rs ! i)
    \<and> (Suc i < length rs \<longrightarrow> snd (vm_addr_range r) \<le> vm_addr (rs ! Suc i))"

locale region_map =
  fixes inv :: "'m \<Rightarrow> bool"
    and regions :: "'m \<Rightarrow> memory_region list"
    and lookup :: "u64 \<Rightarrow> 'm \<Rightarrow> (nat \<times> memory_region) option \<times> 'm"
    and replace :: "nat \<Rightarrow> memory_region \<Rightarrow> ('m, unit, ebpf_error failure) sm"
  assumes lookup_keeps: "inv m \<Longrightarrow> lookup a m = (x, m') \<Longrightarrow>
      inv m' \<and> regions m' = regions m \<and> (\<forall>b. fst (lookup b m') = fst (lookup b m))"
    and lookup_hit: "inv m \<Longrightarrow> fst (lookup a m) = Some (i, r) \<Longrightarrow> i < length (regions m) \<and> r = regions m ! i"
    and replace_ok: "inv m \<Longrightarrow> replaceable (regions m) i r \<Longrightarrow> replace i r m = (Ok (), m') \<Longrightarrow>
      inv m' \<and> regions m' = (regions m)[i := r]
      \<and> (\<forall>b. fst (lookup b m') = map_option (\<lambda>(j, q). (j, if j = i then r else q)) (fst (lookup b m)))"
    and replace_err: "inv m \<Longrightarrow> replaceable (regions m) i r \<Longrightarrow> replace i r m = (Err e, m') \<Longrightarrow>
      e \<noteq> Panic \<and> m' = m"
begin

lemma lookup_again:
  assumes "inv m" and "lookup a m = (Some (i, r), m')"
  shows "fst (lookup a m') = Some (i, r)"
  using lookup_keeps [OF assms] assms(2) by simp

lemma lookup_in_regions:
  assumes "inv m" and "lookup a m = (Some (i, r), m')"
  shows "r \<in> set (regions m')"
  using lookup_hit [OF assms(1), of a i r] lookup_keeps [OF assms] assms(2) by simp

lemma lookup_replaced:
  assumes inv: "inv m" and hit: "lookup a m = (Some (i, q), m1)"
    and rep: "replaceable (regions m) i r" and ok: "replace i r m1 = (Ok (), m2)"
  shows "inv m2 \<and> regions m2 = (regions m)[i := r] \<and> fst (lookup a m2) = Some (i, r)
    \<and> r \<in> set (regions m2)"
proof -
  have m1: "inv m1" "regions m1 = regions m" using lookup_keeps [OF inv hit] by simp_all
  have "fst (lookup a m1) = Some (i, q)" by (rule lookup_again [OF inv hit])
  then show ?thesis
    using replace_ok [OF m1(1) _ ok] m1 rep by (auto simp: replaceable_def set_update_memI)
qed

end

lemma fst_unaligned_find_region:
  "unaligned_inv m \<Longrightarrow> fst (unaligned_find_region a m) = reference_find (um_regions m) a"
  using unaligned_find_region_reference [of m a] by auto

lemma length_takeWhile_vm_addr:
  "length (takeWhile (\<lambda>r. vm_addr r \<le> b) rs) = length (takeWhile (\<lambda>a. a \<le> b) (map vm_addr rs))"
  by (simp add: takeWhile_map comp_def)

interpretation um: region_map unaligned_inv um_regions unaligned_find_region unaligned_replace_region
proof
  fix m :: unaligned_mapping and a x m'
  assume inv: "unaligned_inv m" and find: "unaligned_find_region a m = (x, m')"
  obtain c where m': "m' = m\<lparr>cache := c\<rparr>" "unaligned_inv m'"
    using unaligned_find_region_reference [OF inv, of a] find by auto
  have "fst (unaligned_find_region b m') = fst (unaligned_find_region b m)" for b
    using inv m'(2) by (simp add: fst_unaligned_find_region) (simp add: m'(1))
  then show "unaligned_inv m' \<and> um_regions m' = um_regions m
      \<and> (\<forall>b. fst (unaligned_find_region b m') = fst (unaligned_find_region b m))"
    using m' by simp
next
  fix m :: unaligned_mapping and a i r
  assume inv: "unaligned_inv m" and find: "fst (unaligned_find_region a m) = Some (i, r)"
  then have "reference_find (um_regions m) a = Some (i, r)"
    using inv by (simp add: fst_unaligned_find_region)
  then show "i < length (um_regions m) \<and> r = um_regions m ! i"
    using inv by (simp add: reference_find_iff unaligned_inv_def)
next
  fix m :: unaligned_mapping and i r m'
  assume inv: "unaligned_inv m" and rep: "replaceable (um_regions m) i r"
    and ok: "unaligned_replace_region i r m = (Ok (), m')"
  have m': "unaligned_inv m'" "um_regions m' = (um_regions m)[i := r]"
    using unaligned_replace_region_inv [OF inv, of i r] rep ok by (auto simp: replaceable_def)
  have "map vm_addr (um_regions m') = map vm_addr (um_regions m)"
    using rep m'(2) by (simp add: map_update replaceable_def list_update_same_conv)
  then have "length (takeWhile (\<lambda>r. vm_addr r \<le> b) (um_regions m')) = length (takeWhile (\<lambda>r. vm_addr r \<le> b) (um_regions m))" for b
    by (simp add: length_takeWhile_vm_addr)
  then have "reference_find (um_regions m') b
      = map_option (\<lambda>(j, q). (j, if j = i then r else q)) (reference_find (um_regions m) b)" for b
    using m'(2) rep by (auto simp: reference_find_def Let_def replaceable_def)
  then show "unaligned_inv m' \<and> um_regions m' = (um_regions m)[i := r]
      \<and> (\<forall>b. fst (unaligned_find_region b m')
          = map_option (\<lambda>(j, q). (j, if j = i then r else q)) (fst (unaligned_find_region b m)))"
    using m' inv by (simp add: fst_unaligned_find_region)
next
  fix m :: unaligned_mapping and i r e m'
  assume "unaligned_inv m" "replaceable (um_regions m) i r" "unaligned_replace_region i r m = (Err e, m')"
  then show "e \<noteq> Panic \<and> m' = m" by (simp add: unaligned_replace_region_def replaceable_def)
qed

definition aligned_inv :: "aligned_mapping \<Rightarrow> bool" where
  "aligned_inv m \<longleftrightarrow> (\<forall>i < length (am_regions m). region_index_of (vm_addr (am_regions m ! i)) = i)"

interpretation am: region_map aligned_inv am_regions "\<lambda>a m. (aligned_find_region m a, m)" aligned_replace_region
proof
  fix m :: aligned_mapping and i r m'
  assume inv: "aligned_inv m" and rep: "replaceable (am_regions m) i r"
    and ok: "aligned_replace_region i r m = (Ok (), m')"
  have m': "m' = m\<lparr>am_regions := (am_regions m)[i := r]\<rparr>"
    using ok by (auto simp: aligned_replace_region_def Let_def split: if_splits)
  then show "aligned_inv m' \<and> am_regions m' = (am_regions m)[i := r]
      \<and> (\<forall>b. fst (aligned_find_region m' b, m')
          = map_option (\<lambda>(j, q). (j, if j = i then r else q)) (fst (aligned_find_region m b, m)))"
    using inv rep by (auto simp: aligned_inv_def replaceable_def aligned_find_region_def Let_def nth_list_update)
qed (auto simp: aligned_find_region_def aligned_replace_region_def replaceable_def Let_def split: if_splits)

end
