(* ===== verification/Sbpf_Translation.thy ===== *)
theory Sbpf_Translation
  imports Sbpf_Region_Search "HOL-Library.Multiset"
begin

text \<open>
  What the memory mapping promises its users: translations stay inside regions, stores stay inside
  writable ones, a load sees the last store, initialisation places the regions, and lookups agree with
  a scan of the regions. The mapping satisfies the region-map contract of \<^verbatim>\<open>Sbpf_Region_Search\<close> because both
  of its variants do.
\<close>

section \<open>Invariants\<close>

fun type_inv :: "memory_mapping_type \<Rightarrow> bool" where
  "type_inv (Aligned a) = aligned_inv a"
| "type_inv (Unaligned u) = unaligned_inv u"

definition mapping_inv :: "memory_mapping \<Rightarrow> bool" where
  "mapping_inv m \<longleftrightarrow> type_inv (ty m)"

definition region_valid :: "memory_region \<Rightarrow> bool" where
  "region_valid r \<longleftrightarrow> vm_gap_shift r \<le> 63 \<and> unat (host_addr r) + unat (region_len r) < 2 ^ 64"

definition within_region :: "memory_region \<Rightarrow> u64 \<Rightarrow> nat \<Rightarrow> bool" where
  "within_region r ha n \<longleftrightarrow> host_addr r \<le> ha
    \<and> unat ha + n \<le> unat (host_addr r) + unat (region_len r)"

definition handler_keeps_valid :: "'w access_violation_handler \<Rightarrow> bool" where
  "handler_keeps_valid handler \<longleftrightarrow>
    (\<forall>r max_len access addr len h. region_valid r \<longrightarrow> region_valid (fst (handler r max_len access addr len h)))"

definition sample_mapping :: memory_mapping where
  "sample_mapping = \<lparr>mm_max_call_depth = 64, mm_stack_frame_size = 4096,
     disable_address_translation = False, mm_sbpf_version = V0, initialized = True,
     ty = Aligned \<lparr>am_regions = [new_internal 0x1000 16 0 0 False, new_internal 0x2000 32 0x100000000 0 True],
                   am_allow_memory_region_zero = True\<rparr>\<rparr>"

definition slot_of :: "memory_region \<Rightarrow> nat" where
  "slot_of r = region_index_of (vm_addr r)"

definition is_filler :: "memory_region \<Rightarrow> bool" where
  "is_filler r \<longleftrightarrow> region_len r = 0 \<and> \<not> writable r"

definition placed :: "memory_region list \<Rightarrow> nat \<Rightarrow> bool" where
  "placed rs k \<longleftrightarrow> (\<forall>j < k. j < length rs \<longrightarrow> region_index_of (vm_addr (rs ! j)) = j)"




section \<open>The mapping is a region map\<close>

lemma replaceable_next:
  "replaceable (get_regions m) i r \<Longrightarrow> snd (vm_addr_range r) \<le> next_region_start m i"
  by (cases "Suc i < length (get_regions m)") (auto simp: replaceable_def next_region_start_def get_at_def)

lemma replace_region_cases:
  assumes "replace_region i r m = (x, m')"
  shows "(x = Err (Fail (InvalidMemoryRegion i)) \<and> m' = m)
    \<or> (replaceable (get_regions m) i r \<and> (case ty m of
        Aligned a \<Rightarrow> \<exists>a'. aligned_replace_region i r a = (x, a') \<and> m' = m\<lparr>ty := Aligned a'\<rparr>
      | Unaligned u \<Rightarrow> \<exists>u'. unaligned_replace_region i r u = (x, u') \<and> m' = m\<lparr>ty := Unaligned u'\<rparr>))"
proof (cases "replaceable (get_regions m) i r")
  case True
  then have "\<not> (i \<ge> length (get_regions m) \<or> vm_addr (get_regions m ! i) \<noteq> vm_addr r
      \<or> snd (vm_addr_range r) > next_region_start m i)"
    using replaceable_next [OF True] by (auto simp: replaceable_def)
  with assms True show ?thesis
    by (auto simp: replace_region_def Let_def split: memory_mapping_type.splits prod.splits)
next
  case False
  then have "i \<ge> length (get_regions m) \<or> vm_addr (get_regions m ! i) \<noteq> vm_addr r
      \<or> snd (vm_addr_range r) > next_region_start m i"
    by (auto simp: replaceable_def next_region_start_def get_at_def not_le)
  with assms show ?thesis by (auto simp: replace_region_def Let_def)
qed

interpretation mm: region_map mapping_inv get_regions find_region replace_region
proof
  fix m a x m'
  assume inv: "mapping_inv m" and find: "find_region a m = (x, m')"
  show "mapping_inv m' \<and> get_regions m' = get_regions m \<and> (\<forall>b. fst (find_region b m') = fst (find_region b m))"
  proof (cases "ty m")
    case (Aligned al)
    then show ?thesis using inv find by (simp add: find_region_def)
  next
    case (Unaligned u)
    obtain u' where u': "unaligned_find_region a u = (x, u')" "m' = m\<lparr>ty := Unaligned u'\<rparr>"
      using find Unaligned by (auto simp: find_region_def split: prod.splits)
    then show ?thesis
      using um.lookup_keeps [of u a x u'] inv Unaligned
      by (auto simp: mapping_inv_def get_regions_def find_region_def case_prod_unfold Let_def)
  qed
next
  fix m a i r
  assume inv: "mapping_inv m" and find: "fst (find_region a m) = Some (i, r)"
  show "i < length (get_regions m) \<and> r = get_regions m ! i"
  proof (cases "ty m")
    case (Aligned al)
    then show ?thesis
      using inv find am.lookup_hit [of al a i r] by (simp add: mapping_inv_def find_region_def get_regions_def)
  next
    case (Unaligned u)
    then show ?thesis
      using inv find um.lookup_hit [of u a i r]
      by (simp add: mapping_inv_def find_region_def get_regions_def split: prod.splits)
  qed
next
  fix m i r m'
  assume inv: "mapping_inv m" and rep: "replaceable (get_regions m) i r"
    and ok: "replace_region i r m = (Ok (), m')"
  show "mapping_inv m' \<and> get_regions m' = (get_regions m)[i := r]
      \<and> (\<forall>b. fst (find_region b m') = map_option (\<lambda>(j, q). (j, if j = i then r else q)) (fst (find_region b m)))"
  proof (cases "ty m")
    case (Aligned al)
    obtain al' where "aligned_replace_region i r al = (Ok (), al')" "m' = m\<lparr>ty := Aligned al'\<rparr>"
      using replace_region_cases [OF ok] Aligned by auto
    then show ?thesis
      using am.replace_ok [of al i r al'] inv rep Aligned
      by (simp add: mapping_inv_def get_regions_def find_region_def)
  next
    case (Unaligned u)
    obtain u' where "unaligned_replace_region i r u = (Ok (), u')" "m' = m\<lparr>ty := Unaligned u'\<rparr>"
      using replace_region_cases [OF ok] Unaligned by auto
    then show ?thesis
      using um.replace_ok [of u i r u'] inv rep Unaligned
      by (simp add: mapping_inv_def get_regions_def find_region_def case_prod_unfold Let_def)
  qed
next
  fix m i r e m'
  assume inv: "mapping_inv m" and rep: "replaceable (get_regions m) i r"
    and err: "replace_region i r m = (Err e, m')"
  show "e \<noteq> Panic \<and> m' = m"
  proof (cases "ty m")
    case (Aligned al)
    then show ?thesis
      using replace_region_cases [OF err] am.replace_err [of al i r e] inv rep
      by (auto simp: mapping_inv_def get_regions_def)
  next
    case (Unaligned u)
    then show ?thesis
      using replace_region_cases [OF err] um.replace_err [of u i r e] inv rep
      by (auto simp: mapping_inv_def get_regions_def)
  qed
qed

section \<open>Translation\<close>

lemma vm_to_host_within:
  assumes "region_valid r" and "vm_to_host r access addr len = Some ha"
  shows "within_region r ha (unat len) \<and> (access = Store \<longrightarrow> writable r)"
proof -
  have off: "host_offset r addr + unat len \<le> unat (region_len r)" "access = Store \<longrightarrow> writable r"
    and ha: "ha = saturating_add (host_addr r) (word_of_nat (host_offset r addr))"
    using assms by (simp_all add: region_valid_def vm_to_host_iff)
  have "unat (region_len r) < 2 ^ LENGTH(64)" by (rule unsigned_less)
  then have "unat (word_of_nat (host_offset r addr) :: u64) = host_offset r addr"
    using off by (simp add: unat_of_nat)
  then have "unat ha = unat (host_addr r) + host_offset r addr"
    using off assms(1) by (simp add: ha unat_saturating_add region_valid_def)
  then show ?thesis using off by (simp add: within_region_def word_le_nat_alt)
qed

lemma vm_to_host_Load: "vm_to_host r access addr len = Some ha \<Longrightarrow> vm_to_host r Load addr len = Some ha"
  by (auto simp: vm_to_host_def split: if_splits)

text \<open>\<open>find_region\<close> and \<open>replace_region\<close> touch the regions only.\<close>

lemma find_region_fields:
  "find_region a m = (x, m') \<Longrightarrow> disable_address_translation m' = disable_address_translation m"
  by (auto simp: find_region_def split: memory_mapping_type.splits prod.splits)

lemma replace_region_fields:
  "replace_region i r m = (x, m') \<Longrightarrow> disable_address_translation m' = disable_address_translation m"
  by (auto simp: replace_region_def Let_def split: if_splits memory_mapping_type.splits prod.splits)

lemma generate_access_violation_Err: "\<exists>e. generate_access_violation m access addr len = Err e"
  by (simp add: generate_access_violation_def Let_def)

text \<open>The three ways in which a translation with the handler ends.\<close>

lemma map_with_handler_cases:
  assumes inv: "mapping_inv m" and tr: "\<not> disable_address_translation m"
    and step: "map_with_access_violation_handler handler access addr len (m, h) = (x, (m', h'))"
  obtains (hit) i r ha where "find_region addr m = (Some (i, r), m')" "vm_to_host r access addr len = Some ha"
      "x = Ok ha" "h' = h"
    | (handled) i r m1 r' ha where "find_region addr m = (Some (i, r), m1)"
      "handler r (saturating_sub (next_region_start m1 i) (vm_addr r)) access addr len h = (r', h')"
      "vm_to_host r' access addr len = Some ha" "x = Ok ha" "replaceable (get_regions m) i r'"
      "replace_region i r' m1 = (Ok (), m')"
    | (failed) e y where "x = Err (Fail e)" "find_region addr m = (y, m')"
proof -
  obtain y m1 where find: "find_region addr m = (y, m1)" by fastforce
  obtain e0 where viol: "generate_access_violation m1 access addr len = Err e0"
    using generate_access_violation_Err by blast
  show thesis
  proof (cases y)
    case None
    then show ?thesis using step tr find viol failed [of e0 y] by (simp add: map_with_access_violation_handler_def)
  next
    case (Some ir)
    obtain i r where ir: "ir = (i, r)" by fastforce
    show ?thesis
    proof (cases "vm_to_host r access addr len")
      case (Some ha)
      then show ?thesis using step tr find viol hit [of i r ha] \<open>y = Some ir\<close> ir
        by (simp add: map_with_access_violation_handler_def)
    next
      case None
      obtain r' h1 where hd:
        "handler r (saturating_sub (next_region_start m1 i) (vm_addr r)) access addr len h = (r', h1)" by fastforce
      obtain z m2 where rep: "replace_region i r' m1 = (z, m2)" by fastforce
      note base = step tr find viol \<open>y = Some ir\<close> ir None hd rep
      have inv1: "mapping_inv m1" "get_regions m1 = get_regions m" using mm.lookup_keeps [OF inv find] by simp_all
      show ?thesis
      proof (cases "vm_to_host r' access addr len")
        case None
        then show ?thesis using base failed [of e0 y] by (simp add: map_with_access_violation_handler_def)
      next
        case (Some ha)
        show ?thesis
        proof (cases z)
          case (Ok u)
          then have "replaceable (get_regions m) i r'" using replace_region_cases [OF rep] inv1 by auto
          then show ?thesis using base Some Ok handled [of i r m1 r' ha] by (simp add: map_with_access_violation_handler_def)
        next
          case (Err e)
          then have "e \<noteq> Panic \<and> m2 = m1"
            using replace_region_cases [OF rep] mm.replace_err [OF inv1(1), of i r' e m2] rep by auto
          then obtain e1 where "e = Fail e1" "m2 = m1" by (cases e) auto
          then show ?thesis
            using base Some Err failed [of e1 y] by (simp add: map_with_access_violation_handler_def)
        qed
      qed
    qed
  qed
qed

lemma map_with_handler_ok:
  assumes inv: "mapping_inv m" and tr: "\<not> disable_address_translation m"
    and step: "map_with_access_violation_handler handler access addr len (m, h) = (Ok ha, (m', h'))"
  shows "mapping_inv m' \<and> \<not> disable_address_translation m'
    \<and> (\<exists>i r. fst (find_region addr m') = Some (i, r) \<and> r \<in> set (get_regions m')
        \<and> vm_to_host r access addr len = Some ha)"
  using inv tr step
proof (cases rule: map_with_handler_cases)
  case (hit i r ha)
  then show ?thesis
    using mm.lookup_keeps [OF inv] mm.lookup_in_regions [OF inv] mm.lookup_again [OF inv] tr
      find_region_fields step by blast
next
  case (handled i r m1 r' ha)
  then show ?thesis
    using mm.lookup_replaced [OF inv handled(1) handled(5,6)] tr find_region_fields [OF handled(1)]
      replace_region_fields [OF handled(6)] by auto
qed simp

lemma map_with_handler_valid:
  assumes inv: "mapping_inv m" and tr: "\<not> disable_address_translation m"
    and valid: "\<forall>r \<in> set (get_regions m). region_valid r" and handler: "handler_keeps_valid handler"
    and step: "map_with_access_violation_handler handler access addr len (m, h) = (x, (m', h'))"
  shows "mapping_inv m' \<and> (\<forall>r \<in> set (get_regions m'). region_valid r) \<and> x \<noteq> Err Panic"
  using inv tr step
proof (cases rule: map_with_handler_cases)
  case (hit i r ha)
  then show ?thesis using mm.lookup_keeps [OF inv hit(1)] valid by simp
next
  case (handled i r m1 r' ha)
  have "r \<in> set (get_regions m)"
    using mm.lookup_in_regions [OF inv handled(1)] mm.lookup_keeps [OF inv handled(1)] by simp
  then have "region_valid r'" using valid handler handled(2) by (metis handler_keeps_valid_def fst_conv)
  moreover have "set (get_regions m') \<subseteq> insert r' (set (get_regions m))"
    using mm.lookup_replaced [OF inv handled(1) handled(5,6)] by (simp add: set_update_subset_insert)
  ultimately show ?thesis
    using mm.lookup_replaced [OF inv handled(1) handled(5,6)] valid handled(4) by auto
next
  case (failed e y)
  then show ?thesis using mm.lookup_keeps [OF inv failed(2)] valid by simp
qed

lemma read_write_mem:
  assumes "length bs \<le> 2 ^ 63"
  shows "read_mem (write_mem a bs f) a (length bs) = bs"
proof (rule nth_equalityI)
  fix i assume "i < length (read_mem (write_mem a bs f) a (length bs))"
  then have i: "i < length bs" by (simp add: read_mem_def)
  then have "unat (word_of_nat i :: u64) = i" using assms by (simp add: unat_of_nat)
  then show "read_mem (write_mem a bs f) a (length bs) ! i = bs ! i"
    using i by (simp add: read_mem_def write_mem_def)
qed (simp add: read_mem_def)

text \<open>
  C25. A translation that succeeds gives a range of host addresses inside one region of the mapping, and
  inside a writable one when the access is a store. It also keeps the mapping well-formed, whatever the
  access-violation handler does, as long as the handler replaces valid regions by valid ones; and it
  never panics.
\<close>

theorem translation_within_region:
  assumes "mapping_inv m" and "\<not> disable_address_translation m"
    and "\<forall>r \<in> set (get_regions m). region_valid r" and "handler_keeps_valid handler"
    and "map_with_access_violation_handler handler access addr len (m, h) = (x, (m', h'))"
  shows "mapping_inv m' \<and> (\<forall>r \<in> set (get_regions m'). region_valid r) \<and> x \<noteq> Err Panic
    \<and> (\<forall>ha. x = Ok ha \<longrightarrow> (\<exists>r \<in> set (get_regions m').
          within_region r ha (unat len) \<and> (access = Store \<longrightarrow> writable r)))"
proof -
  note valid = map_with_handler_valid [OF assms]
  have "\<exists>r \<in> set (get_regions m'). within_region r ha (unat len) \<and> (access = Store \<longrightarrow> writable r)"
    if "x = Ok ha" for ha
    using map_with_handler_ok [OF assms(1,2)] assms(5) valid vm_to_host_within that by metis
  with valid show ?thesis by blast
qed

lemmas translate_eval = sample_mapping_def mapping_inv_def aligned_inv_def region_index_of_def get_regions_def
  new_internal_def region_valid_def handler_keeps_valid_def default_access_violation_handler_def layout_defs
  map_with_access_violation_handler_def find_region_def aligned_find_region_def vm_to_host_def
  saturating_sub_def checked_add_def saturating_add_def less_Suc_eq nth_Cons'

theorem translation_within_region_witness:
  "\<exists>r \<in> set (get_regions sample_mapping). within_region r 0x2008 8 \<and> writable r"
  using translation_within_region [where m = sample_mapping and
      handler = default_access_violation_handler and access = Store and addr = "0x100000008" and len = 8
      and h = "\<lparr>mem = \<lambda>_. 0, world = ()\<rparr>" and x = "Ok 0x2008" and m' = sample_mapping
      and h' = "\<lparr>mem = \<lambda>_. 0, world = ()\<rparr>"]
  by (simp add: translate_eval)

text \<open>
  C28. A load of 1, 2, 4 or 8 bytes right after a successful store of that size at the same address
  gives the v stored, cut to its size: translation finds the same place again, also when the
  access-violation handler had to replace the region.
\<close>

theorem load_after_store:
  assumes inv: "mapping_inv m"
    and n: "n \<in> {1, 2, 4, 8}"
    and store: "mapping_store handler n v addr (m, h) = (Ok ha, s')"
  shows "fst (mapping_load handler n addr s') = Ok (take_bit (8 * n) v)"
proof -
  obtain m1 h1 where tr: "map_with_access_violation_handler handler Store addr (word_of_nat n) (m, h) = (Ok ha, (m1, h1))"
    and s': "s' = (m1, h1\<lparr>mem := write_mem ha (le_bytes n v) (mem h1)\<rparr>)"
    using store by (auto simp: mapping_store_def monad_defs split: prod.splits result.splits)
  have hit: "\<exists>m2. map_with_access_violation_handler handler Load addr (word_of_nat n) s' = (Ok ha, (m2, snd s'))"
  proof (cases "disable_address_translation m")
    case True
    then show ?thesis using tr s' by (simp add: map_with_access_violation_handler_def)
  next
    case False
    obtain i r where "fst (find_region addr m1) = Some (i, r)"
      and st: "vm_to_host r Store addr (word_of_nat n) = Some ha" and "\<not> disable_address_translation m1"
      using map_with_handler_ok [OF inv False tr] by blast
    with vm_to_host_Load [OF st] show ?thesis
      by (simp add: s' map_with_access_violation_handler_def case_prod_unfold Let_def)
  qed
  have "read_mem (write_mem ha (le_bytes n v) (mem h1)) ha n = le_bytes n v"
    using read_write_mem [of "le_bytes n v" ha "mem h1"] n by auto
  moreover have "of_le_bytes (le_bytes n v) = take_bit (8 * n) v"
    using n by (intro of_le_bytes_le_bytes) auto
  ultimately show ?thesis
    using hit by (auto simp: s' mapping_load_def monad_defs split: prod.splits)
qed

theorem load_after_store_witness:
  "fst (mapping_load default_access_violation_handler 2 0x100000008
      (sample_mapping, \<lparr>mem = write_mem 0x2008 (le_bytes 2 0x991234) (\<lambda>_. 0), world = ()\<rparr>)) = Ok 0x1234"
  using load_after_store [where m = sample_mapping and handler = default_access_violation_handler and n = 2
      and v = "0x991234" and addr = "0x100000008" and h = "\<lparr>mem = \<lambda>_. 0, world = ()\<rparr>" and ha = "0x2008"
      and s' = "(sample_mapping, \<lparr>mem = write_mem 0x2008 (le_bytes 2 0x991234) (\<lambda>_. 0), world = ()\<rparr>)"]
  by (simp add: translate_eval mapping_store_def monad_defs)

text \<open>
  C27. A store that succeeds writes inside one writable region and nowhere else, whatever the access-violation handler does, as long as it
  replaces valid regions by valid ones: the store starts from the host state in which the translation left the memory, which is the old
  one unless the handler was called for a region of the mapping; every byte of host memory that differs from there belongs to one writable
  region of the mapping, and nothing but bytes of memory changes.
\<close>

theorem store_frame:
  assumes inv: "mapping_inv m" and tr: "\<not> disable_address_translation m"
    and valid: "\<forall>r \<in> set (get_regions m). region_valid r" and keeps: "handler_keeps_valid handler" and n: "n \<in> {1, 2, 4, 8}"
    and store: "mapping_store handler n v addr (m, h) = (Ok ha, (m', h'))"
  shows "\<exists>r \<in> set (get_regions m'). \<exists>h1. writable r
    \<and> (h1 = h \<or> (\<exists>q \<in> set (get_regions m). \<exists>max_len. h1 = snd (handler q max_len Store addr (word_of_nat n) h)))
    \<and> (\<forall>b. mem h' b \<noteq> mem h1 b \<longrightarrow> host_addr r \<le> b \<and> unat b < unat (host_addr r) + unat (region_len r))
    \<and> world h' = world h1"
proof -
  obtain m1 h1 where step: "map_with_access_violation_handler handler Store addr (word_of_nat n) (m, h) = (Ok ha, (m1, h1))"
    and h': "m' = m1" "h' = h1\<lparr>mem := write_mem ha (le_bytes n v) (mem h1)\<rparr>"
    using store by (auto simp: mapping_store_def monad_defs split: prod.splits result.splits)
  have h1: "h1 = h \<or> (\<exists>q \<in> set (get_regions m). \<exists>max_len. h1 = snd (handler q max_len Store addr (word_of_nat n) h))"
    using inv tr step
  proof (cases rule: map_with_handler_cases)
    case (handled i r m2 r' ha')
    then show ?thesis
      using mm.lookup_in_regions [OF inv handled(1)] mm.lookup_keeps [OF inv handled(1)] by (metis snd_conv)
  qed simp_all
  have len: "unat (word_of_nat n :: u64) = n" using n by auto
  obtain r where r: "r \<in> set (get_regions m')" and to_host: "vm_to_host r Store addr (word_of_nat n) = Some ha"
    using map_with_handler_ok [OF inv tr step] h'(1) by blast
  then have "region_valid r" using map_with_handler_valid [OF inv tr valid keeps step] h'(1) by blast
  note r = r this vm_to_host_within [OF this to_host, unfolded len]
  have "host_addr r \<le> b \<and> unat b < unat (host_addr r) + unat (region_len r)" if "mem h' b \<noteq> mem h1 b" for b
  proof -
    have "unat (b - ha) < n" using that by (auto simp: h' write_mem_def split: if_splits)
    moreover have "unat ha + n < 2 ^ 64" using r(2,3) by (simp add: within_region_def region_valid_def)
    moreover have "unat (ha + (b - ha)) = unat ha + unat (b - ha)"
      using calculation by (intro unat_add_no_overflow) simp
    ultimately show ?thesis using r(3) by (simp add: within_region_def word_le_nat_alt)
  qed
  moreover have "world h' = world h1" by (simp add: h')
  ultimately show ?thesis using r h1 by blast
qed

lemma region_index_of_multiple:
  assumes "k < 2 ^ 32"
  shows "region_index_of (saturating_mul (word_of_nat k) MM_REGION_SIZE) = k"
proof -
  have "unat (word_of_nat k :: u64) = k" using assms by (simp add: unat_of_nat)
  then have "unat (saturating_mul (word_of_nat k) MM_REGION_SIZE :: u64) = k * 2 ^ 32"
    using assms by (simp add: unat_saturating_mul MM_REGION_SIZE_def layout_defs)
  then show ?thesis
    by (simp add: region_index_of_def layout_defs drop_bit_eq_div unat_div_distrib)
qed

lemma region_index_of_bound: "region_index_of a < 2 ^ 32"
proof -
  have "unat a < 2 ^ LENGTH(64)" by (rule unsigned_less)
  then show ?thesis by (simp add: region_index_of_def layout_defs drop_bit_eq_div unat_div_distrib)
qed

lemma nth_vec_insert:
  "k \<le> length xs \<Longrightarrow> j < Suc (length xs) \<Longrightarrow>
    vec_insert k x xs ! j = (if j < k then xs ! j else if j = k then x else xs ! (j - 1))"
  by (auto simp: vec_insert_def nth_append nth_Cons')

lemma mset_vec_insert: "mset (vec_insert k x xs) = add_mset x (mset xs)"
  by (simp add: vec_insert_def) (metis append_take_drop_id mset_append)

lemma filler_new: "is_filler (new_internal e 0 a 0 False)"
  by (simp add: is_filler_def new_internal_def)

lemma fill_regions_ok:
  assumes "placed rs k" and "fill_regions e rs k = (Ok (), rs')"
  shows "placed rs' (length rs') \<and> (\<exists>fill. mset rs' = mset rs + mset fill \<and> list_all is_filler fill)"
  using assms
proof (induction e rs k rule: fill_regions.induct)
  case (1 e rs k)
  let ?a = "region_index_of (vm_addr (rs ! k))"
  let ?f = "new_internal e 0 (saturating_mul (word_of_nat k) MM_REGION_SIZE) 0 False"
  show ?case
  proof (cases "k < length rs")
    case False
    then have "rs' = rs" using 1(4) by (subst (asm) fill_regions.simps) simp
    then show ?thesis using 1(3) False by (auto simp: placed_def intro!: exI [of _ "[]"])
  next
    case True
    consider "?a > k" | "?a = k" | "?a < k" by linarith
    then show ?thesis
    proof cases
      case 1
      note gt = this
      have "k < 2 ^ 32" using gt region_index_of_bound [of "vm_addr (rs ! k)"] by linarith
      then have "region_index_of (vm_addr ?f) = k"
        by (simp add: new_internal_def region_index_of_multiple)
      then have "placed (vec_insert k ?f rs) (k + 1)"
        using "1.prems"(1) True by (auto simp: placed_def nth_vec_insert)
      moreover have "fill_regions e (vec_insert k ?f rs) (k + 1) = (Ok (), rs')"
        using "1.prems"(2) True gt by (subst (asm) fill_regions.simps) (simp add: Let_def)
      ultimately obtain fill where "placed rs' (length rs')" "mset rs' = mset (vec_insert k ?f rs) + mset fill"
        "list_all is_filler fill"
        using "1.IH"(1) [OF True refl gt] by blast
      then show ?thesis
        by (intro conjI exI [of _ "?f # fill"]) (simp_all add: mset_vec_insert filler_new)
    next
      case 2
      then have "placed rs (k + 1)" using "1.prems"(1) by (auto simp: placed_def less_Suc_eq)
      moreover have "fill_regions e rs (k + 1) = (Ok (), rs')"
        using "1.prems"(2) True 2 by (subst (asm) fill_regions.simps) (simp add: Let_def)
      ultimately show ?thesis using "1.IH"(2) [OF True refl] 2 by simp
    next
      case 3
      then show ?thesis using "1.prems"(2) True by (subst (asm) fill_regions.simps) (simp add: Let_def)
    qed
  qed
qed

lemma fill_regions_ok_iff:
  assumes "placed rs k" and "sorted (map slot_of rs)" and "k \<le> length rs"
  shows "is_ok (fst (fill_regions e rs k)) \<longleftrightarrow> distinct (map slot_of rs)"
  using assms
proof (induction e rs k rule: fill_regions.induct)
  case (1 e rs k)
  let ?ix = slot_of
  let ?a = "region_index_of (vm_addr (rs ! k))"
  let ?f = "new_internal e 0 (saturating_mul (word_of_nat k) MM_REGION_SIZE) 0 False"
  show ?case
  proof (cases "k < length rs")
    case False
    then have "map ?ix rs = [0..<length rs]"
      using "1.prems" by (auto simp: placed_def slot_of_def intro: nth_equalityI)
    then show ?thesis using False by (subst fill_regions.simps) (simp add: is_ok_def)
  next
    case True
    consider "?a > k" | "?a = k" | "?a < k" by linarith
    then show ?thesis
    proof cases
      case 1
      note gt = this
      have "k < 2 ^ 32" using gt region_index_of_bound [of "vm_addr (rs ! k)"] by linarith
      then have f: "?ix ?f = k" by (simp add: new_internal_def region_index_of_multiple slot_of_def)
      then have "placed (vec_insert k ?f rs) (k + 1)"
        using "1.prems"(1) True by (auto simp: placed_def nth_vec_insert slot_of_def)
      moreover have above: "\<forall>x \<in> set (drop k rs). k < ?ix x"
      proof
        fix x assume "x \<in> set (drop k rs)"
        then obtain i where "i < length rs - k" "x = rs ! (k + i)" by (auto simp: in_set_conv_nth)
        then have "?a \<le> ?ix x" using "1.prems"(2) by (auto simp: sorted_iff_nth_mono slot_of_def)
        then show "k < ?ix x" using gt by simp
      qed
      have below: "\<forall>x \<in> set (take k rs). ?ix x < k"
        using "1.prems"(1) True by (auto simp: placed_def in_set_conv_nth slot_of_def)
      have parts: "map ?ix rs = map ?ix (take k rs) @ map ?ix (drop k rs)" by (simp flip: map_append)
      have ins: "map ?ix (vec_insert k ?f rs) = map ?ix (take k rs) @ k # map ?ix (drop k rs)"
        using f by (simp add: vec_insert_def)
      have "sorted (map ?ix (vec_insert k ?f rs))"
        using "1.prems"(2) above below unfolding ins parts by (auto simp: sorted_append less_imp_le)
      moreover have "distinct (map ?ix (vec_insert k ?f rs)) \<longleftrightarrow> distinct (map ?ix rs)"
        using above below unfolding ins parts by auto
      ultimately show ?thesis
        using "1.IH"(1) [OF True refl gt] True gt by (subst fill_regions.simps) (simp add: Let_def)
    next
      case 2
      then have "placed rs (k + 1)" using "1.prems"(1) by (auto simp: placed_def less_Suc_eq)
      then show ?thesis
        using "1.IH"(2) [OF True refl] 2 True "1.prems" by (subst fill_regions.simps) (simp add: Let_def)
    next
      case 3
      then have "?ix (rs ! ?a) = ?ix (rs ! k)" using "1.prems"(1) True by (simp add: placed_def slot_of_def)
      then have "\<not> distinct (map ?ix rs)"
        using 3 True nth_eq_iff_index_eq [of "map slot_of rs" ?a k] by auto
      then show ?thesis using 3 True by (subst fill_regions.simps) (simp add: Let_def is_ok_def)
    qed
  qed
qed

lemma slot_of_mono: "vm_addr r \<le> vm_addr q \<Longrightarrow> slot_of r \<le> slot_of q"
  by (simp add: slot_of_def region_index_of_def drop_bit_eq_div unat_div_distrib word_le_nat_alt div_le_mono)

lemma sorted_slots: "sorted (map vm_addr rs) \<Longrightarrow> sorted (map slot_of rs)"
  by (auto simp: sorted_iff_nth_mono intro: slot_of_mono)

lemma first_misplaced_None:
  "first_misplaced i rs = None \<longleftrightarrow> (\<forall>j < length rs. region_index_of (vm_addr (rs ! j)) = i + j)"
proof (induction i rs rule: first_misplaced.induct)
  case (2 i r rs)
  then show ?case using less_Suc_eq_0_disj by auto
qed simp

lemma first_misplaced_sorted:
  assumes "sorted (map vm_addr rs)"
  shows "first_misplaced 0 rs = None \<longleftrightarrow> sort (map slot_of rs) = [0..<length rs]"
proof -
  have "first_misplaced 0 rs = None \<longleftrightarrow> map slot_of rs = [0..<length rs]"
  proof
    assume "first_misplaced 0 rs = None"
    then show "map slot_of rs = [0..<length rs]" by (intro nth_equalityI) (simp_all add: first_misplaced_None slot_of_def)
  next
    assume eq: "map slot_of rs = [0..<length rs]"
    have "slot_of (rs ! j) = j" if "j < length rs" for j
      using arg_cong [OF eq, of "\<lambda>xs. xs ! j"] that by simp
    then show "first_misplaced 0 rs = None" by (simp add: first_misplaced_None slot_of_def)
  qed
  then show ?thesis using sorted_sort_id [OF sorted_slots [OF assms]] by simp
qed

lemma sort_with_zero:
  fixes xs :: "nat list"
  shows "sort (xs @ [0]) = [0..<Suc (length xs)] \<longleftrightarrow> sort xs = [1..<Suc (length xs)]"
proof -
  have "sort (xs @ [0]) = 0 # sort xs" by (rule properties_for_sort) auto
  then show ?thesis by (simp add: upt_conv_Cons del: upt_Suc)
qed

text \<open>
  C29. Initialising an aligned mapping puts every region at the index its address names and adds nothing but empty read-only fill-in
  regions. It succeeds exactly when the indices of the regions are distinct, where region 0 is allowed, and exactly when they are
  1, 2, 3, ... without a gap or a repetition, where it is not.
\<close>

theorem aligned_initialize_spec:
  assumes "aligned_initialize empty_slice m = (r, m')"
  shows "(r = Ok () \<longrightarrow> aligned_inv m'
        \<and> (\<exists>fill. mset (am_regions m') = mset (am_regions m) + mset fill \<and> list_all is_filler fill))
    \<and> (is_ok r \<longleftrightarrow> (if am_allow_memory_region_zero m then distinct (map slot_of (am_regions m))
         else sort (map slot_of (am_regions m)) = [1..<Suc (length (am_regions m))]))"
proof (cases "am_allow_memory_region_zero m")
  case True
  let ?rs = "sort_key vm_addr (am_regions m)"
  obtain rs' where fill: "fill_regions empty_slice ?rs 0 = (r, rs')" "am_regions m' = rs'"
    using assms True by (auto simp: aligned_initialize_def split: prod.splits)
  have "placed ?rs 0" by (simp add: placed_def)
  moreover have "distinct (map slot_of ?rs) \<longleftrightarrow> distinct (map slot_of (am_regions m))"
    by (metis mset_map mset_sort mset_eq_imp_distinct_iff)
  moreover have "sorted (map slot_of ?rs)" by (rule sorted_slots) simp
  ultimately show ?thesis
    using fill_regions_ok [of ?rs 0 empty_slice rs'] fill_regions_ok_iff [of ?rs 0 empty_slice] fill True
    by (auto simp: aligned_inv_def placed_def)
next
  case False
  let ?e = "new_internal empty_slice 0 0 0 False"
  let ?rs = "sort_key vm_addr (am_regions m @ [?e])"
  have "aligned_inv m' \<and> mset (am_regions m') = mset (am_regions m) + mset [?e]" if "r = Ok ()"
    using assms False that
    by (auto simp: aligned_initialize_def Let_def aligned_inv_def first_misplaced_None split: option.splits)
  moreover have "sort (map slot_of ?rs) = sort (map slot_of (am_regions m) @ [0])"
    by (rule properties_for_sort) (simp_all add: slot_of_def new_internal_def region_index_of_def)
  moreover have "is_ok r \<longleftrightarrow> first_misplaced 0 ?rs = None"
    using assms False by (auto simp: aligned_initialize_def Let_def is_ok_def split: option.splits)
  ultimately show ?thesis
    using False filler_new first_misplaced_sorted [of ?rs] sort_with_zero [of "map slot_of (am_regions m)"]
    by (auto intro!: exI [of _ "[?e]"])
qed

theorem aligned_initialize_spec_witness:
  "is_ok (fst (aligned_initialize 0 \<lparr>am_regions = [new_internal 1 2 0x100000000 0 True], am_allow_memory_region_zero = True\<rparr>))"
  using aligned_initialize_spec [of 0 "\<lparr>am_regions = [new_internal 1 2 0x100000000 0 True], am_allow_memory_region_zero = True\<rparr>"]
  by (simp add: prod_eq_iff)

text \<open>
  C26. Looking an address up in an initialised unaligned mapping, through the cache or through the
  Eytzinger tree, gives what a plain scan of the sorted region list gives: the last region that starts
  at or below the address. The lookup keeps the mapping's invariant, so this holds for every later
  lookup too.
\<close>

theorem unaligned_find_region_spec:
  assumes "unaligned_initialize (unaligned_new_uninitialized regions) = (Ok (), m)"
  shows "um_regions m = sort_key vm_addr regions \<and> unaligned_inv m
    \<and> (\<forall>m1. unaligned_inv m1 \<longrightarrow>
        (\<exists>c. unaligned_find_region addr m1 = (reference_find (um_regions m1) addr, m1\<lparr>cache := c\<rparr>)
          \<and> unaligned_inv (m1\<lparr>cache := c\<rparr>)))"
  using unaligned_initialize_inv [OF _ _ _ assms] unaligned_find_region_reference
  by (auto simp: unaligned_new_uninitialized_def split: if_splits)

theorem unaligned_find_region_spec_witness:
  "\<exists>m. unaligned_initialize (unaligned_new_uninitialized [new_internal 0x1000 16 0x40 0 True, new_internal 0x2000 16 0x20 0 True])
     = (Ok (), m) \<and> unaligned_inv m"
  using unaligned_find_region_spec [of "[new_internal 0x1000 16 0x40 0 True, new_internal 0x2000 16 0x20 0 True]"]
  apply (simp add: unaligned_initialize_def unaligned_new_uninitialized_def new_internal_def vm_addr_range_def
    construct_eytzinger_order.simps saturating_add_def cong: option.case_cong_weak)
  done

text \<open>
  C30. When a region translates an address: the access is allowed by the region's write permission, the
  address is not below the region, it lies in a frame and not in a gap, and the access ends inside the
  region once the gaps below it are taken out. Only the first byte is tested against the gap.
\<close>

theorem vm_to_host_spec:
  assumes "vm_gap_shift r \<le> 63"
  shows "vm_to_host r access addr len = Some ha \<longleftrightarrow>
    (access = Store \<longrightarrow> writable r) \<and> vm_addr r \<le> addr
    \<and> (vm_gap_shift r = 63 \<or> even ((unat addr - unat (vm_addr r)) div 2 ^ unat (vm_gap_shift r)))
    \<and> host_offset r addr + unat len \<le> unat (region_len r)
    \<and> ha = saturating_add (host_addr r) (word_of_nat (host_offset r addr))"
  using assms by (rule vm_to_host_iff)

theorem vm_to_host_spec_witness:
  "vm_to_host (new_internal 0x10000 0x2000 0x200000000 0x1000 True) Store 0x200000ffc 8 = Some 0x10ffc"
  using vm_to_host_spec [of "new_internal 0x10000 0x2000 0x200000000 0x1000 True" Store "0x200000ffc" 8 "0x10ffc"]
  apply (simp add: new_internal_def host_offset_def gap_offset_def leading_zeros_def saturating_sub_def saturating_add_def upt_rec Let_def)
  done

theorem store_frame_witness:
  "\<exists>r \<in> set (get_regions sample_mapping). writable r \<and> host_addr r \<le> 0x2009
     \<and> unat (0x2009 :: u64) < unat (host_addr r) + unat (region_len r)"
  using store_frame [where m = sample_mapping and n = 2 and v = "0x1234" and addr = "0x100000008"
      and h = "\<lparr>mem = \<lambda>_. 0, world = ()\<rparr>" and ha = "0x2008" and m' = sample_mapping
      and h' = "\<lparr>mem = write_mem 0x2008 (le_bytes 2 0x1234) (\<lambda>_. 0), world = ()\<rparr>" and handler = default_access_violation_handler]
  by (simp add: translate_eval mapping_store_def monad_defs write_mem_def le_bytes_def handler_keeps_valid_def
      default_access_violation_handler_def)








end
