(* ===== verification/Sbpf_Verifier.thy ===== *)
theory Sbpf_Verifier
  imports Sbpf_Program
begin

text \<open>
  The bytecode verifier of \<^verbatim>\<open>src/sbpf/src/verifier.rs\<close>: the checks of a single instruction, the table of
  accepted opcodes with the check each of them gets, and the loop of \<open>RequisiteVerifier::verify\<close>. The
  big \<open>match\<close> of the source is a list of arms, tried from the first to the last; an arm has its opcode,
  its guard and what its body does. A program slot index is a \<open>nat\<close>; the slices a Rust program can hold
  have fewer than \<open>2 ^ 63\<close> bytes.

  The lemmas show that the verifier accepts exactly the programs in which every slot is well-formed on
  its own, that it never panics and that its last test can never fail.
\<close>

section \<open>Errors and checks\<close>

datatype verifier_error =
    ProgramLengthNotMultiple
  | NoProgram
  | DivisionByZero nat
  | UnsupportedLEBEArgument nat
  | LDDWCannotBeLast
  | IncompleteLDDW nat
  | JumpOutOfCode u64 nat
  | JumpToMiddleOfLDDW u64 nat
  | InvalidSourceRegister nat
  | CannotWriteR10 nat
  | InvalidDestinationRegister nat
  | UnknownOpCode u8 nat
  | ShiftWithOverflow u64 u64 nat
  | InvalidRegister nat
  | UnalignedImmediate nat

type_synonym verdict = "(unit, verifier_error failure) result"

definition check_prog_len :: "bytes \<Rightarrow> verdict" where
  "check_prog_len prog =
    (if length prog mod INSN_SIZE \<noteq> 0 then Err (Fail ProgramLengthNotMultiple)
     else if prog = [] then Err (Fail NoProgram)
     else Ok ())"

definition check_imm_nonzero :: "insn \<Rightarrow> nat \<Rightarrow> verdict" where
  "check_imm_nonzero i insn_ptr = (if imm i = 0 then Err (Fail (DivisionByZero insn_ptr)) else Ok ())"

definition check_imm_endian :: "insn \<Rightarrow> nat \<Rightarrow> verdict" where
  "check_imm_endian i insn_ptr =
    (if imm i = 16 \<or> imm i = 32 \<or> imm i = 64 then Ok ()
     else Err (Fail (UnsupportedLEBEArgument insn_ptr)))"

definition check_imm_aligned :: "insn \<Rightarrow> nat \<Rightarrow> u64 \<Rightarrow> verdict" where
  "check_imm_aligned i insn_ptr alignment =
    (if imm i AND (alignment - 1) = 0 then Ok () else Err (Fail (UnalignedImmediate insn_ptr)))"

definition check_load_dw :: "bytes \<Rightarrow> nat \<Rightarrow> verdict" where
  "check_load_dw prog insn_ptr =
    (if (insn_ptr + 1) * INSN_SIZE \<ge> length prog then Err (Fail LDDWCannotBeLast)
     else bindR (unwrap (get_insn prog (word_of_nat (insn_ptr + 1)))) (\<lambda>next_insn.
       if opc next_insn \<noteq> 0 then Err (Fail (IncompleteLDDW insn_ptr)) else Ok ()))"

definition check_jmp_offset :: "bytes \<Rightarrow> nat \<Rightarrow> nat \<Rightarrow> verdict" where
  "check_jmp_offset prog insn_ptr program_range =
    bindR (unwrap (get_insn prog (word_of_nat insn_ptr))) (\<lambda>i.
      let dst_insn_ptr = int insn_ptr + 1 + sint (off i) in
      if dst_insn_ptr < 0 \<or> \<not> nat dst_insn_ptr < program_range
      then Err (Fail (JumpOutOfCode (word_of_int dst_insn_ptr) insn_ptr))
      else bindR (unwrap (get_insn prog (word_of_int dst_insn_ptr))) (\<lambda>dst_insn.
        if opc dst_insn = 0 then Err (Fail (JumpToMiddleOfLDDW (word_of_int dst_insn_ptr) insn_ptr))
        else Ok ()))"

definition check_registers :: "insn \<Rightarrow> bool \<Rightarrow> nat \<Rightarrow> sbpf_version \<Rightarrow> verdict" where
  "check_registers i store insn_ptr v =
    (if src i > 10 then Err (Fail (InvalidSourceRegister insn_ptr))
     else if dst i \<le> 9 \<or> dst i = 10 \<and> store then Ok ()
     else if dst i = 10 \<and> manual_stack_frame_bump v \<and> opc i = ADD64_IMM then Ok ()
     else if dst i = 10 then Err (Fail (CannotWriteR10 insn_ptr))
     else Err (Fail (InvalidDestinationRegister insn_ptr)))"

definition check_imm_shift :: "insn \<Rightarrow> nat \<Rightarrow> u64 \<Rightarrow> verdict" where
  "check_imm_shift i insn_ptr imm_bits =
    (if sint (imm i) < 0 \<or> imm i \<ge> imm_bits then Err (Fail (ShiftWithOverflow (imm i) imm_bits insn_ptr))
     else Ok ())"

definition check_callx_register :: "insn \<Rightarrow> nat \<Rightarrow> sbpf_version \<Rightarrow> verdict" where
  "check_callx_register i insn_ptr v =
    (let reg = (if callx_uses_src_reg v then uint (src i)
                else if callx_uses_dst_reg v then uint (dst i)
                else sint (imm i))
     in if \<not> (0 \<le> reg \<and> reg < 10) then Err (Fail (InvalidRegister insn_ptr)) else Ok ())"

section \<open>The table of opcodes\<close>

datatype arm_body =
    Pass
  | IsStore
  | LoadDw
  | ImmNonzero
  | ImmEndian
  | ImmAligned u64
  | ImmShift u64
  | JmpOffset
  | CallxRegister

type_synonym arm = "u8 \<times> bool \<times> arm_body"

definition arms_ld :: "sbpf_version \<Rightarrow> arm list" where
  "arms_ld v =
    [(LD_DW_IMM, \<not> disable_lddw v, LoadDw)]"

definition arms_ldx :: "sbpf_version \<Rightarrow> arm list" where
  "arms_ldx v =
    [(LD_B_REG, \<not> move_memory_instruction_classes v, Pass),
     (LD_H_REG, \<not> move_memory_instruction_classes v, Pass),
     (LD_W_REG, \<not> move_memory_instruction_classes v, Pass),
     (LD_DW_REG, \<not> move_memory_instruction_classes v, Pass)]"

definition arms_st :: "sbpf_version \<Rightarrow> arm list" where
  "arms_st v =
    [(ST_B_IMM, \<not> move_memory_instruction_classes v, IsStore),
     (ST_H_IMM, \<not> move_memory_instruction_classes v, IsStore),
     (ST_W_IMM, \<not> move_memory_instruction_classes v, IsStore),
     (ST_DW_IMM, \<not> move_memory_instruction_classes v, IsStore)]"

definition arms_stx :: "sbpf_version \<Rightarrow> arm list" where
  "arms_stx v =
    [(ST_B_REG, \<not> move_memory_instruction_classes v, IsStore),
     (ST_H_REG, \<not> move_memory_instruction_classes v, IsStore),
     (ST_W_REG, \<not> move_memory_instruction_classes v, IsStore),
     (ST_DW_REG, \<not> move_memory_instruction_classes v, IsStore)]"

definition arms_alu32 :: "sbpf_version \<Rightarrow> arm list" where
  "arms_alu32 v =
    [(ADD32_IMM, True, Pass),
     (ADD32_REG, True, Pass),
     (SUB32_IMM, True, Pass),
     (SUB32_REG, True, Pass),
     (MUL32_IMM, \<not> enable_pqr v, Pass),
     (MUL32_REG, \<not> enable_pqr v, Pass),
     (LD_1B_REG, move_memory_instruction_classes v, Pass),
     (DIV32_IMM, \<not> enable_pqr v, ImmNonzero),
     (DIV32_REG, \<not> enable_pqr v, Pass),
     (LD_2B_REG, move_memory_instruction_classes v, Pass),
     (OR32_IMM, True, Pass),
     (OR32_REG, True, Pass),
     (AND32_IMM, True, Pass),
     (AND32_REG, True, Pass),
     (LSH32_IMM, True, ImmShift 32),
     (LSH32_REG, True, Pass),
     (RSH32_IMM, True, ImmShift 32),
     (RSH32_REG, True, Pass),
     (NEG32, \<not> disable_neg v, Pass),
     (LD_4B_REG, move_memory_instruction_classes v, Pass),
     (MOD32_IMM, \<not> enable_pqr v, ImmNonzero),
     (MOD32_REG, \<not> enable_pqr v, Pass),
     (LD_8B_REG, move_memory_instruction_classes v, Pass),
     (XOR32_IMM, True, Pass),
     (XOR32_REG, True, Pass),
     (MOV32_IMM, True, Pass),
     (MOV32_REG, True, Pass),
     (ARSH32_IMM, True, ImmShift 32),
     (ARSH32_REG, True, Pass),
     (LE, \<not> disable_le v, ImmEndian),
     (BE, True, ImmEndian)]"

definition arms_alu64 :: "sbpf_version \<Rightarrow> insn \<Rightarrow> arm list" where
  "arms_alu64 v i =
    [(ADD64_IMM, dst i = word_of_nat FRAME_PTR_REG \<and> manual_stack_frame_bump v, ImmAligned 64),
     (ADD64_IMM, True, Pass),
     (ADD64_REG, True, Pass),
     (SUB64_IMM, True, Pass),
     (SUB64_REG, True, Pass),
     (MUL64_IMM, \<not> enable_pqr v, Pass),
     (ST_1B_IMM, move_memory_instruction_classes v, IsStore),
     (MUL64_REG, \<not> enable_pqr v, Pass),
     (ST_1B_REG, move_memory_instruction_classes v, IsStore),
     (DIV64_IMM, \<not> enable_pqr v, ImmNonzero),
     (ST_2B_IMM, move_memory_instruction_classes v, IsStore),
     (DIV64_REG, \<not> enable_pqr v, Pass),
     (ST_2B_REG, move_memory_instruction_classes v, IsStore),
     (OR64_IMM, True, Pass),
     (OR64_REG, True, Pass),
     (AND64_IMM, True, Pass),
     (AND64_REG, True, Pass),
     (LSH64_IMM, True, ImmShift 64),
     (LSH64_REG, True, Pass),
     (RSH64_IMM, True, ImmShift 64),
     (RSH64_REG, True, Pass),
     (ST_4B_IMM, move_memory_instruction_classes v, IsStore),
     (NEG64, \<not> disable_neg v, Pass),
     (ST_4B_REG, move_memory_instruction_classes v, IsStore),
     (MOD64_IMM, \<not> enable_pqr v, ImmNonzero),
     (ST_8B_IMM, move_memory_instruction_classes v, IsStore),
     (MOD64_REG, \<not> enable_pqr v, Pass),
     (ST_8B_REG, move_memory_instruction_classes v, IsStore),
     (XOR64_IMM, True, Pass),
     (XOR64_REG, True, Pass),
     (MOV64_IMM, True, Pass),
     (MOV64_REG, True, Pass),
     (ARSH64_IMM, True, ImmShift 64),
     (ARSH64_REG, True, Pass),
     (HOR64_IMM, disable_lddw v, Pass)]"

definition arms_pqr :: "sbpf_version \<Rightarrow> arm list" where
  "arms_pqr v =
    [(LMUL32_IMM, enable_pqr v, Pass),
     (LMUL32_REG, enable_pqr v, Pass),
     (LMUL64_IMM, enable_pqr v, Pass),
     (LMUL64_REG, enable_pqr v, Pass),
     (UHMUL64_IMM, enable_pqr v, Pass),
     (UHMUL64_REG, enable_pqr v, Pass),
     (SHMUL64_IMM, enable_pqr v, Pass),
     (SHMUL64_REG, enable_pqr v, Pass),
     (UDIV32_IMM, enable_pqr v, ImmNonzero),
     (UDIV32_REG, enable_pqr v, Pass),
     (UDIV64_IMM, enable_pqr v, ImmNonzero),
     (UDIV64_REG, enable_pqr v, Pass),
     (UREM32_IMM, enable_pqr v, ImmNonzero),
     (UREM32_REG, enable_pqr v, Pass),
     (UREM64_IMM, enable_pqr v, ImmNonzero),
     (UREM64_REG, enable_pqr v, Pass),
     (SDIV32_IMM, enable_pqr v, ImmNonzero),
     (SDIV32_REG, enable_pqr v, Pass),
     (SDIV64_IMM, enable_pqr v, ImmNonzero),
     (SDIV64_REG, enable_pqr v, Pass),
     (SREM32_IMM, enable_pqr v, ImmNonzero),
     (SREM32_REG, enable_pqr v, Pass),
     (SREM64_IMM, enable_pqr v, ImmNonzero),
     (SREM64_REG, enable_pqr v, Pass)]"

definition arms_jmp32 :: "sbpf_version \<Rightarrow> arm list" where
  "arms_jmp32 v =
    [(JEQ32_IMM, enable_jmp32 v, JmpOffset),
     (JEQ32_REG, enable_jmp32 v, JmpOffset),
     (JGT32_IMM, enable_jmp32 v, JmpOffset),
     (JGT32_REG, enable_jmp32 v, JmpOffset),
     (JGE32_IMM, enable_jmp32 v, JmpOffset),
     (JGE32_REG, enable_jmp32 v, JmpOffset),
     (JLT32_IMM, enable_jmp32 v, JmpOffset),
     (JLT32_REG, enable_jmp32 v, JmpOffset),
     (JLE32_IMM, enable_jmp32 v, JmpOffset),
     (JLE32_REG, enable_jmp32 v, JmpOffset),
     (JSET32_IMM, enable_jmp32 v, JmpOffset),
     (JSET32_REG, enable_jmp32 v, JmpOffset),
     (JNE32_IMM, enable_jmp32 v, JmpOffset),
     (JNE32_REG, enable_jmp32 v, JmpOffset),
     (JSGT32_IMM, enable_jmp32 v, JmpOffset),
     (JSGT32_REG, enable_jmp32 v, JmpOffset),
     (JSGE32_IMM, enable_jmp32 v, JmpOffset),
     (JSGE32_REG, enable_jmp32 v, JmpOffset),
     (JSLT32_IMM, enable_jmp32 v, JmpOffset),
     (JSLT32_REG, enable_jmp32 v, JmpOffset),
     (JSLE32_IMM, enable_jmp32 v, JmpOffset),
     (JSLE32_REG, enable_jmp32 v, JmpOffset)]"

definition arms_jmp64 :: "sbpf_version \<Rightarrow> arm list" where
  "arms_jmp64 v =
    [(JA, True, JmpOffset),
     (JEQ64_IMM, True, JmpOffset),
     (JEQ64_REG, True, JmpOffset),
     (JGT64_IMM, True, JmpOffset),
     (JGT64_REG, True, JmpOffset),
     (JGE64_IMM, True, JmpOffset),
     (JGE64_REG, True, JmpOffset),
     (JLT64_IMM, True, JmpOffset),
     (JLT64_REG, True, JmpOffset),
     (JLE64_IMM, True, JmpOffset),
     (JLE64_REG, True, JmpOffset),
     (JSET64_IMM, True, JmpOffset),
     (JSET64_REG, True, JmpOffset),
     (JNE64_IMM, True, JmpOffset),
     (JNE64_REG, True, JmpOffset),
     (JSGT64_IMM, True, JmpOffset),
     (JSGT64_REG, True, JmpOffset),
     (JSGE64_IMM, True, JmpOffset),
     (JSGE64_REG, True, JmpOffset),
     (JSLT64_IMM, True, JmpOffset),
     (JSLT64_REG, True, JmpOffset),
     (JSLE64_IMM, True, JmpOffset),
     (JSLE64_REG, True, JmpOffset),
     (CALL_IMM, True, Pass),
     (CALL_REG, True, CallxRegister),
     (EXIT, True, Pass)]"

definition verify_arms :: "sbpf_version \<Rightarrow> insn \<Rightarrow> arm list" where
  "verify_arms v i = arms_ld v @ arms_ldx v @ arms_st v @ arms_stx v @ arms_alu32 v @ arms_alu64 v i
    @ arms_pqr v @ arms_jmp32 v @ arms_jmp64 v"

section \<open>The verifier\<close>

text \<open>The body of an arm gives the instruction pointer after it and the \<open>store\<close> flag.\<close>

fun run_arm :: "bytes \<Rightarrow> sbpf_version \<Rightarrow> nat \<Rightarrow> insn \<Rightarrow> nat \<Rightarrow> arm_body
    \<Rightarrow> (nat \<times> bool, verifier_error failure) result" where
  "run_arm prog v program_range i insn_ptr Pass = Ok (insn_ptr, False)"
| "run_arm prog v program_range i insn_ptr IsStore = Ok (insn_ptr, True)"
| "run_arm prog v program_range i insn_ptr LoadDw =
    bindR (check_load_dw prog insn_ptr) (\<lambda>_. Ok (insn_ptr + 1, False))"
| "run_arm prog v program_range i insn_ptr ImmNonzero =
    bindR (check_imm_nonzero i insn_ptr) (\<lambda>_. Ok (insn_ptr, False))"
| "run_arm prog v program_range i insn_ptr ImmEndian =
    bindR (check_imm_endian i insn_ptr) (\<lambda>_. Ok (insn_ptr, False))"
| "run_arm prog v program_range i insn_ptr (ImmAligned alignment) =
    bindR (check_imm_aligned i insn_ptr alignment) (\<lambda>_. Ok (insn_ptr, False))"
| "run_arm prog v program_range i insn_ptr (ImmShift imm_bits) =
    bindR (check_imm_shift i insn_ptr imm_bits) (\<lambda>_. Ok (insn_ptr, False))"
| "run_arm prog v program_range i insn_ptr JmpOffset =
    bindR (check_jmp_offset prog insn_ptr program_range) (\<lambda>_. Ok (insn_ptr, False))"
| "run_arm prog v program_range i insn_ptr CallxRegister =
    bindR (check_callx_register i insn_ptr v) (\<lambda>_. Ok (insn_ptr, False))"

definition verify_insn :: "bytes \<Rightarrow> sbpf_version \<Rightarrow> nat \<Rightarrow> nat \<Rightarrow> (nat, verifier_error failure) result" where
  "verify_insn prog v program_range insn_ptr =
    bindR (unwrap (get_insn prog (word_of_nat insn_ptr))) (\<lambda>i.
      case select_arm (opc i) (verify_arms v i) of
        None \<Rightarrow> Err (Fail (UnknownOpCode (opc i) insn_ptr))
      | Some body \<Rightarrow>
          bindR (run_arm prog v program_range i insn_ptr body) (\<lambda>(insn_ptr', store).
            bindR (check_registers i store insn_ptr' v) (\<lambda>_. Ok (insn_ptr' + 1))))"

lemma run_arm_next: "run_arm prog v n i p body = Ok (p', store) \<Longrightarrow> p \<le> p'"
  by (cases body) (auto simp: bindR_eq_Ok_iff)

lemma verify_insn_next: "verify_insn prog v n p = Ok p' \<Longrightarrow> p < p'"
  by (auto simp: verify_insn_def bindR_eq_Ok_iff less_Suc_eq_le dest!: run_arm_next split: option.splits)

function verify_loop :: "bytes \<Rightarrow> sbpf_version \<Rightarrow> nat \<Rightarrow> nat \<Rightarrow> (nat, verifier_error failure) result" where
  "verify_loop prog v program_range insn_ptr =
    (if (insn_ptr + 1) * INSN_SIZE \<le> length prog then
       (case verify_insn prog v program_range insn_ptr of
          Err e \<Rightarrow> Err e
        | Ok next \<Rightarrow> verify_loop prog v program_range next)
     else Ok insn_ptr)"
  by pat_completeness auto
termination
  by (relation "measure (\<lambda>(prog, _, _, p). Suc (length prog) - p)")
    (auto dest!: verify_insn_next simp: INSN_SIZE_def)

declare verify_loop.simps [simp del]

definition verify :: "bytes \<Rightarrow> config \<Rightarrow> sbpf_version \<Rightarrow> verdict" where
  "verify prog conf v =
    bindR (check_prog_len prog) (\<lambda>_.
      let program_range = length prog div INSN_SIZE in
      bindR (verify_loop prog v program_range 0) (\<lambda>insn_ptr.
        if insn_ptr \<noteq> length prog div INSN_SIZE
        then Err (Fail (JumpOutOfCode (word_of_nat insn_ptr) insn_ptr))
        else Ok ()))"

section \<open>Well-formed slots\<close>

text \<open>
  The reference the verifier is compared with: what each class of instructions requires of an
  instruction, stated on the opcode bits, without a scan of the program.
\<close>

definition opcode_at :: "bytes \<Rightarrow> nat \<Rightarrow> u8" where
  "opcode_at prog p = prog ! (INSN_SIZE * p)"

definition is_lddw :: "sbpf_version \<Rightarrow> u8 \<Rightarrow> bool" where
  "is_lddw v c \<longleftrightarrow> c = LD_DW_IMM \<and> \<not> disable_lddw v"

definition is_store :: "sbpf_version \<Rightarrow> u8 \<Rightarrow> bool" where
  "is_store v c \<longleftrightarrow>
    (if move_memory_instruction_classes v
     then c AND BPF_CLS_MASK = BPF_ALU64_STORE \<and> c AND BPF_ALU_OP_MASK \<in> {BPF_1B, BPF_2B, BPF_4B, BPF_8B}
     else c AND BPF_CLS_MASK \<in> {BPF_ST, BPF_STX})"

definition is_jump :: "sbpf_version \<Rightarrow> u8 \<Rightarrow> bool" where
  "is_jump v c \<longleftrightarrow> (c AND BPF_CLS_MASK = BPF_JMP64 \<or> c AND BPF_CLS_MASK = BPF_JMP32 \<and> enable_jmp32 v)
    \<and> c \<notin> {CALL_IMM, CALL_REG, EXIT}"

definition divides_by_imm :: "sbpf_version \<Rightarrow> u8 \<Rightarrow> bool" where
  "divides_by_imm v c \<longleftrightarrow>
    (if enable_pqr v
     then c \<in> {UDIV32_IMM, UDIV64_IMM, UREM32_IMM, UREM64_IMM, SDIV32_IMM, SDIV64_IMM, SREM32_IMM, SREM64_IMM}
     else c \<in> {DIV32_IMM, DIV64_IMM, MOD32_IMM, MOD64_IMM})"

definition shift_width :: "u8 \<Rightarrow> u64 option" where
  "shift_width c = (if c \<in> {LSH32_IMM, RSH32_IMM, ARSH32_IMM} then Some 32
     else if c \<in> {LSH64_IMM, RSH64_IMM, ARSH64_IMM} then Some 64 else None)"

definition swaps_bytes :: "sbpf_version \<Rightarrow> u8 \<Rightarrow> bool" where
  "swaps_bytes v c \<longleftrightarrow> c = BE \<or> c = LE \<and> \<not> disable_le v"

definition bumps_frame :: "sbpf_version \<Rightarrow> insn \<Rightarrow> bool" where
  "bumps_frame v i \<longleftrightarrow> opc i = ADD64_IMM \<and> dst i = 10 \<and> manual_stack_frame_bump v"

definition expected_body :: "sbpf_version \<Rightarrow> insn \<Rightarrow> arm_body" where
  "expected_body v i =
    (if is_lddw v (opc i) then LoadDw
     else if is_store v (opc i) then IsStore
     else if is_jump v (opc i) then JmpOffset
     else if divides_by_imm v (opc i) then ImmNonzero
     else if swaps_bytes v (opc i) then ImmEndian
     else if opc i = CALL_REG then CallxRegister
     else if bumps_frame v i then ImmAligned 64
     else case shift_width (opc i) of Some w \<Rightarrow> ImmShift w | None \<Rightarrow> Pass)"

definition known_opcode :: "sbpf_version \<Rightarrow> insn \<Rightarrow> bool" where
  "known_opcode v i \<longleftrightarrow> select_arm (opc i) (verify_arms v i) \<noteq> None"

definition jump_target :: "nat \<Rightarrow> insn \<Rightarrow> int" where
  "jump_target p i = int p + 1 + sint (off i)"

definition callx_register :: "sbpf_version \<Rightarrow> insn \<Rightarrow> int" where
  "callx_register v i = (if callx_uses_src_reg v then uint (src i)
     else if callx_uses_dst_reg v then uint (dst i) else sint (imm i))"

definition insn_well_formed :: "bytes \<Rightarrow> sbpf_version \<Rightarrow> nat \<Rightarrow> insn \<Rightarrow> bool" where
  "insn_well_formed prog v p i \<longleftrightarrow>
     known_opcode v i
     \<and> src i \<le> 10
     \<and> (dst i \<le> 9 \<or> dst i = 10 \<and> (is_store v (opc i) \<or> bumps_frame v i))
     \<and> (is_lddw v (opc i) \<longrightarrow> Suc p < length prog div INSN_SIZE \<and> opcode_at prog (Suc p) = 0)
     \<and> (is_jump v (opc i) \<longrightarrow> 0 \<le> jump_target p i \<and> jump_target p i < int (length prog div INSN_SIZE)
          \<and> opcode_at prog (nat (jump_target p i)) \<noteq> 0)
     \<and> (divides_by_imm v (opc i) \<longrightarrow> imm i \<noteq> 0)
     \<and> (\<forall>w. shift_width (opc i) = Some w \<longrightarrow> imm i < w)
     \<and> (swaps_bytes v (opc i) \<longrightarrow> imm i = 16 \<or> imm i = 32 \<or> imm i = 64)
     \<and> (bumps_frame v i \<longrightarrow> imm i AND 63 = 0)
     \<and> (opc i = CALL_REG \<longrightarrow> 0 \<le> callx_register v i \<and> callx_register v i < 10)"

definition slot_well_formed :: "bytes \<Rightarrow> sbpf_version \<Rightarrow> nat \<Rightarrow> bool" where
  "slot_well_formed prog v p \<longleftrightarrow>
    (if opcode_at prog p = 0 then 0 < p \<and> is_lddw v (opcode_at prog (p - 1))
     else case get_insn prog (word_of_nat p) of
            None \<Rightarrow> False
          | Some i \<Rightarrow> insn_well_formed prog v p i)"

section \<open>The table and the classes agree\<close>

lemmas class_values = BPF_CLS_MASK_def BPF_ALU_OP_MASK_def BPF_ST_def BPF_STX_def BPF_JMP32_def BPF_JMP64_def BPF_ALU64_STORE_def BPF_1B_def BPF_2B_def BPF_4B_def BPF_8B_def

lemmas arms_defs = arms_ld_def arms_ldx_def arms_st_def arms_stx_def arms_alu32_def arms_alu64_def
  arms_pqr_def arms_jmp32_def arms_jmp64_def

lemmas insn_class_defs = is_lddw_def is_store_def is_jump_def divides_by_imm_def shift_width_def
  swaps_bytes_def bumps_frame_def

lemma arm_bodies:
  "list_all (\<lambda>(c, g, b). g \<longrightarrow> c \<noteq> ADD64_IMM \<longrightarrow> b = expected_body v (i\<lparr>opc := c\<rparr>)) (verify_arms v i)"
  by (cases v) (simp_all add: verify_arms_def arms_defs expected_body_def insn_class_defs class_values opcode_values version_gates)

lemma arm_opcodes_nonzero: "(c, g, b) \<in> set (verify_arms v i) \<Longrightarrow> c \<noteq> 0"
  by (auto simp: verify_arms_def arms_defs opcode_values)

lemma select_arm_ADD64_IMM:
  "opc i = ADD64_IMM \<Longrightarrow> select_arm (opc i) (verify_arms v i) = Some (expected_body v i)"
  by (cases v) (simp_all add: verify_arms_def arms_defs expected_body_def insn_class_defs class_values
      opcode_values version_gates layout_defs)

lemma select_arm_body:
  assumes "select_arm (opc i) (verify_arms v i) = Some b"
  shows "b = expected_body v i"
proof (cases "opc i = ADD64_IMM")
  case True
  then show ?thesis using assms select_arm_ADD64_IMM by simp
next
  case False
  then show ?thesis using select_armD [OF assms] arm_bodies [of v i] by (auto simp: list_all_iff)
qed

lemma known_opcode_nonzero: "known_opcode v i \<Longrightarrow> opc i \<noteq> 0"
  by (auto simp: known_opcode_def dest!: select_armD arm_opcodes_nonzero)

lemma get_insn_slot:
  assumes "length prog < 2 ^ 63" and "p < length prog div INSN_SIZE"
  shows "\<exists>i. get_insn prog (word_of_nat p) = Some i \<and> opc i = opcode_at prog p"
proof -
  have p: "unat (word_of_nat p :: u64) = p"
    using assms by (auto simp: unat_of_nat layout_defs)
  have "8 * (p + 1) \<le> length prog" using assms(2) by (simp add: layout_defs)
  then have "is_pc_in_program prog (word_of_nat p)"
    using p assms(1) by (simp add: is_pc_in_program_iff)
  then show ?thesis
    using get_insn_eq_unchecked [OF assms(1), of "word_of_nat p"] p by (auto simp: opcode_at_def layout_defs)
qed

lemma check_imm_shift_iff:
  assumes "w = 32 \<or> w = 64"
  shows "check_imm_shift i p w = Ok () \<longleftrightarrow> imm i < w"
proof -
  have "0 \<le> sint x" if "x < w" for x :: u64
  proof -
    have "unat x < 2 ^ 63" using that assms by (auto simp: word_less_nat_alt)
    then have "\<not> bit (unat x) 63" by (simp add: bit_iff_odd)
    then show ?thesis by (simp add: sint_uint signed_take_bit_eq_if_positive bit_simps)
  qed
  then have "sint (imm i) < 0 \<Longrightarrow> \<not> imm i < w" by force
  then show ?thesis by (auto simp: check_imm_shift_def not_le not_less)
qed

lemma classes_disjoint:
  "is_lddw v c \<Longrightarrow> \<not> is_store v c \<and> \<not> is_jump v c \<and> \<not> divides_by_imm v c \<and> \<not> swaps_bytes v c \<and> c \<noteq> CALL_REG
     \<and> c \<noteq> ADD64_IMM \<and> shift_width c = None"
  "is_store v c \<Longrightarrow> \<not> is_jump v c \<and> \<not> divides_by_imm v c \<and> \<not> swaps_bytes v c \<and> c \<noteq> CALL_REG
     \<and> c \<noteq> ADD64_IMM \<and> shift_width c = None"
  "is_jump v c \<Longrightarrow> \<not> divides_by_imm v c \<and> \<not> swaps_bytes v c \<and> c \<noteq> CALL_REG
     \<and> c \<noteq> ADD64_IMM \<and> shift_width c = None"
  "divides_by_imm v c \<Longrightarrow> \<not> swaps_bytes v c \<and> c \<noteq> CALL_REG \<and> c \<noteq> ADD64_IMM \<and> shift_width c = None"
  "swaps_bytes v c \<Longrightarrow> c \<noteq> CALL_REG \<and> c \<noteq> ADD64_IMM \<and> shift_width c = None"
  by (cases v; auto simp: insn_class_defs class_values opcode_values version_gates split: if_splits)+

lemma class_constants:
  "shift_width CALL_REG = None" "shift_width ADD64_IMM = None" "CALL_REG \<noteq> ADD64_IMM"
  by (simp_all add: shift_width_def opcode_values)

section \<open>The loop accepts well-formed programs\<close>

lemma check_load_dw_iff:
  assumes len: "length prog < 2 ^ 63"
    and whole: "8 dvd length prog"
  shows "check_load_dw prog p = Ok () \<longleftrightarrow>
    Suc p < length prog div INSN_SIZE \<and> opcode_at prog (Suc p) = 0"
proof (cases "Suc p < length prog div INSN_SIZE")
  case True
  then have "8 * Suc p < length prog" using whole by (auto simp: layout_defs elim: dvdE)
  moreover obtain i where "get_insn prog (word_of_nat (Suc p)) = Some i" "opc i = opcode_at prog (Suc p)"
    using get_insn_slot [OF len True] by blast
  ultimately show ?thesis
    using True by (simp add: check_load_dw_def layout_defs)
next
  case False
  then have "length prog \<le> 8 * Suc p" using whole by (auto simp: layout_defs elim: dvdE)
  with False show ?thesis by (simp add: check_load_dw_def layout_defs)
qed

lemma check_jmp_offset_iff:
  assumes len: "length prog < 2 ^ 63" and i: "get_insn prog (word_of_nat p) = Some i"
  shows "check_jmp_offset prog p (length prog div INSN_SIZE) = Ok () \<longleftrightarrow>
      0 \<le> jump_target p i \<and> jump_target p i < int (length prog div INSN_SIZE)
          \<and> opcode_at prog (nat (jump_target p i)) \<noteq> 0"
proof (cases "0 \<le> jump_target p i \<and> nat (jump_target p i) < length prog div INSN_SIZE")
  case True
  then have "(word_of_int (jump_target p i) :: u64) = word_of_nat (nat (jump_target p i))" by simp
  moreover obtain j where "get_insn prog (word_of_nat (nat (jump_target p i))) = Some j"
      "opc j = opcode_at prog (nat (jump_target p i))"
    using get_insn_slot [OF len, of "nat (jump_target p i)"] True by blast
  ultimately show ?thesis
    using True i by (simp add: check_jmp_offset_def Let_def flip: jump_target_def) linarith
next
  case False
  with i show ?thesis by (auto simp: check_jmp_offset_def Let_def simp flip: jump_target_def)
qed

lemma run_arm_expected:
  assumes len: "length prog < 2 ^ 63" and p: "p < length prog div INSN_SIZE"
    and whole: "8 dvd length prog" and i: "get_insn prog (word_of_nat p) = Some i"
    and known: "known_opcode v i"
  shows "(\<exists>store. run_arm prog v (length prog div INSN_SIZE) i p (expected_body v i) = Ok (p', store)
            \<and> check_registers i store p' v = Ok ())
    \<longleftrightarrow> insn_well_formed prog v p i \<and> p' = (if is_lddw v (opc i) then Suc p else p)"
proof -
  note lddw = check_load_dw_iff [OF len whole, of p]
  note jmp = check_jmp_offset_iff [OF len i]
  have regs: "check_registers i store p' v = Ok () \<longleftrightarrow>
      src i \<le> 10 \<and> (dst i \<le> 9 \<or> dst i = 10 \<and> (store \<or> bumps_frame v i))" for store p'
    by (auto simp: check_registers_def bumps_frame_def not_less not_le)
  have shift: "shift_width (opc i) = Some w \<Longrightarrow> check_imm_shift i p w = Ok () \<longleftrightarrow> imm i < w" for w
    by (rule check_imm_shift_iff) (auto simp: shift_width_def split: if_splits)
  note body = ex_bool_eq expected_body_def insn_well_formed_def bindR_eq_Ok_iff regs known lddw jmp shift
    check_imm_nonzero_def check_imm_endian_def check_callx_register_def callx_register_def
    check_imm_aligned_def
  consider "is_lddw v (opc i)" | "is_store v (opc i)" | "is_jump v (opc i)" | "divides_by_imm v (opc i)"
    | "swaps_bytes v (opc i)" | "opc i = CALL_REG" | "bumps_frame v i"
    | "\<not> is_lddw v (opc i)" "\<not> is_store v (opc i)" "\<not> is_jump v (opc i)" "\<not> divides_by_imm v (opc i)"
      "\<not> swaps_bytes v (opc i)" "opc i \<noteq> CALL_REG" "\<not> bumps_frame v i"
    by blast
  then show ?thesis
  proof cases
    case 1
    with classes_disjoint(1) [OF 1] show ?thesis by (simp add: body bumps_frame_def; blast?)
  next
    case 2
    with classes_disjoint(1) [of v "opc i"] classes_disjoint(2) [OF 2] show ?thesis
      by (simp add: body bumps_frame_def; blast?)
  next
    case 3
    with classes_disjoint(1,2) [of v "opc i"] classes_disjoint(3) [OF 3] show ?thesis
      by (simp add: body bumps_frame_def; blast?)
  next
    case 4
    with classes_disjoint(1-3) [of v "opc i"] classes_disjoint(4) [OF 4] show ?thesis
      by (simp add: body bumps_frame_def; blast?)
  next
    case 5
    with classes_disjoint(1-4) [of v "opc i"] classes_disjoint(5) [OF 5] show ?thesis
      by (simp add: body bumps_frame_def; blast?)
  next
    case 6
    with classes_disjoint [of v "opc i"] class_constants show ?thesis
      by (simp add: body bumps_frame_def Let_def; blast?)
  next
    case 7
    then have "opc i = ADD64_IMM" by (simp add: bumps_frame_def)
    with 7 classes_disjoint [of v "opc i"] class_constants show ?thesis by (simp add: body; blast?)
  next
    case 8
    then show ?thesis by (cases "shift_width (opc i)"; simp add: body; blast?)
  qed
qed

lemma verify_insn_iff:
  assumes len: "length prog < 2 ^ 63" and whole: "8 dvd length prog" and p: "p < length prog div INSN_SIZE"
    and i: "get_insn prog (word_of_nat p) = Some i"
  shows "verify_insn prog v (length prog div INSN_SIZE) p = Ok q
    \<longleftrightarrow> insn_well_formed prog v p i \<and> q = (if is_lddw v (opc i) then p + 2 else p + 1)"
proof (cases "select_arm (opc i) (verify_arms v i)")
  case None
  then show ?thesis using i by (simp add: verify_insn_def insn_well_formed_def known_opcode_def)
next
  case (Some b)
  then have known: "known_opcode v i" and b: "b = expected_body v i"
    by (auto simp: known_opcode_def select_arm_body)
  have "verify_insn prog v (length prog div INSN_SIZE) p = Ok q \<longleftrightarrow>
     (\<exists>p'. (\<exists>store. run_arm prog v (length prog div INSN_SIZE) i p (expected_body v i) = Ok (p', store)
            \<and> check_registers i store p' v = Ok ()) \<and> q = Suc p')"
    using i Some b by (auto simp: verify_insn_def bindR_eq_Ok_iff)
  then show ?thesis unfolding run_arm_expected [OF len p whole i known] by auto
qed

lemma verify_insn_zero:
  assumes "get_insn prog (word_of_nat p) = Some i" and "opc i = 0"
  shows "\<not> is_ok (verify_insn prog v n p)"
  using assms known_opcode_nonzero [of v i]
  by (cases "select_arm 0 (verify_arms v i)") (auto simp: verify_insn_def is_ok_def known_opcode_def)

lemma loop_guard_iff:
  assumes "8 dvd length prog"
  shows "(p + 1) * INSN_SIZE \<le> length prog \<longleftrightarrow> p < length prog div INSN_SIZE"
proof -
  obtain k where "length prog = 8 * k" using assms by (rule dvdE)
  then show ?thesis by (simp add: layout_defs) linarith
qed

lemma verify_loop_iff:
  assumes len: "length prog < 2 ^ 63" and whole: "8 dvd length prog"
    and p: "p \<le> length prog div INSN_SIZE"
    and start: "\<not> (0 < p \<and> is_lddw v (opcode_at prog (p - 1)))"
  shows "verify_loop prog v (length prog div INSN_SIZE) p = Ok q
    \<longleftrightarrow> (\<forall>r. p \<le> r \<and> r < length prog div INSN_SIZE \<longrightarrow> slot_well_formed prog v r)
      \<and> q = length prog div INSN_SIZE"
  using p start
proof (induction "length prog div INSN_SIZE - p" arbitrary: p rule: less_induct)
  case less
  let ?n = "length prog div INSN_SIZE"
  have loop: "(p + 1) * INSN_SIZE \<le> length prog \<longleftrightarrow> p < ?n"
    by (rule loop_guard_iff [OF whole])
  show ?case
  proof (cases "p < ?n")
    case False
    then have "p = ?n" using less.prems by simp
    then show ?thesis using loop False by (subst verify_loop.simps) auto
  next
    case True
    obtain i where i: "get_insn prog (word_of_nat p) = Some i" and opc: "opc i = opcode_at prog p"
      using get_insn_slot [OF len True] by blast
    let ?q = "if is_lddw v (opc i) then p + 2 else p + 1"
    show ?thesis
    proof (cases "insn_well_formed prog v p i")
      case False
      then have "\<not> slot_well_formed prog v p"
        using i less.prems opc by (simp add: slot_well_formed_def)
      moreover have "\<nexists>q. verify_insn prog v ?n p = Ok q"
        using verify_insn_iff [OF len whole True i] False by simp
      ultimately show ?thesis
        using loop True by (auto simp: verify_loop.simps [of _ _ _ p] split: result.splits)
    next
      case wf: True
      then have nz: "opc i \<noteq> 0" by (auto simp: insn_well_formed_def dest: known_opcode_nonzero)
      have here: "slot_well_formed prog v p" using i wf nz opc by (simp add: slot_well_formed_def)
      have "verify_insn prog v ?n p = Ok ?q" using verify_insn_iff [OF len whole True i] wf by blast
      then have step: "verify_loop prog v ?n p = verify_loop prog v ?n ?q"
        using loop True by (simp add: verify_loop.simps [of _ _ _ p])
      have second: "is_lddw v (opc i) \<Longrightarrow> Suc p < ?n \<and> opcode_at prog (Suc p) = 0"
        using wf by (simp add: insn_well_formed_def)
      then have pair: "is_lddw v (opc i) \<Longrightarrow> slot_well_formed prog v (Suc p)"
        using opc by (simp add: slot_well_formed_def)
      have cover: "p \<le> r \<longleftrightarrow> r = p \<or> is_lddw v (opc i) \<and> r = Suc p \<or> ?q \<le> r" for r by auto
      have range: "(\<forall>r. p \<le> r \<and> r < ?n \<longrightarrow> slot_well_formed prog v r)
          \<longleftrightarrow> (\<forall>r. ?q \<le> r \<and> r < ?n \<longrightarrow> slot_well_formed prog v r)"
        unfolding cover using here pair by blast
      have zero: "\<not> is_lddw v 0" by (simp add: is_lddw_def opcode_values)
      have start': "\<not> (0 < ?q \<and> is_lddw v (opcode_at prog (?q - 1)))"
        using second zero opc by (cases "is_lddw v (opc i)") simp_all
      have bound: "?q \<le> ?n" using second True by (cases "is_lddw v (opc i)") simp_all
      have "?n - ?q < ?n - p" using True by (cases "is_lddw v (opc i)") simp_all
      from less.hyps [OF this bound start'] show ?thesis unfolding step range .
    qed
  qed
qed

section \<open>Errors and properties\<close>

lemmas verify_eval = verify_def check_prog_len_def verify_loop.simps verify_insn_def get_insn_def
  get_insn_unchecked_def is_pc_in_program_def insn_offset_def saturating_mul_def saturating_add_def
  read_i16_def read_i32_def Let_def verify_arms_def arms_defs opcode_values layout_defs
  check_load_dw_def check_registers_def check_jmp_offset_def

lemma check_load_dw_error:
  assumes len: "length prog < 2 ^ 63" and whole: "8 dvd length prog"
    and err: "check_load_dw prog p = Err e"
  shows "e = Fail LDDWCannotBeLast \<or> e = Fail (IncompleteLDDW p)"
proof (cases "(p + 1) * INSN_SIZE < length prog")
  case True
  then have "p + 1 < length prog div INSN_SIZE"
    using whole by (auto simp: layout_defs elim!: dvdE)
  then obtain i where "get_insn prog (word_of_nat (p + 1)) = Some i" using get_insn_slot [OF len] by blast
  then show ?thesis using err True by (simp add: check_load_dw_def split: if_splits)
next
  case False
  then show ?thesis using err by (simp add: check_load_dw_def)
qed

lemma check_jmp_offset_error:
  assumes len: "length prog < 2 ^ 63" and i: "get_insn prog (word_of_nat p) = Some i"
    and err: "check_jmp_offset prog p (length prog div INSN_SIZE) = Err e"
  shows "\<exists>t. e = Fail (JumpOutOfCode t p) \<or> e = Fail (JumpToMiddleOfLDDW t p)"
proof (cases "jump_target p i < 0 \<or> \<not> nat (jump_target p i) < length prog div INSN_SIZE")
  case True
  then show ?thesis using err i by (simp add: check_jmp_offset_def Let_def flip: jump_target_def) blast
next
  case False
  then have "(word_of_int (jump_target p i) :: u64) = word_of_nat (nat (jump_target p i))" by simp
  moreover obtain j where "get_insn prog (word_of_nat (nat (jump_target p i))) = Some j"
    using get_insn_slot [OF len, of "nat (jump_target p i)"] False by blast
  ultimately have "check_jmp_offset prog p (length prog div INSN_SIZE) =
      (if opc j = 0 then Err (Fail (JumpToMiddleOfLDDW (word_of_int (jump_target p i)) p)) else Ok ())"
    using False i by (simp add: check_jmp_offset_def Let_def flip: jump_target_def)
  with err show ?thesis by (cases "opc j = 0") auto
qed

lemma run_arm_error:
  assumes len: "length prog < 2 ^ 63" and whole: "8 dvd length prog"
    and i: "get_insn prog (word_of_nat p) = Some i"
    and err: "run_arm prog v (length prog div INSN_SIZE) i p body = Err e"
  shows "e \<noteq> Panic \<and> (\<forall>t q. e = Fail (JumpOutOfCode t q) \<longrightarrow> q = p)"
proof (cases body)
  case LoadDw
  then have "check_load_dw prog p = Err e" using err by (simp add: bindR_eq_Err_iff)
  from check_load_dw_error [OF len whole this] show ?thesis by auto
next
  case JmpOffset
  then have "check_jmp_offset prog p (length prog div INSN_SIZE) = Err e"
    using err by (simp add: bindR_eq_Err_iff)
  from check_jmp_offset_error [OF len i this] show ?thesis by auto
qed (use err in \<open>auto simp: bindR_eq_Err_iff check_imm_nonzero_def check_imm_endian_def
    check_imm_aligned_def check_imm_shift_def check_callx_register_def Let_def split: if_splits\<close>)

lemma verify_insn_error:
  assumes len: "length prog < 2 ^ 63" and whole: "8 dvd length prog" and p: "p < length prog div INSN_SIZE"
    and err: "verify_insn prog v (length prog div INSN_SIZE) p = Err e"
  shows "e \<noteq> Panic \<and> (\<forall>t q. e = Fail (JumpOutOfCode t q) \<longrightarrow> q = p)"
proof -
  obtain i where i: "get_insn prog (word_of_nat p) = Some i" using get_insn_slot [OF len p] by blast
  show ?thesis
  proof (cases "select_arm (opc i) (verify_arms v i)")
    case None
    then show ?thesis using err i by (auto simp: verify_insn_def)
  next
    case (Some body)
    then consider "run_arm prog v (length prog div INSN_SIZE) i p body = Err e"
      | p' store where "check_registers i store p' v = Err e"
      using err i by (auto simp: verify_insn_def bindR_eq_Err_iff)
    then show ?thesis
      by cases (use run_arm_error [OF len whole i] in \<open>auto simp: check_registers_def split: if_splits\<close>)
  qed
qed

lemma verify_loop_error:
  assumes len: "length prog < 2 ^ 63" and whole: "8 dvd length prog"
    and err: "verify_loop prog v (length prog div INSN_SIZE) p = Err e"
  shows "e \<noteq> Panic \<and> (\<forall>t q. e = Fail (JumpOutOfCode t q) \<longrightarrow> q < length prog div INSN_SIZE)"
  using err
proof (induction "Suc (length prog) - p" arbitrary: p rule: less_induct)
  case less
  let ?n = "length prog div INSN_SIZE"
  have p: "p < ?n"
    using less.prems loop_guard_iff [OF whole, of p] by (subst (asm) verify_loop.simps) (simp split: if_splits)
  then have loop: "verify_loop prog v ?n p = (case verify_insn prog v ?n p of
      Err e \<Rightarrow> Err e | Ok q \<Rightarrow> verify_loop prog v ?n q)"
    using loop_guard_iff [OF whole, of p] by (subst verify_loop.simps) simp
  show ?case
  proof (cases "verify_insn prog v ?n p")
    case (Ok q)
    then have "p < q" by (rule verify_insn_next)
    moreover have "p < Suc (length prog)" using p by (simp add: layout_defs)
    ultimately show ?thesis using less.hyps [of q] less.prems loop Ok by simp
  next
    case (Err e')
    then show ?thesis using verify_insn_error [OF len whole p] less.prems loop p by auto
  qed
qed

lemma verify_accepts:
  assumes "length prog < 2 ^ 63"
  shows "verify prog conf v = Ok () \<longleftrightarrow>
    check_prog_len prog = Ok () \<and> (\<forall>p < length prog div INSN_SIZE. slot_well_formed prog v p)"
proof (cases "check_prog_len prog = Ok ()")
  case True
  then have whole: "8 dvd length prog"
    by (auto simp: check_prog_len_def layout_defs dvd_eq_mod_eq_0 split: if_splits)
  have "verify prog conf v = Ok () \<longleftrightarrow>
      verify_loop prog v (length prog div INSN_SIZE) 0 = Ok (length prog div INSN_SIZE)"
    using True by (auto simp: verify_def bindR_eq_Ok_iff split: if_splits)
  then show ?thesis using verify_loop_iff [OF assms whole, of 0] True by simp
qed (auto simp: verify_def bindR_eq_Ok_iff)

text \<open>
  C24. The verifier accepts a program exactly when it is non-empty, a whole number of slots long, and
  every slot on its own is well-formed for the SBPF version: a known opcode with registers in range, a
  jump that lands on the start of an instruction inside the program, a non-zero immediate divisor, an
  immediate shift below the width, and so on, or the second half of a wide load right after its first half.
\<close>
theorem verify_iff:
  assumes "length prog < 2 ^ 63"
  shows "verify prog conf v = Ok () \<longleftrightarrow>
    prog \<noteq> [] \<and> length prog mod INSN_SIZE = 0
    \<and> (\<forall>p < length prog div INSN_SIZE. slot_well_formed prog v p)"
  using verify_accepts [OF assms] by (auto simp: check_prog_len_def split: if_splits)

theorem verify_iff_witness:
  "slot_well_formed [0x18, 1, 0, 0, 5, 0, 0, 0, 0, 0, 0, 0, 7, 0, 0, 0, 0x95, 0, 0, 0, 0, 0, 0, 0] V0 0
    \<and> slot_well_formed [0x18, 1, 0, 0, 5, 0, 0, 0, 0, 0, 0, 0, 7, 0, 0, 0, 0x95, 0, 0, 0, 0, 0, 0, 0] V0 1
    \<and> slot_well_formed [0x18, 1, 0, 0, 5, 0, 0, 0, 0, 0, 0, 0, 7, 0, 0, 0, 0x95, 0, 0, 0, 0, 0, 0, 0] V0 2"
proof -
  let ?prog = "[0x18, 1, 0, 0, 5, 0, 0, 0, 0, 0, 0, 0, 7, 0, 0, 0, 0x95, 0, 0, 0, 0, 0, 0, 0] :: bytes"
  have "verify ?prog default_config V0 = Ok ()"
    by (simp add: verify_eval version_gates cong: bindR_cong_weak option.case_cong_weak result.case_cong_weak)
  then have "\<forall>p < 3. slot_well_formed ?prog V0 p"
    using verify_iff [of ?prog default_config V0] by (simp add: layout_defs)
  moreover have "(0 :: nat) < 3" "(1 :: nat) < 3" "(2 :: nat) < 3" by simp_all
  ultimately show ?thesis by blast
qed

text \<open>
  C31. The verifier never panics, whatever bytes it is given, and a jump out of the code is only ever
  reported for an instruction of the program: the test behind the loop never fails.
\<close>
theorem verify_no_panic:
  assumes "length prog < 2 ^ 63"
  shows "verify prog conf v \<noteq> Err Panic
    \<and> (\<forall>t p. verify prog conf v = Err (Fail (JumpOutOfCode t p)) \<longrightarrow> p < length prog div INSN_SIZE)"
proof (cases "check_prog_len prog = Ok ()")
  case True
  then have whole: "8 dvd length prog"
    by (auto simp: check_prog_len_def layout_defs dvd_eq_mod_eq_0 split: if_splits)
  show ?thesis
  proof (cases "verify_loop prog v (length prog div INSN_SIZE) 0")
    case (Ok q)
    then have "q = length prog div INSN_SIZE" using verify_loop_iff [OF assms whole, of 0] by simp
    then show ?thesis using True Ok by (simp add: verify_def)
  next
    case (Err e)
    then show ?thesis using True verify_loop_error [OF assms whole] by (auto simp: verify_def)
  qed
next
  case False
  then show ?thesis by (auto simp: verify_def check_prog_len_def)
qed

theorem verify_no_panic_witness:
  "verify [0x05, 0, 0xff, 0x7f, 0, 0, 0, 0] default_config V0 = Err (Fail (JumpOutOfCode 0x8000 0)) 
    \<and> 0 < length [0x05, 0, 0xff, 0x7f, 0, 0, 0, 0 :: u8] div INSN_SIZE"
  using verify_no_panic [of "[0x05, 0, 0xff, 0x7f, 0, 0, 0, 0]" default_config V0]
  by (simp add: verify_eval version_gates cong: bindR_cong_weak option.case_cong_weak result.case_cong_weak)

end
