(* ===== verification/Sbpf_Interpreter.thy ===== *)
theory Sbpf_Interpreter
  imports Sbpf_Memory
begin

text \<open>
  The interpreter of \<^verbatim>\<open>src/sbpf/src/interpreter.rs\<close> and the machine it drives, \<open>EbpfVm\<close> of \<^verbatim>\<open>vm.rs\<close>. One call of
  \<open>step\<close> executes one instruction. The result \<open>Ok ()\<close> stands for the return value \<open>true\<close>, \<open>Err (Fail ())\<close>
  for \<open>false\<close> (the program has ended, with a result or an error in \<open>program_result\<close>), and \<open>Err Panic\<close>
  for a panic: an index out of range or a division by zero. Arithmetic on the meter and the program
  counter wraps around, as it does in a release build, and the host is little-endian.

  The context object of the machine is the world \<open>'w\<close> of the host memory. The trait \<open>ContextObject\<close>, the
  access-violation handler and the bodies of the syscalls are the parameters of \<open>'w environment\<close> and of
  the loader's function registry.
\<close>

section \<open>State\<close>

type_synonym 'w space = "memory_mapping \<times> 'w host"

type_synonym 'w syscall = "u64 \<Rightarrow> u64 \<Rightarrow> u64 \<Rightarrow> u64 \<Rightarrow> u64 \<Rightarrow> ('w space, u64, string) sm"

record 'w environment =
  consume :: "u64 \<Rightarrow> 'w \<Rightarrow> 'w"
  get_remaining :: "'w \<Rightarrow> u64"
  violation_handler :: "'w access_violation_handler"

record 'w executable =
  text_bytes :: bytes
  text_vm_addr :: u64
  exec_version :: sbpf_version
  exec_config :: config
  exec_functions :: "u64 function_registry"
  exec_loader :: "'w syscall function_registry"
  entrypoint :: u64

record call_frame =
  caller_saved_registers :: "u64 list"
  frame_pointer :: u64
  target_pc :: u64

record 'w vm =
  call_depth :: u64
  previous_instruction_meter :: u64
  due_insn_count :: u64
  registers :: "u64 list"
  program_result :: program_result
  register_trace :: "u64 list list"
  space :: "'w space"
  call_frames :: "call_frame list"
  reg :: "u64 list"

type_synonym ('w, 'a) run = "('w vm, 'a, unit failure) sm"

definition throw_error :: "ebpf_error \<Rightarrow> ('w, 'a) run" where
  "throw_error e = seqM (modifyM (\<lambda>s. s\<lparr>registers := (registers s)[11 := reg s ! 11], program_result := Err e\<rparr>))
     (throw (Fail ()))"

definition panic :: "('w, 'a) run" where
  "panic = throw Panic"

definition get_reg :: "nat \<Rightarrow> ('w, u64) run" where
  "get_reg n s = (if n < length (reg s) then (Ok (reg s ! n), s) else (Err Panic, s))"

definition set_reg :: "nat \<Rightarrow> u64 \<Rightarrow> ('w, unit) run" where
  "set_reg n x s = (if n < length (reg s) then (Ok (), s\<lparr>reg := (reg s)[n := x]\<rparr>) else (Err Panic, s))"

text \<open>\<open>translate_memory_access\<close>: an error of the access ends the program.\<close>

definition translate_memory_access :: "('w space, u64, ebpf_error failure) sm \<Rightarrow> ('w, u64) run" where
  "translate_memory_access access s =
    (case access (space s) of
       (Ok x, sp) \<Rightarrow> (Ok x, s\<lparr>space := sp\<rparr>)
     | (Err Panic, sp) \<Rightarrow> (Err Panic, s\<lparr>space := sp\<rparr>)
     | (Err (Fail e), sp) \<Rightarrow> throw_error e (s\<lparr>space := sp\<rparr>))"

section \<open>Calls and syscalls\<close>

definition push_frame :: "'w executable \<Rightarrow> ('w, unit) run" where
  "push_frame ex s =
    (let conf = exec_config ex; d = unat (call_depth s) in
     if d < length (call_frames s) then
       (let frame = \<lparr>caller_saved_registers = take SCRATCH_REGS (drop FIRST_SCRATCH_REG (reg s)),
                     frame_pointer = reg s ! FRAME_PTR_REG,
                     target_pc = reg s ! 11 + 1\<rparr>;
            s = s\<lparr>call_frames := (call_frames s)[d := frame], call_depth := call_depth s + 1\<rparr>
        in if unat (call_depth s) = max_call_depth conf then throw_error CallDepthExceeded s
           else if \<not> manual_stack_frame_bump (exec_version ex) then
             (let num_frames = (if stack_frame_gaps (exec_version ex) \<and> enable_stack_frame_gaps conf then 2 else 1);
                  frame_size = word_of_nat (stack_frame_size conf * num_frames)
              in (Ok (), s\<lparr>reg := (reg s)[FRAME_PTR_REG := reg s ! FRAME_PTR_REG + frame_size]\<rparr>))
           else (Ok (), s))
     else (Err Panic, s))"

text \<open>The wrapper \<open>BuiltinFunctionDefinition::vm\<close> around the body of a syscall.\<close>

definition syscall_vm :: "'w environment \<Rightarrow> config \<Rightarrow> 'w syscall \<Rightarrow> 'w vm \<Rightarrow> 'w vm" where
  "syscall_vm env conf rust s =
    (let (m, h) = space s;
         used_cus = previous_instruction_meter s - due_insn_count s;
         h = (if enable_instruction_meter conf then h\<lparr>world := consume env used_cus (world h)\<rparr> else h);
         r = registers s;
         (res, sp) = rust (r ! 1) (r ! 2) (r ! 3) (r ! 4) (r ! 5) (m, h);
         converted_result = (case res of Ok x \<Rightarrow> Ok x | Err e \<Rightarrow> Err (SyscallError e));
         s = s\<lparr>space := sp, program_result := converted_result\<rparr>
     in if enable_instruction_meter conf
        then s\<lparr>previous_instruction_meter := get_remaining env (world (snd sp))\<rparr> else s)"

definition dispatch_syscall :: "'w environment \<Rightarrow> 'w executable \<Rightarrow> 'w syscall \<Rightarrow> 'w vm \<Rightarrow> 'w vm" where
  "dispatch_syscall env ex rust s =
    (let s = s\<lparr>due_insn_count := previous_instruction_meter s - due_insn_count s\<rparr>;
         s = s\<lparr>registers := take 6 (reg s) @ drop 6 (registers s)\<rparr>;
         s = syscall_vm env (exec_config ex) rust s
     in s\<lparr>due_insn_count := 0\<rparr>)"

definition sign_extension :: "sbpf_version \<Rightarrow> u32 \<Rightarrow> u64" where
  "sign_extension v x = (if explicit_sign_extension_of_results v then ucast x else scast x)"

section \<open>The bodies of the arms\<close>

text \<open>
  An arm gets the program counter of the following instruction and gives the one to go on with.
\<close>

type_synonym 'w arm_run = "u64 \<Rightarrow> ('w, u64) run"

type_synonym 'w step_arm = "u8 \<times> bool \<times> 'w arm_run"

definition set_dst :: "insn \<Rightarrow> u64 \<Rightarrow> 'w arm_run" where
  "set_dst i x next_pc = seqM (set_reg (unat (dst i)) x) (ret next_pc)"

definition alu :: "insn \<Rightarrow> (u64 \<Rightarrow> u64) \<Rightarrow> 'w arm_run" where
  "alu i f next_pc = bindM (get_reg (unat (dst i))) (\<lambda>d. set_dst i (f d) next_pc)"

definition alu_imm :: "insn \<Rightarrow> (u64 \<Rightarrow> u64 \<Rightarrow> u64) \<Rightarrow> 'w arm_run" where
  "alu_imm i f = alu i (\<lambda>d. f d (imm i))"

definition alu_reg :: "insn \<Rightarrow> (u64 \<Rightarrow> u64 \<Rightarrow> u64) \<Rightarrow> 'w arm_run" where
  "alu_reg i f next_pc = bindM (get_reg (unat (src i))) (\<lambda>s. alu i (\<lambda>d. f d s) next_pc)"

definition mov_imm :: "insn \<Rightarrow> (u64 \<Rightarrow> u64) \<Rightarrow> 'w arm_run" where
  "mov_imm i f next_pc = set_dst i (f (imm i)) next_pc"

definition mov_reg :: "insn \<Rightarrow> (u64 \<Rightarrow> u64) \<Rightarrow> 'w arm_run" where
  "mov_reg i f next_pc = bindM (get_reg (unat (src i))) (\<lambda>s. set_dst i (f s) next_pc)"

text \<open>Division by an immediate panics on zero; division by a register reports it.\<close>

definition div_imm :: "insn \<Rightarrow> (u64 \<Rightarrow> bool) \<Rightarrow> (u64 \<Rightarrow> u64 \<Rightarrow> u64) \<Rightarrow> 'w arm_run" where
  "div_imm i is_zero f next_pc = (if is_zero (imm i) then panic else alu_imm i f next_pc)"

definition div_reg :: "insn \<Rightarrow> (u64 \<Rightarrow> bool) \<Rightarrow> (u64 \<Rightarrow> u64 \<Rightarrow> u64) \<Rightarrow> 'w arm_run" where
  "div_reg i is_zero f next_pc =
    bindM (get_reg (unat (src i))) (\<lambda>s. if is_zero s then throw_error DivideByZero else alu_reg i f next_pc)"

definition sdiv_imm :: "insn \<Rightarrow> (u64 \<Rightarrow> bool) \<Rightarrow> (u64 \<Rightarrow> u64 \<Rightarrow> bool) \<Rightarrow> (u64 \<Rightarrow> u64 \<Rightarrow> u64) \<Rightarrow> 'w arm_run" where
  "sdiv_imm i is_zero overflows f next_pc =
    bindM (get_reg (unat (dst i))) (\<lambda>d.
      if overflows d (imm i) then throw_error DivideOverflow else div_imm i is_zero f next_pc)"

definition sdiv_reg :: "insn \<Rightarrow> (u64 \<Rightarrow> bool) \<Rightarrow> (u64 \<Rightarrow> u64 \<Rightarrow> bool) \<Rightarrow> (u64 \<Rightarrow> u64 \<Rightarrow> u64) \<Rightarrow> 'w arm_run" where
  "sdiv_reg i is_zero overflows f next_pc =
    bindM (get_reg (unat (src i))) (\<lambda>s.
      if is_zero s then throw_error DivideByZero
      else bindM (get_reg (unat (dst i))) (\<lambda>d.
        if overflows d s then throw_error DivideOverflow else alu_reg i f next_pc))"

definition zero32 :: "u64 \<Rightarrow> bool" where
  "zero32 x \<longleftrightarrow> (ucast x :: u32) = 0"

definition zero64 :: "u64 \<Rightarrow> bool" where
  "zero64 x \<longleftrightarrow> x = 0"

definition overflows32 :: "u64 \<Rightarrow> u64 \<Rightarrow> bool" where
  "overflows32 d s \<longleftrightarrow> sint (ucast d :: u32) = - (2 ^ 31) \<and> sint (ucast s :: u32) = - 1"

definition overflows64 :: "u64 \<Rightarrow> u64 \<Rightarrow> bool" where
  "overflows64 d s \<longleftrightarrow> sint d = - (2 ^ 63) \<and> sint s = - 1"

definition sdiv32 :: "u64 \<Rightarrow> u64 \<Rightarrow> u64" where
  "sdiv32 d s = ucast (word_of_int (sint (ucast d :: u32) sdiv sint (ucast s :: u32)) :: u32)"

definition srem32 :: "u64 \<Rightarrow> u64 \<Rightarrow> u64" where
  "srem32 d s = ucast (word_of_int (sint (ucast d :: u32) smod sint (ucast s :: u32)) :: u32)"

definition sdiv64 :: "u64 \<Rightarrow> u64 \<Rightarrow> u64" where
  "sdiv64 d s = word_of_int (sint d sdiv sint s)"

definition srem64 :: "u64 \<Rightarrow> u64 \<Rightarrow> u64" where
  "srem64 d s = word_of_int (sint d smod sint s)"

definition load_reg :: "'w environment \<Rightarrow> insn \<Rightarrow> nat \<Rightarrow> 'w arm_run" where
  "load_reg env i n next_pc =
    bindM (get_reg (unat (src i))) (\<lambda>s.
      let addr = s + scast (off i) in
      bindM (translate_memory_access (mapping_load (violation_handler env) n addr)) (\<lambda>x.
        set_dst i x next_pc))"

definition store_imm :: "'w environment \<Rightarrow> insn \<Rightarrow> nat \<Rightarrow> 'w arm_run" where
  "store_imm env i n next_pc =
    bindM (get_reg (unat (dst i))) (\<lambda>d.
      let addr = d + scast (off i) in
      seqM (translate_memory_access (mapping_store (violation_handler env) n (imm i) addr)) (ret next_pc))"

definition store_reg :: "'w environment \<Rightarrow> insn \<Rightarrow> nat \<Rightarrow> 'w arm_run" where
  "store_reg env i n next_pc =
    bindM (get_reg (unat (dst i))) (\<lambda>d.
      let addr = d + scast (off i) in
      bindM (get_reg (unat (src i))) (\<lambda>s.
        seqM (translate_memory_access (mapping_store (violation_handler env) n s addr)) (ret next_pc)))"

definition jump_always :: "insn \<Rightarrow> 'w arm_run" where
  "jump_always i next_pc = ret (next_pc + scast (off i))"

definition jump_imm :: "insn \<Rightarrow> (u64 \<Rightarrow> u64 \<Rightarrow> bool) \<Rightarrow> 'w arm_run" where
  "jump_imm i cond next_pc =
    bindM (get_reg (unat (dst i))) (\<lambda>d. if cond d (imm i) then jump_always i next_pc else ret next_pc)"

definition jump_reg :: "insn \<Rightarrow> (u64 \<Rightarrow> u64 \<Rightarrow> bool) \<Rightarrow> 'w arm_run" where
  "jump_reg i cond next_pc =
    bindM (get_reg (unat (dst i))) (\<lambda>d. bindM (get_reg (unat (src i))) (\<lambda>s.
      if cond d s then jump_always i next_pc else ret next_pc))"

definition load_dw_imm :: "'w executable \<Rightarrow> insn \<Rightarrow> 'w arm_run" where
  "load_dw_imm ex i next_pc =
    (case augment_lddw_unchecked (text_bytes ex) i of
       None \<Rightarrow> panic
     | Some i \<Rightarrow>
         seqM (set_reg (unat (dst i)) (imm i))
           (bindM (get_reg 11) (\<lambda>pc. seqM (set_reg 11 (pc + 1)) (ret (next_pc + 1)))))"

definition swap_bytes :: "nat \<Rightarrow> u64 \<Rightarrow> u64" where
  "swap_bytes n x = of_le_bytes (rev (le_bytes n x))"

definition to_endian :: "insn \<Rightarrow> (nat \<Rightarrow> u64 \<Rightarrow> u64) \<Rightarrow> 'w arm_run" where
  "to_endian i f next_pc =
    (if imm i = 16 then alu i (f 2) next_pc
     else if imm i = 32 then alu i (f 4) next_pc
     else if imm i = 64 then alu i (f 8) next_pc
     else throw_error InvalidInstruction)"

definition check_pc :: "'w executable \<Rightarrow> u64 \<Rightarrow> ('w, u64) run" where
  "check_pc ex pc = (if is_pc_in_program (text_bytes ex) pc then ret pc else throw_error CallOutsideTextSegment)"

definition call_reg :: "'w executable \<Rightarrow> insn \<Rightarrow> 'w arm_run" where
  "call_reg ex i next_pc =
    bindM (get_reg (if callx_uses_src_reg (exec_version ex) then unat (src i)
                    else if callx_uses_dst_reg (exec_version ex) then unat (dst i)
                    else unat (imm i)))
      (\<lambda>target. seqM (push_frame ex) (check_pc ex ((target - text_vm_addr ex) div word_of_nat INSN_SIZE)))"

definition external_call :: "'w environment \<Rightarrow> 'w executable \<Rightarrow> insn \<Rightarrow> ('w, bool) run" where
  "external_call env ex i =
    (if \<not> static_syscalls (exec_version ex) \<or> src i = 0 then
       (case lookup_by_key (exec_loader ex) (ucast (imm i)) of
          None \<Rightarrow> ret False
        | Some (_, rust) \<Rightarrow>
            seqM (modifyM (dispatch_syscall env ex rust))
              (bindM (getsM program_result) (\<lambda>res.
                 case res of
                   Err _ \<Rightarrow> throw (Fail ())
                 | Ok x \<Rightarrow> seqM (set_reg 0 x) (ret True))))
     else ret False)"

definition internal_call :: "'w executable \<Rightarrow> insn \<Rightarrow> u64 \<Rightarrow> bool \<Rightarrow> ('w, u64 \<times> bool) run" where
  "internal_call ex i next_pc resolved =
    (if static_syscalls (exec_version ex) then
       (let target = i64_saturating_add next_pc (imm i) in
        if is_pc_in_program (text_bytes ex) target \<and> src i = 1
        then seqM (push_frame ex) (ret (target, True))
        else ret (next_pc, resolved))
     else
       (case lookup_by_key (exec_functions ex) (ucast (imm i)) of
          None \<Rightarrow> ret (next_pc, resolved)
        | Some (_, target) \<Rightarrow>
            seqM (push_frame ex) (bindM (check_pc ex target) (\<lambda>pc. ret (pc, True)))))"

definition call_imm :: "'w environment \<Rightarrow> 'w executable \<Rightarrow> insn \<Rightarrow> 'w arm_run" where
  "call_imm env ex i next_pc =
    bindM (external_call env ex i) (\<lambda>resolved.
      bindM (internal_call ex i next_pc resolved) (\<lambda>(pc, resolved).
        if \<not> resolved then throw_error UnsupportedInstruction else ret pc))"

definition exit_insn :: "'w executable \<Rightarrow> 'w arm_run" where
  "exit_insn ex next_pc s =
    (if call_depth s = 0 then
       (if enable_instruction_meter (exec_config ex) \<and> due_insn_count s > previous_instruction_meter s
        then throw_error ExceededMaxInstructions s
        else (Err (Fail ()), s\<lparr>program_result := Ok (reg s ! 0)\<rparr>))
     else
       (let s = s\<lparr>call_depth := call_depth s - 1\<rparr>; d = unat (call_depth s) in
        if d < length (call_frames s) then
          (let frame = call_frames s ! d;
               r = (reg s)[FRAME_PTR_REG := frame_pointer frame]
           in (Ok (target_pc frame),
               s\<lparr>reg := take FIRST_SCRATCH_REG r @ caller_saved_registers frame
                        @ drop (FIRST_SCRATCH_REG + SCRATCH_REGS) r\<rparr>))
        else (Err Panic, s)))"

section \<open>The table of instructions\<close>

definition step_ld :: "'w executable \<Rightarrow> sbpf_version \<Rightarrow> insn \<Rightarrow> 'w step_arm list" where
  "step_ld ex v i =
    [(LD_DW_IMM, \<not> disable_lddw v, load_dw_imm ex i)]"

definition step_ldx :: "'w environment \<Rightarrow> sbpf_version \<Rightarrow> insn \<Rightarrow> 'w step_arm list" where
  "step_ldx env v i =
    [(LD_B_REG, \<not> move_memory_instruction_classes v, load_reg env i 1),
     (LD_H_REG, \<not> move_memory_instruction_classes v, load_reg env i 2),
     (LD_W_REG, \<not> move_memory_instruction_classes v, load_reg env i 4),
     (LD_DW_REG, \<not> move_memory_instruction_classes v, load_reg env i 8)]"

definition step_st :: "'w environment \<Rightarrow> sbpf_version \<Rightarrow> insn \<Rightarrow> 'w step_arm list" where
  "step_st env v i =
    [(ST_B_IMM, \<not> move_memory_instruction_classes v, store_imm env i 1),
     (ST_H_IMM, \<not> move_memory_instruction_classes v, store_imm env i 2),
     (ST_W_IMM, \<not> move_memory_instruction_classes v, store_imm env i 4),
     (ST_DW_IMM, \<not> move_memory_instruction_classes v, store_imm env i 8)]"

definition step_stx :: "'w environment \<Rightarrow> sbpf_version \<Rightarrow> insn \<Rightarrow> 'w step_arm list" where
  "step_stx env v i =
    [(ST_B_REG, \<not> move_memory_instruction_classes v, store_reg env i 1),
     (ST_H_REG, \<not> move_memory_instruction_classes v, store_reg env i 2),
     (ST_W_REG, \<not> move_memory_instruction_classes v, store_reg env i 4),
     (ST_DW_REG, \<not> move_memory_instruction_classes v, store_reg env i 8)]"

definition step_alu32 :: "'w environment \<Rightarrow> sbpf_version \<Rightarrow> insn \<Rightarrow> 'w step_arm list" where
  "step_alu32 env v i =
    [(ADD32_IMM, True, alu_imm i (\<lambda>d m. sign_extension v (ucast d + ucast m))),
     (ADD32_REG, True, alu_reg i (\<lambda>d s. sign_extension v (ucast d + ucast s))),
     (SUB32_IMM, True, alu_imm i (\<lambda>d m. if swap_sub_reg_imm_operands v
        then sign_extension v (ucast m - ucast d) else sign_extension v (ucast d - ucast m))),
     (SUB32_REG, True, alu_reg i (\<lambda>d s. sign_extension v (ucast d - ucast s))),
     (MUL32_IMM, \<not> enable_pqr v, alu_imm i (\<lambda>d m. sign_extension v (ucast d * ucast m))),
     (MUL32_REG, \<not> enable_pqr v, alu_reg i (\<lambda>d s. sign_extension v (ucast d * ucast s))),
     (LD_1B_REG, move_memory_instruction_classes v, load_reg env i 1),
     (DIV32_IMM, \<not> enable_pqr v, div_imm i zero32 (\<lambda>d m. ucast ((ucast d :: u32) div ucast m))),
     (DIV32_REG, \<not> enable_pqr v, div_reg i zero32 (\<lambda>d s. ucast ((ucast d :: u32) div ucast s))),
     (LD_2B_REG, move_memory_instruction_classes v, load_reg env i 2),
     (OR32_IMM, True, alu_imm i (\<lambda>d m. ucast ((ucast d :: u32) OR ucast m))),
     (OR32_REG, True, alu_reg i (\<lambda>d s. ucast ((ucast d :: u32) OR ucast s))),
     (AND32_IMM, True, alu_imm i (\<lambda>d m. ucast ((ucast d :: u32) AND ucast m))),
     (AND32_REG, True, alu_reg i (\<lambda>d s. ucast ((ucast d :: u32) AND ucast s))),
     (LSH32_IMM, True, alu_imm i (\<lambda>d m. ucast (wrapping_shl (ucast d :: u32) (ucast m)))),
     (LSH32_REG, True, alu_reg i (\<lambda>d s. ucast (wrapping_shl (ucast d :: u32) (ucast s)))),
     (RSH32_IMM, True, alu_imm i (\<lambda>d m. ucast (wrapping_shr (ucast d :: u32) (ucast m)))),
     (RSH32_REG, True, alu_reg i (\<lambda>d s. ucast (wrapping_shr (ucast d :: u32) (ucast s)))),
     (NEG32, \<not> disable_neg v, alu i (\<lambda>d. scast (- (ucast d :: u32)) AND 0xffffffff)),
     (LD_4B_REG, move_memory_instruction_classes v, load_reg env i 4),
     (MOD32_IMM, \<not> enable_pqr v, div_imm i zero32 (\<lambda>d m. ucast ((ucast d :: u32) mod ucast m))),
     (MOD32_REG, \<not> enable_pqr v, div_reg i zero32 (\<lambda>d s. ucast ((ucast d :: u32) mod ucast s))),
     (LD_8B_REG, move_memory_instruction_classes v, load_reg env i 8),
     (XOR32_IMM, True, alu_imm i (\<lambda>d m. ucast ((ucast d :: u32) XOR ucast m))),
     (XOR32_REG, True, alu_reg i (\<lambda>d s. ucast ((ucast d :: u32) XOR ucast s))),
     (MOV32_IMM, True, mov_imm i (\<lambda>m. ucast (ucast m :: u32))),
     (MOV32_REG, True, mov_reg i (\<lambda>s. if explicit_sign_extension_of_results v
        then scast (ucast s :: u32) else ucast (ucast s :: u32))),
     (ARSH32_IMM, True, alu_imm i (\<lambda>d m. ucast (wrapping_ashr (ucast d :: u32) (ucast m)))),
     (ARSH32_REG, True, alu_reg i (\<lambda>d s. ucast (wrapping_ashr (ucast d :: u32) (ucast s)))),
     (LE, \<not> disable_le v, to_endian i (\<lambda>n d. take_bit (8 * n) d)),
     (BE, True, to_endian i swap_bytes)]"

definition step_alu64 :: "'w environment \<Rightarrow> sbpf_version \<Rightarrow> insn \<Rightarrow> 'w step_arm list" where
  "step_alu64 env v i =
    [(ADD64_IMM, True, alu_imm i (\<lambda>d m. d + m)),
     (ADD64_REG, True, alu_reg i (\<lambda>d s. d + s)),
     (SUB64_IMM, True, alu_imm i (\<lambda>d m. if swap_sub_reg_imm_operands v then m - d else d - m)),
     (SUB64_REG, True, alu_reg i (\<lambda>d s. d - s)),
     (MUL64_IMM, \<not> enable_pqr v, alu_imm i (\<lambda>d m. d * m)),
     (ST_1B_IMM, move_memory_instruction_classes v, store_imm env i 1),
     (MUL64_REG, \<not> enable_pqr v, alu_reg i (\<lambda>d s. d * s)),
     (ST_1B_REG, move_memory_instruction_classes v, store_reg env i 1),
     (DIV64_IMM, \<not> enable_pqr v, div_imm i zero64 (\<lambda>d m. d div m)),
     (ST_2B_IMM, move_memory_instruction_classes v, store_imm env i 2),
     (DIV64_REG, \<not> enable_pqr v, div_reg i zero64 (\<lambda>d s. d div s)),
     (ST_2B_REG, move_memory_instruction_classes v, store_reg env i 2),
     (OR64_IMM, True, alu_imm i (\<lambda>d m. d OR m)),
     (OR64_REG, True, alu_reg i (\<lambda>d s. d OR s)),
     (AND64_IMM, True, alu_imm i (\<lambda>d m. d AND m)),
     (AND64_REG, True, alu_reg i (\<lambda>d s. d AND s)),
     (LSH64_IMM, True, alu_imm i (\<lambda>d m. wrapping_shl d (ucast m))),
     (LSH64_REG, True, alu_reg i (\<lambda>d s. wrapping_shl d (ucast s))),
     (RSH64_IMM, True, alu_imm i (\<lambda>d m. wrapping_shr d (ucast m))),
     (RSH64_REG, True, alu_reg i (\<lambda>d s. wrapping_shr d (ucast s))),
     (ST_4B_IMM, move_memory_instruction_classes v, store_imm env i 4),
     (NEG64, \<not> disable_neg v, alu i (\<lambda>d. - d)),
     (ST_4B_REG, move_memory_instruction_classes v, store_reg env i 4),
     (MOD64_IMM, \<not> enable_pqr v, div_imm i zero64 (\<lambda>d m. d mod m)),
     (ST_8B_IMM, move_memory_instruction_classes v, store_imm env i 8),
     (MOD64_REG, \<not> enable_pqr v, div_reg i zero64 (\<lambda>d s. d mod s)),
     (ST_8B_REG, move_memory_instruction_classes v, store_reg env i 8),
     (XOR64_IMM, True, alu_imm i (\<lambda>d m. d XOR m)),
     (XOR64_REG, True, alu_reg i (\<lambda>d s. d XOR s)),
     (MOV64_IMM, True, mov_imm i (\<lambda>m. m)),
     (MOV64_REG, True, mov_reg i (\<lambda>s. s)),
     (ARSH64_IMM, True, alu_imm i (\<lambda>d m. wrapping_ashr d (ucast m))),
     (ARSH64_REG, True, alu_reg i (\<lambda>d s. wrapping_ashr d (ucast s))),
     (HOR64_IMM, disable_lddw v, alu_imm i (\<lambda>d m. d OR wrapping_shl m 32))]"

definition step_pqr :: "sbpf_version \<Rightarrow> insn \<Rightarrow> 'w step_arm list" where
  "step_pqr v i =
    [(LMUL32_IMM, enable_pqr v, alu_imm i (\<lambda>d m. ucast ((ucast d :: u32) * ucast m))),
     (LMUL32_REG, enable_pqr v, alu_reg i (\<lambda>d s. ucast ((ucast d :: u32) * ucast s))),
     (LMUL64_IMM, enable_pqr v, alu_imm i (\<lambda>d m. d * m)),
     (LMUL64_REG, enable_pqr v, alu_reg i (\<lambda>d s. d * s)),
     (UHMUL64_IMM, enable_pqr v, alu_imm i (\<lambda>d m. word_of_nat (unat d * unat (ucast m :: u32) div 2 ^ 64))),
     (UHMUL64_REG, enable_pqr v, alu_reg i (\<lambda>d s. word_of_nat (unat d * unat s div 2 ^ 64))),
     (SHMUL64_IMM, enable_pqr v, alu_imm i (\<lambda>d m. word_of_int (sint d * sint m div 2 ^ 64))),
     (SHMUL64_REG, enable_pqr v, alu_reg i (\<lambda>d s. word_of_int (sint d * sint s div 2 ^ 64))),
     (UDIV32_IMM, enable_pqr v, div_imm i zero32 (\<lambda>d m. ucast ((ucast d :: u32) div ucast m))),
     (UDIV32_REG, enable_pqr v, div_reg i zero32 (\<lambda>d s. ucast ((ucast d :: u32) div ucast s))),
     (UDIV64_IMM, enable_pqr v, div_imm i zero32 (\<lambda>d m. d div ucast (ucast m :: u32))),
     (UDIV64_REG, enable_pqr v, div_reg i zero64 (\<lambda>d s. d div s)),
     (UREM32_IMM, enable_pqr v, div_imm i zero32 (\<lambda>d m. ucast ((ucast d :: u32) mod ucast m))),
     (UREM32_REG, enable_pqr v, div_reg i zero32 (\<lambda>d s. ucast ((ucast d :: u32) mod ucast s))),
     (UREM64_IMM, enable_pqr v, div_imm i zero32 (\<lambda>d m. d mod ucast (ucast m :: u32))),
     (UREM64_REG, enable_pqr v, div_reg i zero64 (\<lambda>d s. d mod s)),
     (SDIV32_IMM, enable_pqr v, sdiv_imm i zero32 overflows32 sdiv32),
     (SDIV32_REG, enable_pqr v, sdiv_reg i zero32 overflows32 sdiv32),
     (SDIV64_IMM, enable_pqr v, sdiv_imm i zero64 overflows64 sdiv64),
     (SDIV64_REG, enable_pqr v, sdiv_reg i zero64 overflows64 sdiv64),
     (SREM32_IMM, enable_pqr v, sdiv_imm i zero32 overflows32 srem32),
     (SREM32_REG, enable_pqr v, sdiv_reg i zero32 overflows32 srem32),
     (SREM64_IMM, enable_pqr v, sdiv_imm i zero64 overflows64 srem64),
     (SREM64_REG, enable_pqr v, sdiv_reg i zero64 overflows64 srem64)]"

definition step_jmp32 :: "sbpf_version \<Rightarrow> insn \<Rightarrow> 'w step_arm list" where
  "step_jmp32 v i =
    [(JEQ32_IMM, enable_jmp32 v, jump_imm i (\<lambda>d m. (ucast d :: u32) = ucast m)),
     (JEQ32_REG, enable_jmp32 v, jump_reg i (\<lambda>d s. (ucast d :: u32) = ucast s)),
     (JGT32_IMM, enable_jmp32 v, jump_imm i (\<lambda>d m. (ucast d :: u32) > ucast m)),
     (JGT32_REG, enable_jmp32 v, jump_reg i (\<lambda>d s. (ucast d :: u32) > ucast s)),
     (JGE32_IMM, enable_jmp32 v, jump_imm i (\<lambda>d m. (ucast d :: u32) \<ge> ucast m)),
     (JGE32_REG, enable_jmp32 v, jump_reg i (\<lambda>d s. (ucast d :: u32) \<ge> ucast s)),
     (JLT32_IMM, enable_jmp32 v, jump_imm i (\<lambda>d m. (ucast d :: u32) < ucast m)),
     (JLT32_REG, enable_jmp32 v, jump_reg i (\<lambda>d s. (ucast d :: u32) < ucast s)),
     (JLE32_IMM, enable_jmp32 v, jump_imm i (\<lambda>d m. (ucast d :: u32) \<le> ucast m)),
     (JLE32_REG, enable_jmp32 v, jump_reg i (\<lambda>d s. (ucast d :: u32) \<le> ucast s)),
     (JSET32_IMM, enable_jmp32 v, jump_imm i (\<lambda>d m. (ucast d :: u32) AND ucast m \<noteq> 0)),
     (JSET32_REG, enable_jmp32 v, jump_reg i (\<lambda>d s. (ucast d :: u32) AND ucast s \<noteq> 0)),
     (JNE32_IMM, enable_jmp32 v, jump_imm i (\<lambda>d m. (ucast d :: u32) \<noteq> ucast m)),
     (JNE32_REG, enable_jmp32 v, jump_reg i (\<lambda>d s. (ucast d :: u32) \<noteq> ucast s)),
     (JSGT32_IMM, enable_jmp32 v, jump_imm i (\<lambda>d m. sint (ucast d :: u32) > sint (ucast m :: u32))),
     (JSGT32_REG, enable_jmp32 v, jump_reg i (\<lambda>d s. sint (ucast d :: u32) > sint (ucast s :: u32))),
     (JSGE32_IMM, enable_jmp32 v, jump_imm i (\<lambda>d m. sint (ucast d :: u32) \<ge> sint (ucast m :: u32))),
     (JSGE32_REG, enable_jmp32 v, jump_reg i (\<lambda>d s. sint (ucast d :: u32) \<ge> sint (ucast s :: u32))),
     (JSLT32_IMM, enable_jmp32 v, jump_imm i (\<lambda>d m. sint (ucast d :: u32) < sint (ucast m :: u32))),
     (JSLT32_REG, enable_jmp32 v, jump_reg i (\<lambda>d s. sint (ucast d :: u32) < sint (ucast s :: u32))),
     (JSLE32_IMM, enable_jmp32 v, jump_imm i (\<lambda>d m. sint (ucast d :: u32) \<le> sint (ucast m :: u32))),
     (JSLE32_REG, enable_jmp32 v, jump_reg i (\<lambda>d s. sint (ucast d :: u32) \<le> sint (ucast s :: u32)))]"

definition step_jmp64 :: "insn \<Rightarrow> 'w step_arm list" where
  "step_jmp64 i =
    [(JA, True, jump_always i),
     (JEQ64_IMM, True, jump_imm i (\<lambda>d m. d = m)),
     (JEQ64_REG, True, jump_reg i (\<lambda>d s. d = s)),
     (JGT64_IMM, True, jump_imm i (\<lambda>d m. d > m)),
     (JGT64_REG, True, jump_reg i (\<lambda>d s. d > s)),
     (JGE64_IMM, True, jump_imm i (\<lambda>d m. d \<ge> m)),
     (JGE64_REG, True, jump_reg i (\<lambda>d s. d \<ge> s)),
     (JLT64_IMM, True, jump_imm i (\<lambda>d m. d < m)),
     (JLT64_REG, True, jump_reg i (\<lambda>d s. d < s)),
     (JLE64_IMM, True, jump_imm i (\<lambda>d m. d \<le> m)),
     (JLE64_REG, True, jump_reg i (\<lambda>d s. d \<le> s)),
     (JSET64_IMM, True, jump_imm i (\<lambda>d m. d AND m \<noteq> 0)),
     (JSET64_REG, True, jump_reg i (\<lambda>d s. d AND s \<noteq> 0)),
     (JNE64_IMM, True, jump_imm i (\<lambda>d m. d \<noteq> m)),
     (JNE64_REG, True, jump_reg i (\<lambda>d s. d \<noteq> s)),
     (JSGT64_IMM, True, jump_imm i (\<lambda>d m. sint d > sint m)),
     (JSGT64_REG, True, jump_reg i (\<lambda>d s. sint d > sint s)),
     (JSGE64_IMM, True, jump_imm i (\<lambda>d m. sint d \<ge> sint m)),
     (JSGE64_REG, True, jump_reg i (\<lambda>d s. sint d \<ge> sint s)),
     (JSLT64_IMM, True, jump_imm i (\<lambda>d m. sint d < sint m)),
     (JSLT64_REG, True, jump_reg i (\<lambda>d s. sint d < sint s)),
     (JSLE64_IMM, True, jump_imm i (\<lambda>d m. sint d \<le> sint m)),
     (JSLE64_REG, True, jump_reg i (\<lambda>d s. sint d \<le> sint s))]"

definition step_call :: "'w environment \<Rightarrow> 'w executable \<Rightarrow> insn \<Rightarrow> 'w step_arm list" where
  "step_call env ex i =
    [(CALL_REG, True, call_reg ex i),
     (CALL_IMM, True, call_imm env ex i),
     (EXIT, True, exit_insn ex)]"

definition step_arms :: "'w environment \<Rightarrow> 'w executable \<Rightarrow> sbpf_version \<Rightarrow> insn \<Rightarrow> 'w step_arm list" where
  "step_arms env ex v i = step_ld ex v i @ step_ldx env v i @ step_st env v i @ step_stx env v i
    @ step_alu32 env v i @ step_alu64 env v i @ step_pqr v i @ step_jmp32 v i @ step_jmp64 i @ step_call env ex i"

section \<open>Steps and runs\<close>

definition step_insn :: "'w environment \<Rightarrow> 'w executable \<Rightarrow> insn \<Rightarrow> 'w arm_run" where
  "step_insn env ex i =
    (case select_arm (opc i) (step_arms env ex (exec_version ex) i) of
       None \<Rightarrow> (\<lambda>next_pc. throw_error UnsupportedInstruction)
     | Some body \<Rightarrow> body)"

definition step :: "'w environment \<Rightarrow> 'w executable \<Rightarrow> ('w, unit) run" where
  "step env ex s =
    (let conf = exec_config ex in
     if enable_instruction_meter conf \<and> due_insn_count s \<ge> previous_instruction_meter s
     then throw_error ExceededMaxInstructions s
     else
       let s = s\<lparr>due_insn_count := due_insn_count s + 1\<rparr>; pc = reg s ! 11 in
       if insn_offset pc \<ge> length (text_bytes ex) then throw_error ExecutionOverrun s
       else
         case get_insn_unchecked (text_bytes ex) pc of
           None \<Rightarrow> panic s
         | Some i \<Rightarrow>
             let s = (if enable_register_tracing conf then s\<lparr>register_trace := register_trace s @ [reg s]\<rparr> else s)
             in bindM (step_insn env ex i (pc + 1)) (set_reg 11) s)"

text \<open>
  \<open>while interpreter.step() {}\<close> with fuel; \<open>None\<close> is a run that is not over when the fuel is. The result
  says whether the run ended normally or with a panic.
\<close>

fun run_interpreter :: "nat \<Rightarrow> 'w environment \<Rightarrow> 'w executable \<Rightarrow> 'w vm \<Rightarrow> (unit failure \<times> 'w vm) option" where
  "run_interpreter 0 env ex s = None"
| "run_interpreter (Suc fuel) env ex s =
    (case step env ex s of
       (Ok _, t) \<Rightarrow> run_interpreter fuel env ex t
     | (Err e, t) \<Rightarrow> Some (e, t))"

text \<open>The machine as \<open>EbpfVm::new\<close> sets it up; the call frames come with the run.\<close>

definition vm_new :: "config \<Rightarrow> sbpf_version \<Rightarrow> 'w space \<Rightarrow> nat \<Rightarrow> 'w vm" where
  "vm_new conf v sp stack_len =
    (let size = word_of_nat (if \<not> manual_stack_frame_bump v then stack_frame_size conf else stack_len)
     in \<lparr>call_depth = 0, previous_instruction_meter = 0, due_insn_count = 0,
         registers = (replicate 12 0)[FRAME_PTR_REG := saturating_add MM_STACK_START size],
         program_result = Ok 0, register_trace = [], space = sp, call_frames = [], reg = replicate 12 0\<rparr>)"

text \<open>
  \<open>execute_program\<close> in the interpreted mode. A call-frame slice that is too short fails the assertion in
  \<open>Interpreter::new\<close>.
\<close>

definition execute_program ::
  "nat \<Rightarrow> 'w environment \<Rightarrow> 'w executable \<Rightarrow> call_frame list \<Rightarrow> 'w vm
    \<Rightarrow> ((u64 \<times> program_result, unit failure) result \<times> 'w vm) option" where
  "execute_program fuel env ex frames s =
    (let s = s\<lparr>registers := (registers s)[11 := entrypoint ex]\<rparr>;
         initial_insn_count = get_remaining env (world (snd (space s)));
         s = s\<lparr>previous_instruction_meter := initial_insn_count, due_insn_count := 0, program_result := Ok 0\<rparr>
     in if length frames < max_call_depth (exec_config ex) then Some (Err Panic, s)
        else
          case run_interpreter fuel env ex (s\<lparr>reg := registers s, call_frames := frames\<rparr>) of
            None \<Rightarrow> None
          | Some (Panic, s) \<Rightarrow> Some (Err Panic, s)
          | Some (Fail _, s) \<Rightarrow>
              if enable_instruction_meter (exec_config ex) then
                (let (m, h) = space s;
                     h = h\<lparr>world := consume env (due_insn_count s) (world h)\<rparr>;
                     instruction_count = saturating_sub initial_insn_count (get_remaining env (world h))
                 in Some (Ok (instruction_count, program_result s),
                          s\<lparr>space := (m, h), program_result := Ok 0\<rparr>))
              else Some (Ok (0, program_result s), s\<lparr>program_result := Ok 0\<rparr>))"

section \<open>The contract of the context object\<close>

text \<open>
  What the machine relies on in an implementation of \<open>ContextObject\<close>: consuming takes from the meter and
  stops at zero.
\<close>

locale context_object =
  fixes consume :: "u64 \<Rightarrow> 'w \<Rightarrow> 'w" and get_remaining :: "'w \<Rightarrow> u64"
  assumes remaining_consume: "get_remaining (consume n w) = saturating_sub (get_remaining w) n"
begin

lemma unat_remaining: "unat (get_remaining (consume n w)) = unat (get_remaining w) - unat n"
  by (simp add: remaining_consume unat_saturating_sub)

lemma remaining_consume_twice:
  "get_remaining (consume k (consume n w)) = saturating_sub (get_remaining w) (saturating_add n k)"
proof -
  have "unat (get_remaining w) < 2 ^ LENGTH(64)" by (rule unsigned_less)
  then show ?thesis
    by (simp add: word_unat_eq_iff unat_remaining unat_saturating_sub unat_saturating_add)
qed

end

end
