(* ===== verification/Sbpf_Arms.thy ===== *)
theory Sbpf_Arms
  imports Sbpf_Translation Sbpf_Verifier Sbpf_Interpreter
begin

text \<open>
  What one arm of the interpreter does to the machine. All arms but the wide load, the calls and the exit
  are local: they write one register and the memory behind the mapping, leave the call stack and the
  instruction meter alone, and go to the next instruction or to the target of their jump. The table of the
  interpreter and the table of the verifier have the same opcodes in every version.
\<close>

unbundle bit_operations_syntax

section \<open>Effects\<close>

definition space_ok :: "'w space \<Rightarrow> bool" where
  "space_ok sp \<longleftrightarrow> mapping_inv (fst sp) \<and> \<not> disable_address_translation (fst sp)
    \<and> (\<forall>r \<in> set (get_regions (fst sp)). region_valid r)"

definition meter :: "'w environment \<Rightarrow> 'w space \<Rightarrow> u64" where
  "meter env sp = get_remaining env (world (snd sp))"

definition handler_ok :: "'w environment \<Rightarrow> bool" where
  "handler_ok env \<longleftrightarrow> handler_keeps_valid (violation_handler env)
    \<and> (\<forall>r max_len access addr len h.
         get_remaining env (world (snd (violation_handler env r max_len access addr len h)))
           = get_remaining env (world h))"

definition space_kept :: "'w environment \<Rightarrow> 'w space \<Rightarrow> 'w space \<Rightarrow> bool" where
  "space_kept env sp sp' \<longleftrightarrow> (space_ok sp \<longrightarrow> space_ok sp' \<and> meter env sp' = meter env sp)"

definition machine_kept :: "'w vm \<Rightarrow> 'w vm \<Rightarrow> bool" where
  "machine_kept s t \<longleftrightarrow> call_depth t = call_depth s \<and> call_frames t = call_frames s
    \<and> previous_instruction_meter t = previous_instruction_meter s \<and> due_insn_count t = due_insn_count s
    \<and> length (reg t) = length (reg s) \<and> reg t ! 11 = reg s ! 11
    \<and> length (registers t) = length (registers s)"

definition local_effect :: "'w environment \<Rightarrow> 'w vm \<Rightarrow> 'w vm \<Rightarrow> bool" where
  "local_effect env s t \<longleftrightarrow> machine_kept s t \<and> space_kept env (space s) (space t)"

definition no_invalid :: "'w vm \<Rightarrow> bool" where
  "no_invalid t \<longleftrightarrow> program_result t \<noteq> Err InvalidInstruction"

text \<open>An arm that is neither a call nor an exit.\<close>

definition local_arm :: "'w environment \<Rightarrow> bool \<Rightarrow> insn \<Rightarrow> 'w arm_run \<Rightarrow> bool" where
  "local_arm env jumps i a \<longleftrightarrow> (\<forall>next_pc s. length (reg s) = 12 \<longrightarrow> space_ok (space s) \<longrightarrow>
     wp (a next_pc)
       (\<lambda>pc t. local_effect env s t \<and> (pc = next_pc \<or> jumps \<and> pc = next_pc + scast (off i)))
       (\<lambda>e t. e = Fail () \<and> no_invalid t \<and> local_effect env s t) s)"

definition regs_ok :: "insn \<Rightarrow> bool" where
  "regs_ok i \<longleftrightarrow> unat (dst i) < 11 \<and> unat (src i) < 11"

definition local_arms :: "'w environment \<Rightarrow> sbpf_version \<Rightarrow> insn \<Rightarrow> 'w step_arm list \<Rightarrow> bool" where
  "local_arms env v i = list_all (\<lambda>(c, g, a). g \<longrightarrow> opc i = c \<longrightarrow> local_arm env (is_jump v c) i a)"


section \<open>Lemmas\<close>

lemma wp_throw_error [simp]:
  "wp (throw_error e) Q E s = E (Fail ()) (s\<lparr>registers := (registers s)[11 := reg s ! 11], program_result := Err e\<rparr>)"
  by (simp add: throw_error_def)

lemma wp_panic [simp]: "wp panic Q E s = E Panic s"
  by (simp add: panic_def)

lemma wp_get_reg [simp]: "n < length (reg s) \<Longrightarrow> wp (get_reg n) Q E s = Q (reg s ! n) s"
  by (simp add: wp_def get_reg_def)

lemma wp_set_reg [simp]: "n < length (reg s) \<Longrightarrow> wp (set_reg n x) Q E s = Q () (s\<lparr>reg := (reg s)[n := x]\<rparr>)"
  by (simp add: wp_def set_reg_def)

lemma map_with_handler_host:
  assumes "map_with_access_violation_handler handler access addr len (m, h) = (x, (m', h'))"
  shows "h' = h \<or> (\<exists>r max_len. h' = snd (handler r max_len access addr len h))"
proof -
  obtain y m1 where find: "find_region addr m = (y, m1)" by fastforce
  consider "disable_address_translation m" | "\<not> disable_address_translation m" "y = None"
    | i r where "\<not> disable_address_translation m" "y = Some (i, r)" by fastforce
  then show ?thesis
  proof cases
    case (3 i r)
    let ?h = "handler r (saturating_sub (next_region_start m1 i) (vm_addr r)) access addr len h"
    obtain r' h1 where h: "?h = (r', h1)" by fastforce
    have "h' = h \<or> h' = h1"
      using assms find 3 h
      by (simp add: map_with_access_violation_handler_def split: option.splits prod.splits result.splits)
    then show ?thesis using h by (metis snd_conv)
  qed (use assms find in \<open>simp_all add: map_with_access_violation_handler_def\<close>)
qed

lemma replace_region_error: "replace_region i r n = (Err (Fail e), n') \<Longrightarrow> e = InvalidMemoryRegion i"
  by (auto simp: replace_region_def aligned_replace_region_def unaligned_replace_region_def Let_def
      split: if_splits memory_mapping_type.splits)

lemma map_with_handler_error:
  assumes "map_with_access_violation_handler handler access addr len (m, h) = (Err (Fail e), (m', h'))"
  shows "e \<noteq> InvalidInstruction"
proof -
  obtain y m1 where find: "find_region addr m = (y, m1)" by fastforce
  obtain g where g: "generate_access_violation m1 access addr len = Err g"
    using generate_access_violation_Err by blast
  then have "g \<noteq> InvalidInstruction" by (auto simp: generate_access_violation_def Let_def split: if_splits)
  note g = g this
  consider "disable_address_translation m" | "\<not> disable_address_translation m" "y = None"
    | i r where "\<not> disable_address_translation m" "y = Some (i, r)" by fastforce
  then show ?thesis
  proof cases
    case (3 i r)
    let ?h = "handler r (saturating_sub (next_region_start m1 i) (vm_addr r)) access addr len h"
    obtain r' h1 where h: "?h = (r', h1)" by fastforce
    have "e = g \<or> replace_region i r' m1 = (Err (Fail e), m')"
      using assms find 3 h g
      by (simp add: map_with_access_violation_handler_def split: option.splits prod.splits result.splits)
    then show ?thesis using g replace_region_error by blast
  qed (use assms find g in \<open>simp_all add: map_with_access_violation_handler_def\<close>)
qed

lemma map_with_handler_kept:
  assumes "handler_ok env" "space_ok sp"
    and "map_with_access_violation_handler (violation_handler env) access addr len sp = (x, sp')"
  shows "space_ok sp' \<and> meter env sp' = meter env sp \<and> x \<noteq> Err Panic \<and> x \<noteq> Err (Fail InvalidInstruction)"
proof -
  obtain m h m' h' where sp: "sp = (m, h)" "sp' = (m', h')" by fastforce
  note step = assms(3) [unfolded sp]
  have ok: "mapping_inv m" "\<not> disable_address_translation m" "\<forall>r \<in> set (get_regions m). region_valid r"
    using assms(2) by (simp_all add: space_ok_def sp)
  have "meter env sp' = meter env sp"
    using map_with_handler_host [OF step] assms(1) by (auto simp: handler_ok_def meter_def sp)
  moreover have "\<not> disable_address_translation m'"
    using ok(1,2) step
    by (cases rule: map_with_handler_cases) (use ok(2) in \<open>auto dest: find_region_fields replace_region_fields\<close>)
  moreover have "x \<noteq> Err (Fail InvalidInstruction)" using map_with_handler_error step by blast
  ultimately show ?thesis
    using map_with_handler_valid [OF ok _ step] assms(1) by (simp add: handler_ok_def space_ok_def sp)
qed

lemma wp_translate:
  assumes "space_ok (space s)"
    and acc: "\<And>x sp. access (space s) = (x, sp) \<Longrightarrow> space_kept env (space s) sp \<and> x \<noteq> Err Panic \<and> x \<noteq> Err (Fail InvalidInstruction)"
    and Q: "\<And>x sp. space_kept env (space s) sp \<Longrightarrow> Q x (s\<lparr>space := sp\<rparr>)"
    and E: "\<And>e sp. space_kept env (space s) sp \<Longrightarrow> e \<noteq> InvalidInstruction \<Longrightarrow>
      E (Fail ()) (s\<lparr>space := sp, registers := (registers s)[11 := reg s ! 11], program_result := Err e\<rparr>)"
  shows "wp (translate_memory_access access) Q E s"
proof -
  obtain x sp where Pair: "access (space s) = (x, sp)" by (rule prod.exhaust)
  show ?thesis
  proof (cases x)
    case (Ok a)
    then show ?thesis using Pair acc [OF Pair] Q by (simp add: wp_def translate_memory_access_def)
  next
    case (Err f)
    with acc [OF Pair] obtain e where "f = Fail e" "e \<noteq> InvalidInstruction" by (cases f) auto
    moreover have "wp (throw_error e) Q E (s\<lparr>space := sp\<rparr>)"
      using E [of sp e] acc [OF Pair] calculation by simp
    ultimately show ?thesis using Pair Err by (simp add: wp_def translate_memory_access_def)
  qed
qed

lemma load_kept:
  assumes "handler_ok env" "space_ok sp" "mapping_load (violation_handler env) n addr sp = (x, sp')"
  shows "space_kept env sp sp' \<and> x \<noteq> Err Panic \<and> x \<noteq> Err (Fail InvalidInstruction)"
proof -
  obtain y m' h' where step: "map_with_access_violation_handler (violation_handler env) Load addr (word_of_nat n) sp
      = (y, (m', h'))" by (metis surj_pair)
  show ?thesis
    using map_with_handler_kept [OF assms(1,2) step] assms(3) step
    by (cases sp; cases y) (auto simp: mapping_load_def bindM_def getsM_def space_kept_def)
qed

lemma store_kept:
  assumes "handler_ok env" "space_ok sp" "mapping_store (violation_handler env) n v addr sp = (x, sp')"
  shows "space_kept env sp sp' \<and> x \<noteq> Err Panic \<and> x \<noteq> Err (Fail InvalidInstruction)"
proof -
  obtain y m' h' where step: "map_with_access_violation_handler (violation_handler env) Store addr (word_of_nat n) sp
      = (y, (m', h'))" by (metis surj_pair)
  show ?thesis
    using map_with_handler_kept [OF assms(1,2) step] assms(3) step
    by (cases sp; cases y)
      (auto simp: mapping_store_def bindM_def seqM_def modifyM_def ret_def space_kept_def space_ok_def meter_def)
qed

lemmas effect_defs = local_effect_def machine_kept_def space_kept_def no_invalid_def

lemma local_armI:
  assumes "\<And>next_pc s. length (reg s) = 12 \<Longrightarrow> space_ok (space s) \<Longrightarrow>
     wp (a next_pc)
       (\<lambda>pc t. local_effect env s t \<and> (pc = next_pc \<or> jumps \<and> pc = next_pc + scast (off i)))
       (\<lambda>e t. e = Fail () \<and> no_invalid t \<and> local_effect env s t) s"
  shows "local_arm env jumps i a"
  using assms by (simp add: local_arm_def)

lemma local_alu:
  assumes "regs_ok i"
  shows "local_arm env J i (alu i f)" "local_arm env J i (alu_imm i g)" "local_arm env J i (alu_reg i g)"
    "local_arm env J i (mov_imm i f)" "local_arm env J i (mov_reg i f)"
  using assms
  by (auto intro!: local_armI
      simp: alu_def alu_imm_def alu_reg_def mov_imm_def mov_reg_def set_dst_def regs_ok_def effect_defs)

lemma local_div_reg:
  assumes "regs_ok i"
  shows "local_arm env J i (div_reg i z g)" "local_arm env J i (sdiv_reg i z ov g)"
  using assms
  by (auto intro!: local_armI
      simp: div_reg_def sdiv_reg_def alu_reg_def alu_def set_dst_def regs_ok_def effect_defs)

lemma local_div_imm:
  assumes "regs_ok i" "\<not> z (imm i)"
  shows "local_arm env J i (div_imm i z g)" "local_arm env J i (sdiv_imm i z ov g)"
  using assms
  by (auto intro!: local_armI
      simp: div_imm_def sdiv_imm_def alu_imm_def alu_def set_dst_def regs_ok_def effect_defs)

lemma local_endian:
  assumes "regs_ok i" "imm i = 16 \<or> imm i = 32 \<or> imm i = 64"
  shows "local_arm env J i (to_endian i f)"
  using assms by (auto intro!: local_armI simp: to_endian_def alu_def set_dst_def regs_ok_def effect_defs)

lemma local_jump:
  assumes "regs_ok i"
  shows "local_arm env True i (jump_always i)" "local_arm env True i (jump_imm i c)"
    "local_arm env True i (jump_reg i c)"
  using assms by (auto intro!: local_armI simp: jump_always_def jump_imm_def jump_reg_def regs_ok_def effect_defs)

lemma local_memory:
  assumes "handler_ok env" "regs_ok i"
  shows "local_arm env J i (load_reg env i n)" "local_arm env J i (store_imm env i n)"
    "local_arm env J i (store_reg env i n)"
  using assms
  by (auto intro!: local_armI wp_translate dest: load_kept [OF assms(1)] store_kept [OF assms(1)]
      simp: load_reg_def store_imm_def store_reg_def Let_def set_dst_def regs_ok_def local_effect_def machine_kept_def no_invalid_def)

lemma local_arms_member: "local_arms env v i arms \<Longrightarrow> (opc i, g, a) \<in> set arms \<Longrightarrow> g \<Longrightarrow> local_arm env (is_jump v (opc i)) i a"
  unfolding local_arms_def list_all_iff by blast

lemma local_tables:
  assumes "regs_ok i" "handler_ok env"
    and "divides_by_imm v (opc i) \<Longrightarrow> \<not> zero32 (imm i) \<and> \<not> zero64 (imm i)"
    and "swaps_bytes v (opc i) \<Longrightarrow> imm i = 16 \<or> imm i = 32 \<or> imm i = 64"
  shows "local_arms env v i (step_ldx env v i @ step_st env v i @ step_stx env v i
    @ step_alu32 env v i @ step_alu64 env v i @ step_pqr v i)"
proof -
  note rules = local_alu [OF assms(1)] local_div_reg [OF assms(1)] local_memory [OF assms(2,1)]
    local_div_imm [OF assms(1)] local_endian [OF assms(1)]
  note div = assms(3) [unfolded divides_by_imm_def] and sw = assms(4) [unfolded swaps_bytes_def]
  show ?thesis
    by (simp add: local_arms_def step_ldx_def step_st_def step_stx_def step_alu32_def step_alu64_def
        step_pqr_def rules div sw)
qed

lemma local_jumps:
  assumes "regs_ok i"
  shows "local_arms env v i (step_jmp32 v i @ step_jmp64 i)"
  by (simp add: local_arms_def step_jmp32_def step_jmp64_def is_jump_def class_values opcode_values
      local_jump [OF assms])

lemmas step_tables = step_arms_def step_ld_def step_ldx_def step_st_def step_stx_def step_alu32_def
  step_alu64_def step_pqr_def step_jmp32_def step_jmp64_def step_call_def

lemma step_arms_opcodes:
  "set (map fst (filter (fst \<circ> snd) (step_arms env ex v i)))
    = set (map fst (filter (fst \<circ> snd) (verify_arms v j)))"
  by (cases v) (simp_all add: step_tables verify_arms_def arms_defs version_gates
      insert_commute [of CALL_REG CALL_IMM])

lemma select_arm_opcodes:
  "select_arm c arms \<noteq> None \<longleftrightarrow> c \<in> set (map fst (filter (fst \<circ> snd) arms))"
  by (induction c arms rule: select_arm.induct) auto

lemma step_arms_local:
  assumes "regs_ok i" "handler_ok env"
    and "divides_by_imm v (opc i) \<Longrightarrow> \<not> zero32 (imm i) \<and> \<not> zero64 (imm i)"
    and "swaps_bytes v (opc i) \<Longrightarrow> imm i = 16 \<or> imm i = 32 \<or> imm i = 64"
    and "select_arm (opc i) (step_arms env ex v i) = Some a"
  obtains (local) "local_arm env (is_jump v (opc i)) i a"
    | (lddw) "is_lddw v (opc i)" "a = load_dw_imm ex i"
    | (call_reg) "opc i = CALL_REG" "a = call_reg ex i"
    | (call_imm) "opc i = CALL_IMM" "a = call_imm env ex i"
    | (exit) "opc i = EXIT" "a = exit_insn ex"
proof -
  from select_armD [OF assms(5)] obtain g where g: "(opc i, g, a) \<in> set (step_arms env ex v i)" g by blast
  let ?mid = "step_ldx env v i @ step_st env v i @ step_stx env v i @ step_alu32 env v i @ step_alu64 env v i
    @ step_pqr v i @ step_jmp32 v i @ step_jmp64 i"
  consider "(opc i, g, a) \<in> set (step_ld ex v i)" | "(opc i, g, a) \<in> set ?mid"
    | "(opc i, g, a) \<in> set (step_call env ex i)"
    using g(1) by (auto simp: step_arms_def)
  then show thesis
  proof cases
    case 2
    have "local_arms env v i ?mid"
      using local_tables [OF assms(1-4)] local_jumps [OF assms(1)] by (simp add: local_arms_def)
    from local_arms_member [OF this 2 g(2)] show ?thesis by (rule local)
  qed (use g(2) that in \<open>auto simp: step_ld_def step_call_def is_lddw_def\<close>)
qed

end
