(* ===== verification/Sbpf_Safety.thy ===== *)
theory Sbpf_Safety
  imports Sbpf_Arms
begin

text \<open>
  Verified programs run safely. A machine whose program has passed the verifier never panics, keeps its
  invariant at every step and ends within its instruction meter. The context object meets the contract of the locale
  \<open>context_object\<close>; the access-violation handler and the syscalls keep the memory mapping valid and give
  no compute units back.
\<close>

unbundle bit_operations_syntax

section \<open>Invariants\<close>

definition frames_ok :: "'w executable \<Rightarrow> 'w vm \<Rightarrow> bool" where
  "frames_ok ex s \<longleftrightarrow> unat (call_depth s) < max_call_depth (exec_config ex)
    \<and> max_call_depth (exec_config ex) \<le> length (call_frames s) \<and> length (call_frames s) < 2 ^ 64
    \<and> (\<forall>f \<in> set (call_frames s). length (caller_saved_registers f) = SCRATCH_REGS)
    \<and> (\<forall>k < unat (call_depth s).
         unat (target_pc (call_frames s ! k)) \<le> length (text_bytes ex) div INSN_SIZE)"

definition vm_core :: "'w executable \<Rightarrow> 'w vm \<Rightarrow> bool" where
  "vm_core ex s \<longleftrightarrow> length (reg s) = 12 \<and> length (registers s) = 12 \<and> frames_ok ex s \<and> space_ok (space s)"

definition meter_inv :: "'w environment \<Rightarrow> 'w executable \<Rightarrow> 'w vm \<Rightarrow> bool" where
  "meter_inv env ex s \<longleftrightarrow> (enable_instruction_meter (exec_config ex) \<longrightarrow>
     due_insn_count s \<le> previous_instruction_meter s \<and> meter env (space s) = previous_instruction_meter s)"

definition insns_left :: "'w vm \<Rightarrow> nat" where
  "insns_left s = unat (previous_instruction_meter s) - unat (due_insn_count s)"

definition continues :: "'w environment \<Rightarrow> 'w executable \<Rightarrow> 'w vm \<Rightarrow> u64 \<Rightarrow> 'w vm \<Rightarrow> bool" where
  "continues env ex s pc t \<longleftrightarrow> vm_core ex t \<and> meter_inv env ex t
    \<and> (enable_instruction_meter (exec_config ex) \<longrightarrow> insns_left t \<le> insns_left s)
    \<and> unat pc \<le> length (text_bytes ex) div INSN_SIZE"

definition ends :: "'w environment \<Rightarrow> 'w executable \<Rightarrow> 'w vm \<Rightarrow> unit failure \<Rightarrow> 'w vm \<Rightarrow> bool" where
  "ends env ex s e t \<longleftrightarrow> e = Fail () \<and> no_invalid t \<and> meter_inv env ex t
    \<and> (enable_instruction_meter (exec_config ex) \<longrightarrow> insns_left t \<le> insns_left s)"

definition arm_safe :: "'w environment \<Rightarrow> 'w executable \<Rightarrow> nat \<Rightarrow> 'w arm_run \<Rightarrow> bool" where
  "arm_safe env ex p a \<longleftrightarrow>
    (\<forall>s. vm_core ex s \<longrightarrow> meter_inv env ex s \<longrightarrow> reg s ! 11 = word_of_nat p \<longrightarrow>
      wp (a (word_of_nat (Suc p))) (continues env ex s) (ends env ex s) s)"

definition frame_pushed :: "'w executable \<Rightarrow> 'w vm \<Rightarrow> 'w vm \<Rightarrow> bool" where
  "frame_pushed ex s t \<longleftrightarrow>
    call_depth t = call_depth s + 1 \<and> unat (call_depth t) = Suc (unat (call_depth s))
    \<and> call_frames t = (call_frames s)[unat (call_depth s) :=
        \<lparr>caller_saved_registers = take 4 (drop 6 (reg s)), frame_pointer = reg s ! 10, target_pc = reg s ! 11 + 1\<rparr>]
    \<and> (\<exists>r10. reg t = (reg s)[10 := r10]) \<and> registers t = registers s \<and> space t = space s
    \<and> program_result t = program_result s
    \<and> previous_instruction_meter t = previous_instruction_meter s \<and> due_insn_count t = due_insn_count s"

definition syscalls_ok :: "'w environment \<Rightarrow> 'w executable \<Rightarrow> bool" where
  "syscalls_ok env ex \<longleftrightarrow>
    (\<forall>key name rust a b c d e sp. lookup_by_key (exec_loader ex) key = Some (name, rust) \<longrightarrow> space_ok sp \<longrightarrow>
       space_ok (snd (rust a b c d e sp)) \<and> meter env (snd (rust a b c d e sp)) \<le> meter env sp)"

definition syscall_effect :: "'w environment \<Rightarrow> 'w executable \<Rightarrow> 'w vm \<Rightarrow> 'w vm \<Rightarrow> bool" where
  "syscall_effect env ex s t \<longleftrightarrow> call_depth t = call_depth s \<and> call_frames t = call_frames s \<and> reg t = reg s
    \<and> length (registers t) = length (registers s) \<and> space_ok (space t) \<and> no_invalid t
    \<and> meter_inv env ex t \<and> (enable_instruction_meter (exec_config ex) \<longrightarrow> insns_left t \<le> insns_left s)"

definition resumed :: "'w environment \<Rightarrow> 'w executable \<Rightarrow> 'w vm \<Rightarrow> 'w vm \<Rightarrow> bool" where
  "resumed env ex s t \<longleftrightarrow> vm_core ex t \<and> meter_inv env ex t \<and> reg t ! 11 = reg s ! 11
    \<and> (enable_instruction_meter (exec_config ex) \<longrightarrow> insns_left t \<le> insns_left s)"

definition machine_ok :: "'w environment \<Rightarrow> 'w executable \<Rightarrow> 'w vm \<Rightarrow> bool" where
  "machine_ok env ex s \<longleftrightarrow> vm_core ex s \<and> meter_inv env ex s
    \<and> unat (reg s ! 11) \<le> length (text_bytes ex) div INSN_SIZE"

definition environment_ok :: "'w environment \<Rightarrow> 'w executable \<Rightarrow> bool" where
  "environment_ok env ex \<longleftrightarrow> handler_ok env \<and> context_object (consume env) (get_remaining env) \<and> syscalls_ok env ex"

definition verified :: "'w executable \<Rightarrow> bool" where
  "verified ex \<longleftrightarrow> length (text_bytes ex) < 2 ^ 63 \<and> verify (text_bytes ex) (exec_config ex) (exec_version ex) = Ok ()"

definition counted :: "'w executable \<Rightarrow> 'w vm \<Rightarrow> 'w vm" where
  "counted ex s = (let s = s\<lparr>due_insn_count := due_insn_count s + 1\<rparr>
     in if enable_register_tracing (exec_config ex) then s\<lparr>register_trace := register_trace s @ [reg s]\<rparr> else s)"

definition startable :: "'w executable \<Rightarrow> call_frame list \<Rightarrow> 'w vm \<Rightarrow> bool" where
  "startable ex frames s \<longleftrightarrow> call_depth s = 0 \<and> length (registers s) = 12 \<and> space_ok (space s)
    \<and> 0 < max_call_depth (exec_config ex) \<and> max_call_depth (exec_config ex) \<le> length frames
    \<and> length frames < 2 ^ 64 \<and> (\<forall>f \<in> set frames. length (caller_saved_registers f) = SCRATCH_REGS)
    \<and> unat (entrypoint ex) \<le> length (text_bytes ex) div INSN_SIZE"


text \<open>A machine about to run a program that calls a function which returns at once.\<close>

definition meter_environment :: "u64 environment" where
  "meter_environment = \<lparr>consume = (\<lambda>n w. saturating_sub w n), get_remaining = (\<lambda>w. w),
     violation_handler = default_access_violation_handler\<rparr>"

definition call_program :: bytes where
  "call_program = [0x85, 0x10, 0, 0, 1, 0, 0, 0, 0x95, 0, 0, 0, 0, 0, 0, 0,
    0xb7, 6, 0, 0, 42, 0, 0, 0, 0x95, 0, 0, 0, 0, 0, 0, 0]"

definition call_executable :: "u64 executable" where
  "call_executable = \<lparr>text_bytes = call_program, text_vm_addr = MM_BYTECODE_START, exec_version = V3,
     exec_config = default_config\<lparr>max_call_depth := 3\<rparr>, exec_functions = [], exec_loader = [], entrypoint = 0\<rparr>"

definition started_vm :: "u64 vm" where
  "started_vm = \<lparr>call_depth = 0, previous_instruction_meter = 10, due_insn_count = 0,
     registers = [0, 1, 2, 3, 4, 5, 6, 7, 8, 9, 10, 0], program_result = Ok 0, register_trace = [],
     space = (sample_mapping, \<lparr>mem = (\<lambda>_. 0), world = 10\<rparr>),
     call_frames = replicate 3 \<lparr>caller_saved_registers = [0, 0, 0, 0], frame_pointer = 0, target_pc = 0\<rparr>,
     reg = [0, 1, 2, 3, 4, 5, 6, 7, 8, 9, 10, 0]\<rparr>"


section \<open>Lemmas\<close>

lemmas ending_defs = ends_def no_invalid_def meter_inv_def insns_left_def

lemma local_effect_core:
  assumes "vm_core ex s" "local_effect env s t"
  shows "vm_core ex t" "meter_inv env ex s \<Longrightarrow> meter_inv env ex t" "insns_left t = insns_left s"
  using assms
  by (auto simp: vm_core_def frames_ok_def effect_defs meter_inv_def insns_left_def)

lemma unat_next_pc:
  assumes "length prog < 2 ^ 63" "p < length prog div INSN_SIZE"
  shows "unat (word_of_nat p :: u64) = p" "unat (word_of_nat (Suc p) :: u64) = Suc p"
  using assms by (auto simp: unat_of_nat layout_defs simp del: of_nat_Suc)

lemma jump_lands:
  assumes "0 \<le> jump_target p i" "jump_target p i < int n" "n < 2 ^ 63"
  shows "unat (word_of_nat (Suc p) + scast (off i) :: u64) < n"
proof -
  have "word_of_nat (Suc p) + scast (off i) = (word_of_int (jump_target p i) :: u64)"
    by (simp only: jump_target_def scast_eq of_int_add of_int_of_nat_eq of_int_1 of_nat_Suc ac_simps)
  also have "\<dots> = word_of_nat (nat (jump_target p i))" using assms(1) by simp
  finally show ?thesis using assms by (simp only: unat_of_nat) (simp add: nat_less_iff)
qed

lemma local_arm_safe:
  assumes "length (text_bytes ex) < 2 ^ 63" "p < length (text_bytes ex) div INSN_SIZE"
    and "J \<Longrightarrow> 0 \<le> jump_target p i \<and> jump_target p i < int (length (text_bytes ex) div INSN_SIZE)"
    and local: "local_arm env J i a"
  shows "arm_safe env ex p a"
  unfolding arm_safe_def
proof (intro allI impI)
  fix s assume s: "vm_core ex s" "meter_inv env ex s" "reg s ! 11 = word_of_nat p"
  have target: "unat pc \<le> length (text_bytes ex) div INSN_SIZE"
    if "pc = word_of_nat (Suc p) \<or> J \<and> pc = word_of_nat (Suc p) + scast (off i)" for pc :: u64
    using that
  proof
    assume "pc = word_of_nat (Suc p)"
    then show ?thesis using unat_next_pc [OF assms(1,2)] assms(2) by simp
  next
    assume "J \<and> pc = word_of_nat (Suc p) + scast (off i)"
    moreover have "length (text_bytes ex) div INSN_SIZE < 2 ^ 63" using assms(1) by (simp add: layout_defs)
    ultimately show ?thesis using jump_lands assms(3) by (metis less_imp_le)
  qed
  have "wp (a (word_of_nat (Suc p)))
       (\<lambda>pc t. local_effect env s t \<and> (pc = word_of_nat (Suc p) \<or> J \<and> pc = word_of_nat (Suc p) + scast (off i)))
       (\<lambda>e t. e = Fail () \<and> no_invalid t \<and> local_effect env s t) s"
    using local s(1) by (simp add: local_arm_def vm_core_def)
  then show "wp (a (word_of_nat (Suc p))) (continues env ex s) (ends env ex s) s"
  proof (rule wp_mono)
    fix pc :: u64 and t
    assume "local_effect env s t \<and> (pc = word_of_nat (Suc p) \<or> J \<and> pc = word_of_nat (Suc p) + scast (off i))"
    then show "continues env ex s pc t"
      using local_effect_core [OF s(1), of env t] s(2) target [of pc] by (simp add: continues_def)
  next
    fix e t
    assume "e = Fail () \<and> no_invalid t \<and> local_effect env s t"
    then show "ends env ex s e t"
      using local_effect_core [OF s(1), of env t] s(2) by (simp add: ends_def)
  qed
qed

lemma wp_push_frame:
  assumes "vm_core ex s"
    and "\<And>t. frame_pushed ex s t \<Longrightarrow> unat (call_depth t) < max_call_depth (exec_config ex) \<Longrightarrow> Q () t"
    and "\<And>t. program_result t = Err CallDepthExceeded \<Longrightarrow>
       space t = space s \<Longrightarrow> previous_instruction_meter t = previous_instruction_meter s \<Longrightarrow>
       due_insn_count t = due_insn_count s \<Longrightarrow> E (Fail ()) t"
  shows "wp (push_frame ex) Q E s"
proof -
  let ?d = "unat (call_depth s)"
  have d: "?d < max_call_depth (exec_config ex)" "?d < length (call_frames s)" "Suc ?d < 2 ^ 64"
    using assms(1) by (simp_all add: vm_core_def frames_ok_def)
  have up: "unat (call_depth s + 1) = Suc ?d" using d(3) by (simp add: unat_word_ariths)
  let ?frame = "\<lparr>caller_saved_registers = take 4 (drop 6 (reg s)), frame_pointer = reg s ! 10, target_pc = reg s ! 11 + 1\<rparr>"
  let ?s = "s\<lparr>call_frames := (call_frames s)[?d := ?frame], call_depth := call_depth s + 1\<rparr>"
  have wp_push: "wp (push_frame ex) Q E s =
    (if Suc ?d = max_call_depth (exec_config ex) then wp (throw_error CallDepthExceeded) Q E ?s
     else if manual_stack_frame_bump (exec_version ex) then Q () ?s
     else Q () (?s\<lparr>reg := (reg s)[10 := reg s ! 10 + word_of_nat (stack_frame_size (exec_config ex) *
       (if stack_frame_gaps (exec_version ex) \<and> enable_stack_frame_gaps (exec_config ex) then 2 else 1))]\<rparr>))"
    using d(2) up by (simp add: wp_def push_frame_def Let_def layout_defs)
  have "frame_pushed ex s ?s" using up by (simp add: frame_pushed_def) (metis list_update_id)
  moreover have "frame_pushed ex s (?s\<lparr>reg := (reg s)[10 := x]\<rparr>)" for x using up by (auto simp: frame_pushed_def)
  ultimately show ?thesis unfolding wp_push using assms(2) [of ?s] assms(2) assms(3) d(1) up by simp
qed

lemma frame_pushed_core:
  assumes "vm_core ex s" "frame_pushed ex s t" "unat (call_depth t) < max_call_depth (exec_config ex)"
    and "unat (reg s ! 11 + 1) \<le> length (text_bytes ex) div INSN_SIZE"
  shows "vm_core ex t" "reg t ! 11 = reg s ! 11" "meter_inv env ex t = meter_inv env ex s"
    "insns_left t = insns_left s"
proof -
  have "set (call_frames t) \<subseteq> insert \<lparr>caller_saved_registers = take 4 (drop 6 (reg s)),
      frame_pointer = reg s ! 10, target_pc = reg s ! 11 + 1\<rparr> (set (call_frames s))"
    using assms(2) by (simp add: frame_pushed_def set_update_subset_insert)
  then have "\<forall>f \<in> set (call_frames t). length (caller_saved_registers f) = SCRATCH_REGS"
    using assms(1) by (auto simp: vm_core_def frames_ok_def layout_defs)
  moreover have "unat (target_pc (call_frames t ! k)) \<le> length (text_bytes ex) div INSN_SIZE"
    if "k < unat (call_depth t)" for k
    using that assms(1,2,4) by (cases "k = unat (call_depth s)") (auto simp: frame_pushed_def vm_core_def frames_ok_def)
  ultimately show "vm_core ex t"
    using assms(1-3) by (auto simp: vm_core_def frames_ok_def frame_pushed_def)
qed (use assms(2) in \<open>auto simp: frame_pushed_def meter_inv_def insns_left_def\<close>)

lemma space_ok_world [simp]: "space_ok (m, h\<lparr>world := w\<rparr>) = space_ok (m, h)"
  by (simp add: space_ok_def)

lemma dispatch_syscall_effect:
  assumes "context_object (consume env) (get_remaining env)" "syscalls_ok env ex" "lookup_by_key (exec_loader ex) key = Some (name, rust)"
    and "vm_core ex s" "meter_inv env ex s"
  shows "syscall_effect env ex s (dispatch_syscall env ex rust s)"
proof -
  let ?on = "enable_instruction_meter (exec_config ex)"
  obtain m h where sp: "space s = (m, h)" by (rule prod.exhaust)
  let ?r = "take 6 (reg s) @ drop 6 (registers s)"
  let ?h = "if ?on then h\<lparr>world := consume env (due_insn_count s) (world h)\<rparr> else h"
  obtain res m' h' where rust: "rust (?r ! 1) (?r ! 2) (?r ! 3) (?r ! 4) (?r ! 5) (m, ?h) = (res, (m', h'))"
    by (metis surj_pair)
  have ok: "space_ok (m, ?h)" using assms(4) by (simp add: vm_core_def sp)
  then have post: "space_ok (m', h')" "meter env (m', h') \<le> meter env (m, ?h)"
    using assms(2,3) rust unfolding syscalls_ok_def by (metis snd_conv)+
  have eq: "dispatch_syscall env ex rust s = s\<lparr>registers := ?r, space := (m', h'),
      program_result := (case res of Ok x \<Rightarrow> Ok x | Err e \<Rightarrow> Err (SyscallError e)), due_insn_count := 0,
      previous_instruction_meter := if ?on then meter env (m', h') else previous_instruction_meter s\<rparr>"
    using rust by (cases ?on) (simp_all add: dispatch_syscall_def syscall_vm_def sp meter_def Let_def del: One_nat_def)
  have "unat (meter env (m', h')) \<le> insns_left s" if ?on
    using that post(2) assms(5) context_object.unat_remaining [OF assms(1)]
    by (simp add: meter_def meter_inv_def insns_left_def sp word_le_nat_alt)
  moreover have "length ?r = length (registers s)" using assms(4) by (simp add: vm_core_def)
  ultimately show ?thesis
    using post(1) by (simp add: syscall_effect_def eq no_invalid_def meter_inv_def insns_left_def split: result.splits)
qed

lemma load_dw_safe:
  assumes "length (text_bytes ex) < 2 ^ 63" "8 dvd length (text_bytes ex)"
    and "Suc p < length (text_bytes ex) div INSN_SIZE" "regs_ok i" "ptr i = word_of_nat p"
  shows "arm_safe env ex p (load_dw_imm ex i)"
proof -
  have next_pc: "unat (word_of_nat (Suc p) + 1 :: u64) = Suc (Suc p)"
    using unat_next_pc(2) [OF assms(1,3)] by (simp add: add.commute)
  have "insn_offset (ptr i + 1) = 8 * Suc p"
    using assms insn_offset_of_nat [of "Suc p"] by (simp add: layout_defs add.commute)
  then have "augment_lddw_unchecked (text_bytes ex) i \<noteq> None"
    using assms(3) by (simp add: augment_lddw_unchecked_def layout_defs Let_def)
  then obtain j where j: "augment_lddw_unchecked (text_bytes ex) i = Some j" "dst j = dst i"
    by (auto simp: augment_lddw_unchecked_def Let_def split: if_splits)
  show ?thesis
    using assms(3,4) next_pc
    by (auto simp: arm_safe_def load_dw_imm_def j regs_ok_def vm_core_def frames_ok_def continues_def meter_inv_def insns_left_def
       simp del: of_nat_Suc)
qed

lemma check_pc_safe [simp]:
  "wp (check_pc ex pc) Q E s =
    (if is_pc_in_program (text_bytes ex) pc then Q pc s
     else E (Fail ()) (s\<lparr>registers := (registers s)[11 := reg s ! 11], program_result := Err CallOutsideTextSegment\<rparr>))"
  by (simp add: check_pc_def)

lemma pc_in_program_bound:
  assumes "length prog < 2 ^ 63" "is_pc_in_program prog pc"
  shows "unat pc \<le> length prog div INSN_SIZE"
  using assms by (simp add: is_pc_in_program_iff layout_defs)

lemma call_reg_safe:
  assumes "length (text_bytes ex) < 2 ^ 63" "p < length (text_bytes ex) div INSN_SIZE" "regs_ok i"
    and "0 \<le> callx_register (exec_version ex) i" "callx_register (exec_version ex) i < 10"
  shows "arm_safe env ex p (call_reg ex i)"
  unfolding arm_safe_def
proof (intro allI impI)
  fix s assume s: "vm_core ex s" "meter_inv env ex s" "reg s ! 11 = word_of_nat p"
  have "unat (imm i) < 12" if "0 \<le> sint (imm i)" "sint (imm i) < 10"
  proof -
    have "uint (imm i) = sint (imm i)" using that by (simp only: uint_sint) (simp add: take_bit_int_eq_self)
    then show ?thesis using that by (simp add: unat_eq_nat_uint)
  qed
  then have reg: "(if callx_uses_src_reg (exec_version ex) then unat (src i)
      else if callx_uses_dst_reg (exec_version ex) then unat (dst i) else unat (imm i)) < length (reg s)"
    using assms(3-5) s(1) by (auto simp: callx_register_def regs_ok_def vm_core_def split: if_splits)
  have pc: "unat (reg s ! 11 + 1) \<le> length (text_bytes ex) div INSN_SIZE"
    using unat_next_pc(2) [OF assms(1,2)] assms(2) s(3) by (simp add: add.commute)
  note pushed = frame_pushed_core [OF s(1) _ _ pc]
  show "wp (call_reg ex i (word_of_nat (Suc p))) (continues env ex s) (ends env ex s) s"
    unfolding call_reg_def wp_bindM wp_get_reg [OF reg] wp_seqM
    by (rule wp_push_frame [OF s(1)])
      (use s(2) pushed pc_in_program_bound [OF assms(1)] in \<open>auto simp: continues_def ending_defs\<close>)
qed

lemma exit_safe:
  assumes "length (text_bytes ex) < 2 ^ 63"
  shows "arm_safe env ex p (exit_insn ex)"
  unfolding arm_safe_def
proof (intro allI impI)
  fix s assume s: "vm_core ex s" "meter_inv env ex s" "reg s ! 11 = word_of_nat p"
  show "wp (exit_insn ex (word_of_nat (Suc p))) (continues env ex s) (ends env ex s) s"
  proof (cases "call_depth s = 0")
    case True
    then show ?thesis using s(2)
      by (auto simp: wp_def exit_insn_def throw_error_def monad_defs ending_defs)
  next
    case False
    then have down: "unat (call_depth s - 1) = unat (call_depth s) - 1" "0 < unat (call_depth s)"
      by (simp_all add: unat_minus_one unat_gt_0)
    have "unat (call_depth s) - 1 < length (call_frames s)"
      using s(1) down(2) by (auto simp: vm_core_def frames_ok_def)
    moreover from this have "length (caller_saved_registers (call_frames s ! (unat (call_depth s) - 1))) = 4"
      using s(1) by (simp add: vm_core_def frames_ok_def layout_defs)
    ultimately show ?thesis using False down s
      by (auto simp: wp_def exit_insn_def Let_def vm_core_def frames_ok_def continues_def meter_inv_def insns_left_def layout_defs)
  qed
qed

lemma wp_external_call:
  assumes env: "context_object (consume env) (get_remaining env)" "syscalls_ok env ex"
    and s: "vm_core ex s" "meter_inv env ex s"
    and Q: "\<And>b t. resumed env ex s t \<Longrightarrow> Q b t"
    and E: "\<And>t. ends env ex s (Fail ()) t \<Longrightarrow> E (Fail ()) t"
  shows "wp (external_call env ex i) Q E s"
proof (cases "\<not> static_syscalls (exec_version ex) \<or> src i = 0")
  case True
  show ?thesis
  proof (cases "lookup_by_key (exec_loader ex) (ucast (imm i))")
    case None
    then show ?thesis using True s Q [of s] by (simp add: external_call_def resumed_def)
  next
    case (Some nr)
    obtain name rust where nr: "nr = (name, rust)" by (rule prod.exhaust)
    let ?t = "dispatch_syscall env ex rust s"
    have t: "syscall_effect env ex s ?t" using dispatch_syscall_effect [OF env] Some nr s by blast
    have "resumed env ex s (?t\<lparr>reg := (reg ?t)[0 := x]\<rparr>)" for x
      using t s(1) by (auto simp: resumed_def syscall_effect_def vm_core_def frames_ok_def meter_inv_def insns_left_def)
    moreover have "0 < length (reg ?t)" using t s(1) by (simp add: syscall_effect_def vm_core_def)
    moreover have "E (Fail ()) ?t" using t E by (simp add: syscall_effect_def ends_def)
    ultimately show ?thesis using True Some nr Q by (simp add: external_call_def split: result.split)
  qed
next
  case False
  then show ?thesis using s Q [of s] by (simp add: external_call_def resumed_def)
qed

lemma wp_internal_call:
  assumes len: "length (text_bytes ex) < 2 ^ 63"
    and s: "vm_core ex s" "meter_inv env ex s"
    and pc: "unat (reg s ! 11 + 1) \<le> length (text_bytes ex) div INSN_SIZE"
    and Q: "\<And>t pc b. resumed env ex s t \<Longrightarrow> pc = next_pc \<or> unat pc \<le> length (text_bytes ex) div INSN_SIZE \<Longrightarrow> Q (pc, b) t"
    and E: "\<And>t. ends env ex s (Fail ()) t \<Longrightarrow> E (Fail ()) t"
  shows "wp (internal_call ex i next_pc resolved) Q E s"
proof -
  have same: "resumed env ex s s" using s by (simp add: resumed_def)
  have pushed: "resumed env ex s t"
    if "frame_pushed ex s t" "unat (call_depth t) < max_call_depth (exec_config ex)" for t
    using frame_pushed_core [OF s(1) that pc] s(2) by (simp add: resumed_def)
  have deep: "E (Fail ()) t" if "program_result t = Err CallDepthExceeded" "space t = space s"
    "previous_instruction_meter t = previous_instruction_meter s" "due_insn_count t = due_insn_count s" for t
    using that s(2) by (intro E) (simp add: ending_defs)
  have outside: "E (Fail ()) (t\<lparr>registers := r, program_result := Err CallOutsideTextSegment\<rparr>)"
    if "resumed env ex s t" for t r
    using that by (intro E) (simp add: ending_defs resumed_def)
  note bound = pc_in_program_bound [OF len]
  show ?thesis
  proof (cases "static_syscalls (exec_version ex)")
    case True
    then show ?thesis
      using same bound by (auto simp: internal_call_def Let_def intro!: wp_push_frame [OF s(1)] Q pushed deep)
  next
    case False
    then show ?thesis
      using same bound by (auto simp: internal_call_def intro!: wp_push_frame [OF s(1)] Q pushed deep outside split: option.split)
  qed
qed

lemma call_imm_safe:
  assumes "length (text_bytes ex) < 2 ^ 63" "p < length (text_bytes ex) div INSN_SIZE"
    and env: "context_object (consume env) (get_remaining env)" "syscalls_ok env ex"
  shows "arm_safe env ex p (call_imm env ex i)"
  unfolding arm_safe_def
proof (intro allI impI)
  fix s assume s: "vm_core ex s" "meter_inv env ex s" "reg s ! 11 = word_of_nat p"
  have next_pc: "unat (word_of_nat (Suc p) :: u64) \<le> length (text_bytes ex) div INSN_SIZE"
    using unat_next_pc(2) [OF assms(1,2)] assms(2) by simp
  show "wp (call_imm env ex i (word_of_nat (Suc p))) (continues env ex s) (ends env ex s) s"
    unfolding call_imm_def wp_bindM
  proof (rule wp_external_call [OF env s(1,2)])
    fix b t assume t: "resumed env ex s t"
    then have pc: "unat (reg t ! 11 + 1) \<le> length (text_bytes ex) div INSN_SIZE"
      using next_pc s(3) by (simp add: resumed_def add.commute)
    from t have inv: "vm_core ex t" "meter_inv env ex t" by (simp_all add: resumed_def)
    show "wp (internal_call ex i (word_of_nat (Suc p)) b)
        (\<lambda>x. wp ((\<lambda>(pc, resolved). if \<not> resolved then throw_error UnsupportedInstruction else ret pc) x)
          (continues env ex s)
          (ends env ex s))
        (ends env ex s) t"
      by (rule wp_internal_call [OF assms(1) inv pc])
        (use t next_pc in \<open>auto simp: resumed_def continues_def ending_defs simp del: of_nat_Suc\<close>)
  qed simp
qed

lemma known_step_arm:
  "select_arm (opc i) (step_arms env ex v i) = None \<longleftrightarrow> \<not> known_opcode v i"
  using select_arm_opcodes [of "opc i" "step_arms env ex v i"] select_arm_opcodes [of "opc i" "verify_arms v i"]
  unfolding known_opcode_def step_arms_opcodes [of env ex v i i] by blast

lemma imm_nonzero_words:
  assumes "get_insn_unchecked prog pc = Some i" "imm i \<noteq> 0"
  shows "\<not> zero32 (imm i) \<and> \<not> zero64 (imm i)"
  using insn_imm_scast [OF assms(1)] assms(2) by (metis scast_0 zero32_def zero64_def)

lemma verified_slot:
  assumes "verified ex" "p < length (text_bytes ex) div INSN_SIZE"
  obtains (second_half) i where "get_insn (text_bytes ex) (word_of_nat p) = Some i" "opc i = 0"
    | (insn) i where "get_insn (text_bytes ex) (word_of_nat p) = Some i"
        "insn_well_formed (text_bytes ex) (exec_version ex) p i"
proof -
  have len: "length (text_bytes ex) < 2 ^ 63" using assms(1) by (simp add: verified_def)
  obtain i where i: "get_insn (text_bytes ex) (word_of_nat p) = Some i" "opc i = opcode_at (text_bytes ex) p"
    using get_insn_slot [OF len assms(2)] by blast
  then have "slot_well_formed (text_bytes ex) (exec_version ex) p"
    using assms verify_accepts by (metis verified_def)
  with i that show thesis by (auto simp: slot_well_formed_def split: if_splits)
qed

lemma verified_whole: "verified ex \<Longrightarrow> 8 dvd length (text_bytes ex)"
  using verify_accepts [of "text_bytes ex" "exec_config ex" "exec_version ex"]
  by (auto simp: verified_def check_prog_len_def layout_defs dvd_eq_mod_eq_0 split: if_splits)

text \<open>What the verifier guarantees about the instruction in a slot, by the arm that executes it.\<close>

lemma verified_insn_cases:
  assumes ex: "verified ex" and env: "handler_ok env" and p: "p < length (text_bytes ex) div INSN_SIZE"
    and get: "get_insn_unchecked (text_bytes ex) (word_of_nat p) = Some i"
  obtains (unknown) "step_insn env ex i = (\<lambda>next_pc. throw_error UnsupportedInstruction)"
    | (local) "local_arm env (is_jump (exec_version ex) (opc i)) i (step_insn env ex i)"
        "is_jump (exec_version ex) (opc i) \<Longrightarrow>
          0 \<le> jump_target p i \<and> jump_target p i < int (length (text_bytes ex) div INSN_SIZE)"
    | (lddw) "step_insn env ex i = load_dw_imm ex i" "Suc p < length (text_bytes ex) div INSN_SIZE" "regs_ok i"
        "ptr i = word_of_nat p"
    | (call_reg) "step_insn env ex i = call_reg ex i" "regs_ok i"
        "0 \<le> callx_register (exec_version ex) i" "callx_register (exec_version ex) i < 10"
    | (call_imm) "step_insn env ex i = call_imm env ex i"
    | (exit) "step_insn env ex i = exit_insn ex"
  using ex p
proof (cases rule: verified_slot)
  case (second_half j)
  then have "opc i = 0" using get by (simp add: get_insn_def split: if_splits)
  then have "select_arm (opc i) (step_arms env ex (exec_version ex) i) = None"
    using known_opcode_nonzero known_step_arm by blast
  then show thesis by (intro unknown) (simp add: step_insn_def)
next
  case (insn j)
  let ?v = "exec_version ex"
  have wf: "insn_well_formed (text_bytes ex) ?v p i" using insn get by (simp add: get_insn_def split: if_splits)
  then have "known_opcode ?v i" by (simp add: insn_well_formed_def)
  then obtain a where a: "select_arm (opc i) (step_arms env ex ?v i) = Some a"
    using known_step_arm by (metis not_None_eq)
  then have run: "step_insn env ex i = a" by (simp add: step_insn_def)
  have regs: "regs_ok i" using wf by (auto simp: insn_well_formed_def regs_ok_def word_le_nat_alt)
  have div: "divides_by_imm ?v (opc i) \<Longrightarrow> \<not> zero32 (imm i) \<and> \<not> zero64 (imm i)"
    using wf imm_nonzero_words [OF get] by (simp add: insn_well_formed_def)
  have sw: "swaps_bytes ?v (opc i) \<Longrightarrow> imm i = 16 \<or> imm i = 32 \<or> imm i = 64"
    using wf by (simp add: insn_well_formed_def)
  have ptr: "ptr i = word_of_nat p" using get by (auto simp: get_insn_unchecked_def Let_def split: if_splits)
  show thesis
    using that run regs ptr wf
    by (cases rule: step_arms_local [OF regs env div sw a]) (simp_all add: insn_well_formed_def)
qed

lemma verified_arm_safe:
  assumes ex: "verified ex" and env: "environment_ok env ex" and p: "p < length (text_bytes ex) div INSN_SIZE"
    and get: "get_insn_unchecked (text_bytes ex) (word_of_nat p) = Some i"
  shows "arm_safe env ex p (step_insn env ex i)"
proof -
  have len: "length (text_bytes ex) < 2 ^ 63" and handler: "handler_ok env"
    and ctx: "context_object (consume env) (get_remaining env)" "syscalls_ok env ex"
    using ex env by (simp_all add: verified_def environment_ok_def)
  from ex handler p get show ?thesis
  proof (cases rule: verified_insn_cases)
    case unknown
    then show ?thesis by (simp add: arm_safe_def ending_defs)
  next
    case local
    then show ?thesis using local_arm_safe [OF len p] by blast
  qed (simp_all add: load_dw_safe [OF len verified_whole [OF ex]] call_reg_safe [OF len p]
      call_imm_safe [OF len p ctx] exit_safe [OF len])
qed

lemma verified_insn:
  assumes "verified ex" "p < length (text_bytes ex) div INSN_SIZE"
  shows "\<exists>i. get_insn_unchecked (text_bytes ex) (word_of_nat p) = Some i"
  using assms by (cases rule: verified_slot) (auto simp: get_insn_def split: if_splits)

lemma wp_step:
  "wp (step env ex) Q E s =
    (if enable_instruction_meter (exec_config ex) \<and> due_insn_count s \<ge> previous_instruction_meter s
     then wp (throw_error ExceededMaxInstructions) Q E s
     else if insn_offset (reg s ! 11) \<ge> length (text_bytes ex)
     then wp (throw_error ExecutionOverrun) Q E (s\<lparr>due_insn_count := due_insn_count s + 1\<rparr>)
     else case get_insn_unchecked (text_bytes ex) (reg s ! 11) of
       None \<Rightarrow> wp panic Q E (s\<lparr>due_insn_count := due_insn_count s + 1\<rparr>)
     | Some i \<Rightarrow> wp (step_insn env ex i (reg s ! 11 + 1)) (\<lambda>pc. wp (set_reg 11 pc) Q E) E (counted ex s))"
  unfolding wp_bindM [symmetric] wp_def step_def counted_def Let_def
  by (simp split: option.split)

lemma counted_fields:
  "reg (counted ex s) = reg s" "due_insn_count (counted ex s) = due_insn_count s + 1"
  "previous_instruction_meter (counted ex s) = previous_instruction_meter s"
  "vm_core ex (counted ex s) = vm_core ex s" "space (counted ex s) = space s"
  by (simp_all add: counted_def Let_def vm_core_def frames_ok_def)

lemma counted_meter:
  assumes "meter_inv env ex s"
    and "\<not> (enable_instruction_meter (exec_config ex) \<and> due_insn_count s \<ge> previous_instruction_meter s)"
  shows "meter_inv env ex (s\<lparr>due_insn_count := due_insn_count s + 1\<rparr>)" "meter_inv env ex (counted ex s)"
    "enable_instruction_meter (exec_config ex) \<Longrightarrow> insns_left (counted ex s) < insns_left s"
proof -
  have "due_insn_count s + 1 \<le> previous_instruction_meter s \<and> unat (due_insn_count s + 1) = Suc (unat (due_insn_count s))"
    if "due_insn_count s < previous_instruction_meter s"
  proof -
    have "unat (previous_instruction_meter s) < 2 ^ LENGTH(64)" by (rule unsigned_less)
    then have "unat (due_insn_count s + 1) = Suc (unat (due_insn_count s))"
      using that by (simp add: unat_word_ariths word_less_nat_alt)
    then show ?thesis using that by (simp add: word_le_nat_alt word_less_nat_alt)
  qed
  then show "meter_inv env ex (s\<lparr>due_insn_count := due_insn_count s + 1\<rparr>)" "meter_inv env ex (counted ex s)"
    "enable_instruction_meter (exec_config ex) \<Longrightarrow> insns_left (counted ex s) < insns_left s"
    using assms by (auto simp: meter_inv_def insns_left_def counted_fields not_le word_less_nat_alt)
qed

lemma step_safe:
  assumes ex: "verified ex" and env: "environment_ok env ex" and s: "machine_ok env ex s"
  shows "wp (step env ex)
    (\<lambda>_ t. machine_ok env ex t \<and> (enable_instruction_meter (exec_config ex) \<longrightarrow> insns_left t < insns_left s))
    (ends env ex s) s"
proof (cases "enable_instruction_meter (exec_config ex) \<and> due_insn_count s \<ge> previous_instruction_meter s")
  case True
  then show ?thesis using s by (simp add: wp_step machine_ok_def ending_defs)
next
  case metered: False
  let ?n = "length (text_bytes ex) div INSN_SIZE" and ?pc = "reg s ! 11"
  have core: "vm_core ex s" and meter: "meter_inv env ex s" and pc: "unat ?pc \<le> ?n"
    using s by (simp_all add: machine_ok_def)
  have len: "length (text_bytes ex) < 2 ^ 63" "length (text_bytes ex) = 8 * ?n"
    using ex verified_whole [OF ex] by (auto simp: verified_def layout_defs)
  note c = counted_meter [OF meter metered]
  have off: "insn_offset ?pc = 8 * unat ?pc" using pc len by (intro insn_offset_small) (simp add: layout_defs)
  show ?thesis
  proof (cases "unat ?pc < ?n")
    case False
    then show ?thesis using c metered off len(2)
      by (auto simp: wp_step ending_defs counted_fields)
  next
    case True
    obtain i where i: "get_insn_unchecked (text_bytes ex) ?pc = Some i"
      "arm_safe env ex (unat ?pc) (step_insn env ex i)"
      using verified_insn [OF ex True] verified_arm_safe [OF ex env True] by auto
    have "wp (step_insn env ex i (?pc + 1))
        (continues env ex (counted ex s))
        (ends env ex (counted ex s)) (counted ex s)"
      using i(2) core c(2) by (simp add: arm_safe_def counted_fields add.commute)
    then have "wp (step_insn env ex i (?pc + 1))
        (\<lambda>pc. wp (set_reg 11 pc) (\<lambda>_ t. machine_ok env ex t
            \<and> (enable_instruction_meter (exec_config ex) \<longrightarrow> insns_left t < insns_left s))
          (ends env ex s))
        (ends env ex s) (counted ex s)"
      by (rule wp_mono)
        (use c(3) in \<open>auto simp: continues_def ends_def vm_core_def machine_ok_def frames_ok_def meter_inv_def insns_left_def\<close>)
    then show ?thesis using metered off True len(2) i(1) by (auto simp: wp_step)
  qed
qed

lemma run_safe:
  assumes ex: "verified ex" "environment_ok env ex" "enable_instruction_meter (exec_config ex)"
    and "machine_ok env ex s" "insns_left s < fuel"
  shows "\<exists>t. run_interpreter fuel env ex s = Some (Fail (), t) \<and> ends env ex s (Fail ()) t"
  using assms(4,5)
proof (induction fuel arbitrary: s)
  case (Suc fuel)
  note safe = step_safe [OF ex(1,2) Suc.prems(1)]
  obtain r t where step: "step env ex s = (r, t)" by (rule prod.exhaust)
  show ?case
  proof (cases r)
    case (Ok u)
    then have "machine_ok env ex t" "insns_left t < insns_left s"
      using wp_OkD [OF safe] step ex(3) by auto
    then show ?thesis using Suc.IH [of t] Suc.prems(2) step Ok by (auto simp: ends_def ex(3))
  next
    case (Err e)
    then show ?thesis using wp_ErrD [OF safe] step by (auto simp: ends_def)
  qed
qed simp


section \<open>A concrete machine\<close>

lemma call_executable_verified: "verified call_executable"
proof -
  have "verify call_program default_config V3 = Ok ()" 
    by (simp add: call_program_def verify_eval version_gates cong: bindR_cong_weak option.case_cong_weak result.case_cong_weak)
  then show ?thesis by (simp add: verified_def call_executable_def verify_def) (simp add: call_program_def)
qed

lemma meter_environment_ok: "environment_ok meter_environment call_executable"
  by (auto simp: environment_ok_def handler_ok_def handler_keeps_valid_def meter_environment_def
      default_access_violation_handler_def context_object_def syscalls_ok_def call_executable_def lookup_by_key_def)

lemma started_machine: "machine_ok meter_environment call_executable started_vm"
  by (simp add: machine_ok_def vm_core_def frames_ok_def started_vm_def call_executable_def layout_defs meter_inv_def
     meter_def meter_environment_def space_ok_def translate_eval)

section \<open>Properties\<close>

text \<open>
  C1. A step of a verified program never panics, whatever the registers and the memory hold. When it goes
  on, the machine keeps its invariant (register file, call depth and frames in range, program counter
  inside the program, valid mapping) and has fewer instructions left; when it stops, the error is never
  an invalid instruction.
\<close>
theorem verified_step_safe:
  assumes "verified ex" "environment_ok env ex" "machine_ok env ex s" "step env ex s = (r, t)"
  shows "r \<noteq> Err Panic
    \<and> (r = Ok () \<longrightarrow> machine_ok env ex t
         \<and> (enable_instruction_meter (exec_config ex) \<longrightarrow> insns_left t < insns_left s))
    \<and> (r \<noteq> Ok () \<longrightarrow> program_result t \<noteq> Err InvalidInstruction)"
proof (cases r)
  case (Ok u)
  then show ?thesis using wp_OkD [OF step_safe [OF assms(1-3)]] assms(4) by simp
next
  case (Err e)
  then show ?thesis using wp_ErrD [OF step_safe [OF assms(1-3)]] assms(4) by (auto simp: ends_def no_invalid_def)
qed

theorem verified_step_safe_witness:
  "fst (step meter_environment call_executable started_vm) \<noteq> Err Panic"
  using verified_step_safe [OF call_executable_verified meter_environment_ok started_machine surjective_pairing]
  by blast

text \<open>
  C2. The execution of a verified program ends: with more fuel than the context object has compute units,
  \<open>execute_program\<close> returns a count and a result, without a panic and without an invalid instruction. The
  count is at most what the context object had, and it is exactly what it has lost.
\<close>
theorem execute_program_terminates:
  assumes "verified ex" "environment_ok env ex" "enable_instruction_meter (exec_config ex)"
    and "startable ex frames s" "unat (get_remaining env (world (snd (space s)))) < fuel"
  shows "\<exists>count res t. execute_program fuel env ex frames s = Some (Ok (count, res), t)
    \<and> res \<noteq> Err InvalidInstruction
    \<and> count \<le> get_remaining env (world (snd (space s)))
    \<and> get_remaining env (world (snd (space t))) = get_remaining env (world (snd (space s))) - count"
proof -
  let ?init = "get_remaining env (world (snd (space s)))"
  let ?s = "s\<lparr>registers := (registers s)[11 := entrypoint ex], previous_instruction_meter := ?init, due_insn_count := 0,
     program_result := Ok 0, reg := (registers s)[11 := entrypoint ex], call_frames := frames\<rparr>"
  have "machine_ok env ex ?s"
    using assms(4) by (auto simp: startable_def machine_ok_def vm_core_def frames_ok_def meter_inv_def meter_def)
  moreover have "insns_left ?s < fuel" using assms(5) by (simp add: insns_left_def)
  ultimately obtain t where run: "run_interpreter fuel env ex ?s = Some (Fail (), t)" and t: "ends env ex ?s (Fail ()) t"
    using run_safe [OF assms(1-3)] by blast
  obtain m h where sp: "space t = (m, h)" by (rule prod.exhaust)
  let ?rest = "get_remaining env (consume env (due_insn_count t) (world h))"
  have rest: "unat ?rest \<le> unat ?init"
    using t assms(2,3) context_object.unat_remaining
    by (fastforce simp: ends_def insns_left_def meter_inv_def meter_def environment_ok_def sp)
  have "execute_program fuel env ex frames s = Some (Ok (saturating_sub ?init ?rest, program_result t),
      t\<lparr>space := (m, h\<lparr>world := consume env (due_insn_count t) (world h)\<rparr>), program_result := Ok 0\<rparr>)"
    using assms(3,4) run by (simp add: execute_program_def startable_def Let_def sp)
  then show ?thesis
    using t rest by (simp add: ends_def no_invalid_def saturating_sub_def word_le_nat_alt unat_sub_if')
qed

theorem execute_program_terminates_witness:
  "\<exists>count res t. execute_program 11 meter_environment call_executable (call_frames started_vm) started_vm
      = Some (Ok (count, res), t) \<and> count \<le> 10 \<and> world (snd (space t)) = 10 - count"
proof -
  have "startable call_executable (call_frames started_vm) started_vm"
    by (simp add: startable_def started_vm_def call_executable_def space_ok_def translate_eval)
  moreover have "enable_instruction_meter (exec_config call_executable)"
    by (simp add: call_executable_def default_config_def)
  ultimately have "\<exists>count res t.
      execute_program 11 meter_environment call_executable (call_frames started_vm) started_vm = Some (Ok (count, res), t)
      \<and> res \<noteq> Err InvalidInstruction
      \<and> count \<le> get_remaining meter_environment (world (snd (space started_vm)))
      \<and> get_remaining meter_environment (world (snd (space t)))
          = get_remaining meter_environment (world (snd (space started_vm))) - count"
    by (intro execute_program_terminates [OF call_executable_verified meter_environment_ok])
      (simp_all add: meter_environment_def started_vm_def)
  then show ?thesis by (auto simp: meter_environment_def started_vm_def)
qed

text \<open>
  C4. The interpreter has an arm for exactly the opcodes that the verifier accepts, in every version and
  whatever the executable: no accepted instruction is unsupported, and no rejected opcode can be executed.
\<close>
theorem interpreter_opcodes:
  "select_arm (opc i) (step_arms env ex v i) = None \<longleftrightarrow> select_arm (opc i) (verify_arms v i) = None"
  by (simp add: known_step_arm known_opcode_def)

end
