(* ===== verification/Sbpf_Calls.thy ===== *)
theory Sbpf_Calls
  imports Sbpf_Safety
begin

text \<open>
  Calls and returns. Every step of a verified program leaves the call stack alone, pushes one frame or
  pops one; a function that is called gives its caller the saved registers, the frame pointer and the
  program counter behind the call back, whatever it and the functions it calls do.
\<close>

section \<open>Steps of the call stack\<close>

definition saved_frame :: "'w vm \<Rightarrow> call_frame" where
  "saved_frame s = \<lparr>caller_saved_registers = take 4 (drop 6 (reg s)), frame_pointer = reg s ! 10,
     target_pc = reg s ! 11 + 1\<rparr>"

definition restores :: "call_frame \<Rightarrow> u64 \<Rightarrow> 'w vm \<Rightarrow> bool" where
  "restores f pc t \<longleftrightarrow> take 4 (drop 6 (reg t)) = caller_saved_registers f \<and> reg t ! 10 = frame_pointer f
    \<and> pc = target_pc f"

definition frame_step :: "'w vm \<Rightarrow> u64 \<Rightarrow> 'w vm \<Rightarrow> bool" where
  "frame_step s pc t \<longleftrightarrow> length (reg t) = 12 \<and>
     (call_depth t = call_depth s \<and> call_frames t = call_frames s
      \<or> unat (call_depth t) = Suc (unat (call_depth s))
          \<and> call_frames t = (call_frames s)[unat (call_depth s) := saved_frame s]
      \<or> unat (call_depth s) = Suc (unat (call_depth t)) \<and> call_frames t = call_frames s
          \<and> restores (call_frames s ! unat (call_depth t)) pc t)"

definition arm_frames :: "'w environment \<Rightarrow> 'w executable \<Rightarrow> nat \<Rightarrow> 'w arm_run \<Rightarrow> bool" where
  "arm_frames env ex p a \<longleftrightarrow> (\<forall>s. vm_core ex s \<longrightarrow> meter_inv env ex s \<longrightarrow>
     wp (a (word_of_nat (Suc p))) (frame_step s) (\<lambda>_ _. True) s)"

definition same_frames :: "'w vm \<Rightarrow> 'w vm \<Rightarrow> bool" where
  "same_frames s t \<longleftrightarrow> call_depth t = call_depth s \<and> call_frames t = call_frames s \<and> length (reg t) = length (reg s)
    \<and> saved_frame t = saved_frame s"

inductive callee_run :: "'w environment \<Rightarrow> 'w executable \<Rightarrow> u64 \<Rightarrow> 'w vm \<Rightarrow> 'w vm \<Rightarrow> bool"
  for env :: "'w environment" and ex :: "'w executable" and d :: u64 where
  enter: "d < call_depth s \<Longrightarrow> callee_run env ex d s s"
| next_insn: "callee_run env ex d s t \<Longrightarrow> step env ex t = (Ok (), u) \<Longrightarrow> d < call_depth u \<Longrightarrow> callee_run env ex d s u"


definition called_vm :: "u64 vm" where
  "called_vm = started_vm\<lparr>due_insn_count := 1, call_depth := 1,
     call_frames := (call_frames started_vm)[0 := \<lparr>caller_saved_registers = [6, 7, 8, 9], frame_pointer = 10, target_pc = 1\<rparr>],
     reg := [0, 1, 2, 3, 4, 5, 6, 7, 8, 9, 0x100a, 2]\<rparr>"

inductive_cases callee_runE: "callee_run env ex d s t"

section \<open>Lemmas\<close>

lemma local_arm_frames:
  assumes "local_arm env J i a"
  shows "arm_frames env ex p a"
  unfolding arm_frames_def
proof (intro allI impI)
  fix s assume s: "vm_core ex s"
  have "wp (a (word_of_nat (Suc p)))
       (\<lambda>pc t. local_effect env s t \<and> (pc = word_of_nat (Suc p) \<or> J \<and> pc = word_of_nat (Suc p) + scast (off i)))
       (\<lambda>e t. e = Fail () \<and> no_invalid t \<and> local_effect env s t) s"
    using assms s by (simp add: local_arm_def vm_core_def)
  then show "wp (a (word_of_nat (Suc p))) (frame_step s) (\<lambda>_ _. True) s"
    by (rule wp_mono) (use s in \<open>auto simp: vm_core_def frame_step_def local_effect_def machine_kept_def\<close>)
qed

lemma load_dw_frames:
  assumes "regs_ok i"
  shows "arm_frames env ex p (load_dw_imm ex i)"
  using assms
  by (auto simp: arm_frames_def load_dw_imm_def regs_ok_def vm_core_def frame_step_def augment_lddw_unchecked_def
      Let_def wp_def panic_def throw_def bindM_def seqM_def set_reg_def get_reg_def ret_def split: if_splits)

lemma pushed_frame_step: "vm_core ex s \<Longrightarrow> frame_pushed ex s t \<Longrightarrow> frame_step s pc t"
  by (auto simp: frame_step_def frame_pushed_def saved_frame_def vm_core_def)

lemma call_reg_frames:
  shows "arm_frames env ex p (call_reg ex i)"
  unfolding arm_frames_def
proof (intro allI impI)
  fix s :: "'a vm" assume s: "vm_core ex s" 
  have "wp (seqM (push_frame ex) (check_pc ex pc)) (frame_step s) (\<lambda>_ _. True) s" for pc
    unfolding wp_seqM by (rule wp_push_frame [OF s]) (simp_all add: pushed_frame_step [OF s])
  then show "wp (call_reg ex i (word_of_nat (Suc p))) (frame_step s) (\<lambda>_ _. True) s"
    unfolding call_reg_def wp_bindM by (simp add: wp_def get_reg_def)
qed

lemma exit_frames: "arm_frames env ex p (exit_insn ex)"
  unfolding arm_frames_def
proof (intro allI impI)
  fix s :: "'a vm" assume s: "vm_core ex s"
  show "wp (exit_insn ex (word_of_nat (Suc p))) (frame_step s) (\<lambda>_ _. True) s"
  proof (cases "call_depth s = 0")
    case True
    then show ?thesis by (simp add: wp_def exit_insn_def throw_error_def monad_defs)
  next
    case False
    then have down: "unat (call_depth s) = Suc (unat (call_depth s - 1))"
      by (simp add: unat_minus_one unat_gt_0)
    let ?f = "call_frames s ! unat (call_depth s - 1)"
    have "unat (call_depth s - 1) < length (call_frames s)"
      using s down by (simp add: vm_core_def frames_ok_def)
    moreover from this have "length (caller_saved_registers ?f) = 4"
      using s by (simp add: vm_core_def frames_ok_def layout_defs)
    ultimately show ?thesis using False down s
      by (auto simp: wp_def exit_insn_def Let_def frame_step_def restores_def vm_core_def layout_defs nth_append)
  qed
qed

lemma dispatch_syscall_fields:
  "reg (dispatch_syscall env ex rust s) = reg s" "call_depth (dispatch_syscall env ex rust s) = call_depth s"
  "call_frames (dispatch_syscall env ex rust s) = call_frames s"
  by (simp_all add: dispatch_syscall_def syscall_vm_def Let_def split: prod.splits)

lemma same_frames_step: "same_frames s t \<Longrightarrow> frame_step t pc u \<Longrightarrow> frame_step s pc u"
  by (auto simp: same_frames_def frame_step_def)

lemma external_call_frames: 
  assumes "length (reg s) = 12"
  shows "wp (external_call env ex i) (\<lambda>_ t. same_frames s t) (\<lambda>_ _. True) s"
proof -
  have "saved_frame (t\<lparr>reg := (reg s)[0 := x]\<rparr>) = saved_frame s" for t x
    using assms by (simp add: saved_frame_def drop_update_swap)
  then show ?thesis
    using assms by (auto simp: external_call_def same_frames_def dispatch_syscall_fields split: option.split result.split)
qed

lemma internal_call_frames:
  assumes "vm_core ex s"
  shows "wp (internal_call ex i next_pc b) (\<lambda>(pc, _). frame_step s pc) (\<lambda>_ _. True) s"
proof -
  have same: "frame_step s pc s" for pc using assms by (simp add: frame_step_def vm_core_def)
  show ?thesis
    by (auto simp: internal_call_def Let_def same intro!: wp_push_frame [OF assms] pushed_frame_step [OF assms]
        split: option.split)
qed

lemma call_imm_frames:
  assumes env: "context_object (consume env) (get_remaining env)" "syscalls_ok env ex"
  shows "arm_frames env ex p (call_imm env ex i)"
  unfolding arm_frames_def
proof (intro allI impI)
  fix s assume s: "vm_core ex s" "meter_inv env ex s"
  have "wp (external_call env ex i) (\<lambda>_ t. resumed env ex s t) (\<lambda>_ _. True) s"
    by (rule wp_external_call [OF env s]) simp_all
  moreover have "wp (external_call env ex i) (\<lambda>_ t. same_frames s t) (\<lambda>_ _. True) s"
    using s(1) by (intro external_call_frames) (simp add: vm_core_def)
  ultimately have ext: "wp (external_call env ex i) (\<lambda>_ t. resumed env ex s t \<and> same_frames s t) (\<lambda>_ _. True \<and> True) s"
    by (rule wp_conj)
  have inner: "wp (internal_call ex i (word_of_nat (Suc p)) b)
      (\<lambda>x. wp ((\<lambda>(pc, resolved). if \<not> resolved then throw_error UnsupportedInstruction else ret pc) x)
        (frame_step s) (\<lambda>_ _. True)) (\<lambda>_ _. True) t" if "resumed env ex s t \<and> same_frames s t" for b t
  proof -
    have "vm_core ex t" using that by (simp add: resumed_def)
    from internal_call_frames [OF this] show ?thesis
      by (rule wp_mono) (use same_frames_step that in auto)
  qed
  show "wp (call_imm env ex i (word_of_nat (Suc p))) (frame_step s) (\<lambda>_ _. True) s"
    unfolding call_imm_def wp_bindM by (rule wp_mono [OF ext inner]) simp_all
qed

lemma verified_arm_frames:
  assumes ex: "verified ex" and env: "environment_ok env ex" and p: "p < length (text_bytes ex) div INSN_SIZE"
    and get: "get_insn_unchecked (text_bytes ex) (word_of_nat p) = Some i"
  shows "arm_frames env ex p (step_insn env ex i)"
proof -
  have handler: "handler_ok env" and ctx: "context_object (consume env) (get_remaining env)" "syscalls_ok env ex"
    using env by (simp_all add: environment_ok_def)
  from ex handler p get show ?thesis
  proof (cases rule: verified_insn_cases)
    case unknown
    then show ?thesis by (simp add: arm_frames_def)
  next
    case local
    then show ?thesis by (blast intro: local_arm_frames)
  qed (simp_all add: load_dw_frames call_reg_frames call_imm_frames [OF ctx] exit_frames)
qed

lemma counted_frame_step: "frame_step (counted ex s) pc t \<longleftrightarrow> frame_step s pc t"
  by (simp add: frame_step_def counted_def saved_frame_def Let_def)

lemma frame_step_set_pc: "frame_step s pc t \<Longrightarrow> frame_step s pc (t\<lparr>reg := (reg t)[11 := pc]\<rparr>)"
  by (auto simp: frame_step_def restores_def drop_update_swap)

lemma set_reg_step: "frame_step s pc t \<Longrightarrow> wp (set_reg 11 pc) (\<lambda>_ t. frame_step s (reg t ! 11) t) E t"
  using frame_step_set_pc [of s pc t] by (simp add: frame_step_def)

lemma step_frames:
  assumes ex: "verified ex" and env: "environment_ok env ex" and s: "machine_ok env ex s"
    and step: "step env ex s = (Ok (), t)"
  shows "frame_step s (reg t ! 11) t"
proof (cases "(enable_instruction_meter (exec_config ex) \<and> due_insn_count s \<ge> previous_instruction_meter s)
    \<or> insn_offset (reg s ! 11) \<ge> length (text_bytes ex)")
  case True
  then have "wp (step env ex) (\<lambda>_ _. False) (\<lambda>_ _. True) s" by (auto simp: wp_step)
  from wp_OkD [OF this step] show ?thesis ..
next
  case False
  let ?n = "length (text_bytes ex) div INSN_SIZE"
  have core: "vm_core ex s" and meter: "meter_inv env ex s" and pc: "unat (reg s ! 11) \<le> ?n"
    using s by (simp_all add: machine_ok_def)
  have len: "length (text_bytes ex) < 2 ^ 63" "length (text_bytes ex) = 8 * ?n"
    using ex verified_whole [OF ex] by (auto simp: verified_def layout_defs)
  have "insn_offset (reg s ! 11) = 8 * unat (reg s ! 11)"
    using pc len by (intro insn_offset_small) (simp add: layout_defs)
  then have p: "unat (reg s ! 11) < ?n" using False len(2) by simp
  obtain i where i: "get_insn_unchecked (text_bytes ex) (reg s ! 11) = Some i"
    "arm_frames env ex (unat (reg s ! 11)) (step_insn env ex i)"
    using verified_insn [OF ex p] verified_arm_frames [OF ex env p] by auto
  have "wp (step_insn env ex i (reg s ! 11 + 1)) (frame_step (counted ex s)) (\<lambda>_ _. True) (counted ex s)"
    using i(2) core counted_meter(2) [OF meter] False by (simp add: arm_frames_def counted_fields add.commute)
  then have "wp (step_insn env ex i (reg s ! 11 + 1))
      (\<lambda>pc. wp (set_reg 11 pc) (\<lambda>_ t. frame_step s (reg t ! 11) t) (\<lambda>_ _. True)) (\<lambda>_ _. True) (counted ex s)"
    by (rule wp_mono) (simp_all add: counted_frame_step set_reg_step)
  then have "wp (step env ex) (\<lambda>_ t. frame_step s (reg t ! 11) t) (\<lambda>_ _. True) s"
    using False i(1) by (simp add: wp_step)
  from wp_OkD [OF this step] show ?thesis .
qed

lemma callee_run_keeps:
  assumes ex: "verified ex" "environment_ok env ex"
    and "callee_run env ex d s t" "machine_ok env ex s"
  shows "machine_ok env ex t \<and> d < call_depth t \<and> call_frames t ! unat d = call_frames s ! unat d"
  using assms(3,4)
proof induction
  case (next_insn s t u)
  then have t: "machine_ok env ex t" "d < call_depth t" "call_frames t ! unat d = call_frames s ! unat d" by auto
  have "machine_ok env ex u" using wp_OkD [OF step_safe [OF ex t(1)] next_insn.hyps(2)] by blast
  moreover have "frame_step t (reg u ! 11) u" using step_frames [OF ex t(1) next_insn.hyps(2)] .
  then have "call_frames u ! unat d = call_frames t ! unat d"
    using t(2) by (auto simp: frame_step_def word_less_nat_alt)
  ultimately show ?case using t next_insn.hyps(3) by simp
qed simp


section \<open>Properties\<close>

text \<open>
  C3. Calls return to their callers. When a step of a verified program goes one frame deeper, the run then stays
  in deeper frames, and a step comes back to the depth of the caller, then the callee-saved registers 6 to 9 and the
  frame pointer are those of the caller and the program continues behind the call.
\<close>
theorem call_returns:
  assumes ex: "verified ex" "environment_ok env ex" and s: "machine_ok env ex s"
    and call: "step env ex s = (Ok (), c)" "call_depth s < call_depth c"
    and run: "callee_run env ex (call_depth s) c u"
    and exit: "step env ex u = (Ok (), t)" "call_depth t = call_depth s"
  shows "(\<forall>k \<in> {6..10}. reg t ! k = reg s ! k) \<and> reg t ! 11 = reg s ! 11 + 1"
proof -
  have c: "machine_ok env ex c" using wp_OkD [OF step_safe [OF ex s] call(1)] by blast
  have lens: "length (reg s) = 12" "unat (call_depth s) < length (call_frames s)"
    using s by (auto simp: machine_ok_def vm_core_def frames_ok_def)
  have "call_frames c ! unat (call_depth s) = saved_frame s"
    using step_frames [OF ex s call(1)] call(2) lens(2) by (auto simp: frame_step_def word_less_nat_alt)
  then have u: "machine_ok env ex u" "call_depth s < call_depth u" "call_frames u ! unat (call_depth s) = saved_frame s"
    using callee_run_keeps [OF ex run c] by simp_all
  have "restores (saved_frame s) (reg t ! 11) t" "length (reg t) = 12"
    using step_frames [OF ex u(1) exit(1)] u exit(2) by (auto simp: frame_step_def word_less_nat_alt)
  moreover have "reg t ! k = reg s ! k" if "take 4 (drop 6 (reg t)) = take 4 (drop 6 (reg s))" "length (reg t) = 12" "k \<in> {6..9}" for k
  proof -
    have "take 4 (drop 6 (reg t)) ! (k - 6) = take 4 (drop 6 (reg s)) ! (k - 6)" using that(1) by simp
    then show ?thesis using that(2,3) lens(1) by (auto simp: nth_take)
  qed
  moreover have "{6..10} = insert (10 :: nat) {6..9}" by auto
  ultimately show ?thesis by (simp add: restores_def saved_frame_def)
qed

lemmas step_eval = step_def step_insn_def step_tables opcode_values version_gates get_insn_unchecked_def insn_offset_def
  layout_defs read_i16_def read_i32_def monad_defs started_vm_def call_executable_def call_program_def
  call_imm_def external_call_def internal_call_def push_frame_def exit_insn_def is_pc_in_program_def set_reg_def
  default_config_def lookup_by_key_def i64_saturating_add_def Let_def saturating_add_def saturating_mul_def

lemma call_step:
  "step meter_environment call_executable started_vm = (Ok (), called_vm)"
  by (simp add: called_vm_def step_eval)

lemma body_step:
  "step meter_environment call_executable called_vm
    = (Ok (), called_vm\<lparr>due_insn_count := 2, reg := [0, 1, 2, 3, 4, 5, 42, 7, 8, 9, 0x100a, 3]\<rparr>)"
  by (simp add: called_vm_def step_eval mov_imm_def set_dst_def word_le_nat_alt)

lemma return_step:
  "step meter_environment call_executable
     (called_vm\<lparr>due_insn_count := 2, reg := [0, 1, 2, 3, 4, 5, 42, 7, 8, 9, 0x100a, 3]\<rparr>)
    = (Ok (), called_vm\<lparr>due_insn_count := 3, call_depth := 0, reg := [0, 1, 2, 3, 4, 5, 6, 7, 8, 9, 10, 1]\<rparr>)"
  by (simp add: called_vm_def step_eval)

theorem call_returns_witness:
  "\<exists>c u t. step meter_environment call_executable started_vm = (Ok (), c)
    \<and> step meter_environment call_executable c = (Ok (), u) \<and> reg u ! 6 = 42
    \<and> step meter_environment call_executable u = (Ok (), t)
    \<and> reg t ! 6 = reg started_vm ! 6 \<and> reg t ! 10 = reg started_vm ! 10
    \<and> reg t ! 11 = reg started_vm ! 11 + 1"
proof -
  let ?u = "called_vm\<lparr>due_insn_count := 2, reg := [0, 1, 2, 3, 4, 5, 42, 7, 8, 9, 0x100a, 3]\<rparr>"
  let ?t = "called_vm\<lparr>due_insn_count := 3, call_depth := 0, reg := [0, 1, 2, 3, 4, 5, 6, 7, 8, 9, 10, 1]\<rparr>"
  have depth: "call_depth started_vm < call_depth called_vm" "call_depth started_vm = 0"
    by (simp_all add: started_vm_def called_vm_def)
  have "callee_run meter_environment call_executable (call_depth started_vm) called_vm ?u"
    by (rule next_insn [OF enter [OF depth(1)] body_step]) (use depth in simp)
  from call_returns [OF call_executable_verified meter_environment_ok started_machine call_step depth(1) this return_step]
  have "(\<forall>k \<in> {6..10}. reg ?t ! k = reg started_vm ! k) \<and> reg ?t ! 11 = reg started_vm ! 11 + 1"
    using depth(2) by simp
  then have "reg ?t ! 6 = reg started_vm ! 6 \<and> reg ?t ! 10 = reg started_vm ! 10
      \<and> reg ?t ! 11 = reg started_vm ! 11 + 1"
    by (metis atLeastAtMost_iff numeral_le_iff order_refl semiring_norm(68,69,70,71,72,73,74,75))
  then show ?thesis using call_step body_step return_step by (intro exI [of _ called_vm] exI [of _ ?u] exI [of _ ?t]) simp
qed

end
