(* ===== verification/Rt_Budget.thy ===== *)
theory Rt_Budget
  imports Svm_Prelude
begin

text \<open>
  Compute budgets: the constants and records of \<^verbatim>\<open>src/program-runtime/src/execution_budget.rs\<close>, and
  \<open>ComputeBudget\<close> and \<open>ComputeBudgetLimits\<close> of \<^verbatim>\<open>src/compute-budget/src\<close>. The fields of a record carry the prefix
  \<open>eb_\<close> (budget), \<open>ec_\<close> (cost), \<open>cb_\<close> (the two together) or \<open>cl_\<close> (limits). The heap length and the fee details come
  from other crates: the first is the parameter \<open>heap_length\<close>, the second a type variable.
\<close>

section \<open>Constants\<close>

definition MAX_INSTRUCTION_TRACE_LENGTH :: nat where
  "MAX_INSTRUCTION_TRACE_LENGTH = 64"

definition MAX_INSTRUCTION_STACK_DEPTH :: nat where
  "MAX_INSTRUCTION_STACK_DEPTH = 5"

definition MAX_INSTRUCTION_STACK_DEPTH_SIMD_0268 :: nat where
  "MAX_INSTRUCTION_STACK_DEPTH_SIMD_0268 = 9"

definition get_max_instruction_stack_depth :: "bool \<Rightarrow> nat" where
  "get_max_instruction_stack_depth simd_0268_active =
    (if simd_0268_active then MAX_INSTRUCTION_STACK_DEPTH_SIMD_0268 else MAX_INSTRUCTION_STACK_DEPTH)"

definition DEFAULT_INVOCATION_COST :: u64 where
  "DEFAULT_INVOCATION_COST = 946"

definition MAX_CALL_DEPTH :: nat where
  "MAX_CALL_DEPTH = 64"

definition STACK_FRAME_SIZE :: nat where
  "STACK_FRAME_SIZE = 4096"

definition MAX_COMPUTE_UNIT_LIMIT :: u32 where
  "MAX_COMPUTE_UNIT_LIMIT = 1400000"

definition DEFAULT_HEAP_COST :: u64 where
  "DEFAULT_HEAP_COST = 8"

definition MAX_HEAP_FRAME_BYTES :: u32 where
  "MAX_HEAP_FRAME_BYTES = 256 * 1024"

definition MIN_HEAP_FRAME_BYTES :: "nat \<Rightarrow> u32" where
  "MIN_HEAP_FRAME_BYTES heap_length = word_of_nat heap_length"

definition MAX_LOADED_ACCOUNTS_DATA_SIZE_BYTES :: u32 where
  "MAX_LOADED_ACCOUNTS_DATA_SIZE_BYTES = 64 * 1024 * 1024"

section \<open>Budgets and costs\<close>

record execution_budget =
  eb_compute_unit_limit :: u64
  eb_max_instruction_stack_depth :: nat
  eb_max_instruction_trace_length :: nat
  eb_sha256_max_slices :: u64
  eb_max_call_depth :: nat
  eb_stack_frame_size :: nat
  eb_heap_size :: u32

record execution_cost =
  ec_log_64_units :: u64
  ec_create_program_address_units :: u64
  ec_invoke_units :: u64
  ec_sha256_base_cost :: u64
  ec_sha256_byte_cost :: u64
  ec_log_pubkey_units :: u64
  ec_cpi_bytes_per_unit :: u64
  ec_sysvar_base_cost :: u64
  ec_secp256k1_recover_cost :: u64
  ec_syscall_base_cost :: u64
  ec_curve25519_edwards_validate_point_cost :: u64
  ec_curve25519_edwards_add_cost :: u64
  ec_curve25519_edwards_subtract_cost :: u64
  ec_curve25519_edwards_multiply_cost :: u64
  ec_curve25519_edwards_msm_base_cost :: u64
  ec_curve25519_edwards_msm_incremental_cost :: u64
  ec_curve25519_ristretto_validate_point_cost :: u64
  ec_curve25519_ristretto_add_cost :: u64
  ec_curve25519_ristretto_subtract_cost :: u64
  ec_curve25519_ristretto_multiply_cost :: u64
  ec_curve25519_ristretto_msm_base_cost :: u64
  ec_curve25519_ristretto_msm_incremental_cost :: u64
  ec_heap_cost :: u64
  ec_mem_op_base_cost :: u64
  ec_alt_bn128_g1_addition_cost :: u64
  ec_alt_bn128_g2_addition_cost :: u64
  ec_alt_bn128_g1_multiplication_cost :: u64
  ec_alt_bn128_g2_multiplication_cost :: u64
  ec_alt_bn128_pairing_one_pair_cost_first :: u64
  ec_alt_bn128_pairing_one_pair_cost_other :: u64
  ec_big_modular_exponentiation_base_cost :: u64
  ec_big_modular_exponentiation_cost_divisor :: u64
  ec_poseidon_cost_coefficient_a :: u64
  ec_poseidon_cost_coefficient_c :: u64
  ec_get_remaining_compute_units_cost :: u64
  ec_alt_bn128_g1_compress :: u64
  ec_alt_bn128_g1_decompress :: u64
  ec_alt_bn128_g2_compress :: u64
  ec_alt_bn128_g2_decompress :: u64
  ec_bls12_381_g1_add_cost :: u64
  ec_bls12_381_g2_add_cost :: u64
  ec_bls12_381_g1_subtract_cost :: u64
  ec_bls12_381_g2_subtract_cost :: u64
  ec_bls12_381_g1_multiply_cost :: u64
  ec_bls12_381_g2_multiply_cost :: u64
  ec_bls12_381_g1_decompress_cost :: u64
  ec_bls12_381_g2_decompress_cost :: u64
  ec_bls12_381_g1_validate_cost :: u64
  ec_bls12_381_g2_validate_cost :: u64
  ec_bls12_381_one_pair_cost :: u64
  ec_bls12_381_additional_pair_cost :: u64

definition default_cost :: execution_cost where
  "default_cost =
    \<lparr>ec_log_64_units = 100,
     ec_create_program_address_units = 1500,
     ec_invoke_units = DEFAULT_INVOCATION_COST,
     ec_sha256_base_cost = 85,
     ec_sha256_byte_cost = 1,
     ec_log_pubkey_units = 100,
     ec_cpi_bytes_per_unit = 250,
     ec_sysvar_base_cost = 100,
     ec_secp256k1_recover_cost = 25000,
     ec_syscall_base_cost = 100,
     ec_curve25519_edwards_validate_point_cost = 159,
     ec_curve25519_edwards_add_cost = 473,
     ec_curve25519_edwards_subtract_cost = 475,
     ec_curve25519_edwards_multiply_cost = 2177,
     ec_curve25519_edwards_msm_base_cost = 2273,
     ec_curve25519_edwards_msm_incremental_cost = 758,
     ec_curve25519_ristretto_validate_point_cost = 169,
     ec_curve25519_ristretto_add_cost = 521,
     ec_curve25519_ristretto_subtract_cost = 519,
     ec_curve25519_ristretto_multiply_cost = 2208,
     ec_curve25519_ristretto_msm_base_cost = 2303,
     ec_curve25519_ristretto_msm_incremental_cost = 788,
     ec_heap_cost = DEFAULT_HEAP_COST,
     ec_mem_op_base_cost = 10,
     ec_alt_bn128_g1_addition_cost = 334,
     ec_alt_bn128_g2_addition_cost = 535,
     ec_alt_bn128_g1_multiplication_cost = 3840,
     ec_alt_bn128_g2_multiplication_cost = 15670,
     ec_alt_bn128_pairing_one_pair_cost_first = 36364,
     ec_alt_bn128_pairing_one_pair_cost_other = 12121,
     ec_big_modular_exponentiation_base_cost = 190,
     ec_big_modular_exponentiation_cost_divisor = 2,
     ec_poseidon_cost_coefficient_a = 61,
     ec_poseidon_cost_coefficient_c = 542,
     ec_get_remaining_compute_units_cost = 100,
     ec_alt_bn128_g1_compress = 30,
     ec_alt_bn128_g1_decompress = 398,
     ec_alt_bn128_g2_compress = 86,
     ec_alt_bn128_g2_decompress = 13610,
     ec_bls12_381_g1_add_cost = 128,
     ec_bls12_381_g2_add_cost = 203,
     ec_bls12_381_g1_subtract_cost = 129,
     ec_bls12_381_g2_subtract_cost = 204,
     ec_bls12_381_g1_multiply_cost = 4627,
     ec_bls12_381_g2_multiply_cost = 8255,
     ec_bls12_381_g1_decompress_cost = 2100,
     ec_bls12_381_g2_decompress_cost = 3050,
     ec_bls12_381_g1_validate_cost = 1565,
     ec_bls12_381_g2_validate_cost = 1968,
     ec_bls12_381_one_pair_cost = 25445,
     ec_bls12_381_additional_pair_cost = 13023\<rparr>"

record compute_budget =
  cb_compute_unit_limit :: u64
  cb_log_64_units :: u64
  cb_create_program_address_units :: u64
  cb_invoke_units :: u64
  cb_max_instruction_stack_depth :: nat
  cb_max_instruction_trace_length :: nat
  cb_sha256_base_cost :: u64
  cb_sha256_byte_cost :: u64
  cb_sha256_max_slices :: u64
  cb_max_call_depth :: nat
  cb_stack_frame_size :: nat
  cb_log_pubkey_units :: u64
  cb_cpi_bytes_per_unit :: u64
  cb_sysvar_base_cost :: u64
  cb_secp256k1_recover_cost :: u64
  cb_syscall_base_cost :: u64
  cb_curve25519_edwards_validate_point_cost :: u64
  cb_curve25519_edwards_add_cost :: u64
  cb_curve25519_edwards_subtract_cost :: u64
  cb_curve25519_edwards_multiply_cost :: u64
  cb_curve25519_edwards_msm_base_cost :: u64
  cb_curve25519_edwards_msm_incremental_cost :: u64
  cb_curve25519_ristretto_validate_point_cost :: u64
  cb_curve25519_ristretto_add_cost :: u64
  cb_curve25519_ristretto_subtract_cost :: u64
  cb_curve25519_ristretto_multiply_cost :: u64
  cb_curve25519_ristretto_msm_base_cost :: u64
  cb_curve25519_ristretto_msm_incremental_cost :: u64
  cb_heap_size :: u32
  cb_heap_cost :: u64
  cb_mem_op_base_cost :: u64
  cb_alt_bn128_g1_addition_cost :: u64
  cb_alt_bn128_g2_addition_cost :: u64
  cb_alt_bn128_g1_multiplication_cost :: u64
  cb_alt_bn128_g2_multiplication_cost :: u64
  cb_alt_bn128_pairing_one_pair_cost_first :: u64
  cb_alt_bn128_pairing_one_pair_cost_other :: u64
  cb_big_modular_exponentiation_base_cost :: u64
  cb_big_modular_exponentiation_cost_divisor :: u64
  cb_poseidon_cost_coefficient_a :: u64
  cb_poseidon_cost_coefficient_c :: u64
  cb_get_remaining_compute_units_cost :: u64
  cb_alt_bn128_g1_compress :: u64
  cb_alt_bn128_g1_decompress :: u64
  cb_alt_bn128_g2_compress :: u64
  cb_alt_bn128_g2_decompress :: u64
  cb_bls12_381_g1_add_cost :: u64
  cb_bls12_381_g2_add_cost :: u64
  cb_bls12_381_g1_subtract_cost :: u64
  cb_bls12_381_g2_subtract_cost :: u64
  cb_bls12_381_g1_multiply_cost :: u64
  cb_bls12_381_g2_multiply_cost :: u64
  cb_bls12_381_g1_decompress_cost :: u64
  cb_bls12_381_g2_decompress_cost :: u64
  cb_bls12_381_g1_validate_cost :: u64
  cb_bls12_381_g2_validate_cost :: u64
  cb_bls12_381_one_pair_cost :: u64
  cb_bls12_381_additional_pair_cost :: u64

definition from_budget_and_cost :: "execution_budget \<Rightarrow> execution_cost \<Rightarrow> compute_budget" where
  "from_budget_and_cost budget cost =
    \<lparr>cb_compute_unit_limit = eb_compute_unit_limit budget,
     cb_log_64_units = ec_log_64_units cost,
     cb_create_program_address_units = ec_create_program_address_units cost,
     cb_invoke_units = ec_invoke_units cost,
     cb_max_instruction_stack_depth = eb_max_instruction_stack_depth budget,
     cb_max_instruction_trace_length = eb_max_instruction_trace_length budget,
     cb_sha256_base_cost = ec_sha256_base_cost cost,
     cb_sha256_byte_cost = ec_sha256_byte_cost cost,
     cb_sha256_max_slices = eb_sha256_max_slices budget,
     cb_max_call_depth = eb_max_call_depth budget,
     cb_stack_frame_size = eb_stack_frame_size budget,
     cb_log_pubkey_units = ec_log_pubkey_units cost,
     cb_cpi_bytes_per_unit = ec_cpi_bytes_per_unit cost,
     cb_sysvar_base_cost = ec_sysvar_base_cost cost,
     cb_secp256k1_recover_cost = ec_secp256k1_recover_cost cost,
     cb_syscall_base_cost = ec_syscall_base_cost cost,
     cb_curve25519_edwards_validate_point_cost = ec_curve25519_edwards_validate_point_cost cost,
     cb_curve25519_edwards_add_cost = ec_curve25519_edwards_add_cost cost,
     cb_curve25519_edwards_subtract_cost = ec_curve25519_edwards_subtract_cost cost,
     cb_curve25519_edwards_multiply_cost = ec_curve25519_edwards_multiply_cost cost,
     cb_curve25519_edwards_msm_base_cost = ec_curve25519_edwards_msm_base_cost cost,
     cb_curve25519_edwards_msm_incremental_cost = ec_curve25519_edwards_msm_incremental_cost cost,
     cb_curve25519_ristretto_validate_point_cost = ec_curve25519_ristretto_validate_point_cost cost,
     cb_curve25519_ristretto_add_cost = ec_curve25519_ristretto_add_cost cost,
     cb_curve25519_ristretto_subtract_cost = ec_curve25519_ristretto_subtract_cost cost,
     cb_curve25519_ristretto_multiply_cost = ec_curve25519_ristretto_multiply_cost cost,
     cb_curve25519_ristretto_msm_base_cost = ec_curve25519_ristretto_msm_base_cost cost,
     cb_curve25519_ristretto_msm_incremental_cost = ec_curve25519_ristretto_msm_incremental_cost cost,
     cb_heap_size = eb_heap_size budget,
     cb_heap_cost = ec_heap_cost cost,
     cb_mem_op_base_cost = ec_mem_op_base_cost cost,
     cb_alt_bn128_g1_addition_cost = ec_alt_bn128_g1_addition_cost cost,
     cb_alt_bn128_g2_addition_cost = ec_alt_bn128_g2_addition_cost cost,
     cb_alt_bn128_g1_multiplication_cost = ec_alt_bn128_g1_multiplication_cost cost,
     cb_alt_bn128_g2_multiplication_cost = ec_alt_bn128_g2_multiplication_cost cost,
     cb_alt_bn128_pairing_one_pair_cost_first = ec_alt_bn128_pairing_one_pair_cost_first cost,
     cb_alt_bn128_pairing_one_pair_cost_other = ec_alt_bn128_pairing_one_pair_cost_other cost,
     cb_big_modular_exponentiation_base_cost = ec_big_modular_exponentiation_base_cost cost,
     cb_big_modular_exponentiation_cost_divisor = ec_big_modular_exponentiation_cost_divisor cost,
     cb_poseidon_cost_coefficient_a = ec_poseidon_cost_coefficient_a cost,
     cb_poseidon_cost_coefficient_c = ec_poseidon_cost_coefficient_c cost,
     cb_get_remaining_compute_units_cost = ec_get_remaining_compute_units_cost cost,
     cb_alt_bn128_g1_compress = ec_alt_bn128_g1_compress cost,
     cb_alt_bn128_g1_decompress = ec_alt_bn128_g1_decompress cost,
     cb_alt_bn128_g2_compress = ec_alt_bn128_g2_compress cost,
     cb_alt_bn128_g2_decompress = ec_alt_bn128_g2_decompress cost,
     cb_bls12_381_g1_add_cost = ec_bls12_381_g1_add_cost cost,
     cb_bls12_381_g2_add_cost = ec_bls12_381_g2_add_cost cost,
     cb_bls12_381_g1_subtract_cost = ec_bls12_381_g1_subtract_cost cost,
     cb_bls12_381_g2_subtract_cost = ec_bls12_381_g2_subtract_cost cost,
     cb_bls12_381_g1_multiply_cost = ec_bls12_381_g1_multiply_cost cost,
     cb_bls12_381_g2_multiply_cost = ec_bls12_381_g2_multiply_cost cost,
     cb_bls12_381_g1_decompress_cost = ec_bls12_381_g1_decompress_cost cost,
     cb_bls12_381_g2_decompress_cost = ec_bls12_381_g2_decompress_cost cost,
     cb_bls12_381_g1_validate_cost = ec_bls12_381_g1_validate_cost cost,
     cb_bls12_381_g2_validate_cost = ec_bls12_381_g2_validate_cost cost,
     cb_bls12_381_one_pair_cost = ec_bls12_381_one_pair_cost cost,
     cb_bls12_381_additional_pair_cost = ec_bls12_381_additional_pair_cost cost\<rparr>"

definition to_budget :: "compute_budget \<Rightarrow> execution_budget" where
  "to_budget self =
    \<lparr>eb_compute_unit_limit = cb_compute_unit_limit self,
     eb_max_instruction_stack_depth = cb_max_instruction_stack_depth self,
     eb_max_instruction_trace_length = cb_max_instruction_trace_length self,
     eb_sha256_max_slices = cb_sha256_max_slices self,
     eb_max_call_depth = cb_max_call_depth self,
     eb_stack_frame_size = cb_stack_frame_size self,
     eb_heap_size = cb_heap_size self\<rparr>"

definition to_cost :: "compute_budget \<Rightarrow> execution_cost" where
  "to_cost self =
    \<lparr>ec_log_64_units = cb_log_64_units self,
     ec_create_program_address_units = cb_create_program_address_units self,
     ec_invoke_units = cb_invoke_units self,
     ec_sha256_base_cost = cb_sha256_base_cost self,
     ec_sha256_byte_cost = cb_sha256_byte_cost self,
     ec_log_pubkey_units = cb_log_pubkey_units self,
     ec_cpi_bytes_per_unit = cb_cpi_bytes_per_unit self,
     ec_sysvar_base_cost = cb_sysvar_base_cost self,
     ec_secp256k1_recover_cost = cb_secp256k1_recover_cost self,
     ec_syscall_base_cost = cb_syscall_base_cost self,
     ec_curve25519_edwards_validate_point_cost = cb_curve25519_edwards_validate_point_cost self,
     ec_curve25519_edwards_add_cost = cb_curve25519_edwards_add_cost self,
     ec_curve25519_edwards_subtract_cost = cb_curve25519_edwards_subtract_cost self,
     ec_curve25519_edwards_multiply_cost = cb_curve25519_edwards_multiply_cost self,
     ec_curve25519_edwards_msm_base_cost = cb_curve25519_edwards_msm_base_cost self,
     ec_curve25519_edwards_msm_incremental_cost = cb_curve25519_edwards_msm_incremental_cost self,
     ec_curve25519_ristretto_validate_point_cost = cb_curve25519_ristretto_validate_point_cost self,
     ec_curve25519_ristretto_add_cost = cb_curve25519_ristretto_add_cost self,
     ec_curve25519_ristretto_subtract_cost = cb_curve25519_ristretto_subtract_cost self,
     ec_curve25519_ristretto_multiply_cost = cb_curve25519_ristretto_multiply_cost self,
     ec_curve25519_ristretto_msm_base_cost = cb_curve25519_ristretto_msm_base_cost self,
     ec_curve25519_ristretto_msm_incremental_cost = cb_curve25519_ristretto_msm_incremental_cost self,
     ec_heap_cost = cb_heap_cost self,
     ec_mem_op_base_cost = cb_mem_op_base_cost self,
     ec_alt_bn128_g1_addition_cost = cb_alt_bn128_g1_addition_cost self,
     ec_alt_bn128_g2_addition_cost = cb_alt_bn128_g2_addition_cost self,
     ec_alt_bn128_g1_multiplication_cost = cb_alt_bn128_g1_multiplication_cost self,
     ec_alt_bn128_g2_multiplication_cost = cb_alt_bn128_g2_multiplication_cost self,
     ec_alt_bn128_pairing_one_pair_cost_first = cb_alt_bn128_pairing_one_pair_cost_first self,
     ec_alt_bn128_pairing_one_pair_cost_other = cb_alt_bn128_pairing_one_pair_cost_other self,
     ec_big_modular_exponentiation_base_cost = cb_big_modular_exponentiation_base_cost self,
     ec_big_modular_exponentiation_cost_divisor = cb_big_modular_exponentiation_cost_divisor self,
     ec_poseidon_cost_coefficient_a = cb_poseidon_cost_coefficient_a self,
     ec_poseidon_cost_coefficient_c = cb_poseidon_cost_coefficient_c self,
     ec_get_remaining_compute_units_cost = cb_get_remaining_compute_units_cost self,
     ec_alt_bn128_g1_compress = cb_alt_bn128_g1_compress self,
     ec_alt_bn128_g1_decompress = cb_alt_bn128_g1_decompress self,
     ec_alt_bn128_g2_compress = cb_alt_bn128_g2_compress self,
     ec_alt_bn128_g2_decompress = cb_alt_bn128_g2_decompress self,
     ec_bls12_381_g1_add_cost = cb_bls12_381_g1_add_cost self,
     ec_bls12_381_g2_add_cost = cb_bls12_381_g2_add_cost self,
     ec_bls12_381_g1_subtract_cost = cb_bls12_381_g1_subtract_cost self,
     ec_bls12_381_g2_subtract_cost = cb_bls12_381_g2_subtract_cost self,
     ec_bls12_381_g1_multiply_cost = cb_bls12_381_g1_multiply_cost self,
     ec_bls12_381_g2_multiply_cost = cb_bls12_381_g2_multiply_cost self,
     ec_bls12_381_g1_decompress_cost = cb_bls12_381_g1_decompress_cost self,
     ec_bls12_381_g2_decompress_cost = cb_bls12_381_g2_decompress_cost self,
     ec_bls12_381_g1_validate_cost = cb_bls12_381_g1_validate_cost self,
     ec_bls12_381_g2_validate_cost = cb_bls12_381_g2_validate_cost self,
     ec_bls12_381_one_pair_cost = cb_bls12_381_one_pair_cost self,
     ec_bls12_381_additional_pair_cost = cb_bls12_381_additional_pair_cost self\<rparr>"

text \<open>The conversion of the heap length to \<open>u32\<close> panics when it does not fit.\<close>

definition new_with_defaults :: "nat \<Rightarrow> bool \<Rightarrow> (execution_budget, unit failure) result" where
  "new_with_defaults heap_length simd_0268_active =
    (if heap_length < 2 ^ 32 then
       Ok \<lparr>eb_compute_unit_limit = ucast MAX_COMPUTE_UNIT_LIMIT,
           eb_max_instruction_stack_depth = get_max_instruction_stack_depth simd_0268_active,
           eb_max_instruction_trace_length = MAX_INSTRUCTION_TRACE_LENGTH,
           eb_sha256_max_slices = 20000,
           eb_max_call_depth = MAX_CALL_DEPTH,
           eb_stack_frame_size = STACK_FRAME_SIZE,
           eb_heap_size = word_of_nat heap_length\<rparr>
     else Err Panic)"

definition poseidon_cost :: "execution_cost \<Rightarrow> u64 \<Rightarrow> u64 option" where
  "poseidon_cost self nr_inputs =
    (case checked_mul nr_inputs nr_inputs of
       None \<Rightarrow> None
     | Some squared_inputs \<Rightarrow>
         (case checked_mul (ec_poseidon_cost_coefficient_a self) squared_inputs of
            None \<Rightarrow> None
          | Some mul_result \<Rightarrow> checked_add mul_result (ec_poseidon_cost_coefficient_c self)))"

section \<open>Limits and fees\<close>

record 'f budget_and_limits =
  bl_budget :: execution_budget
  bl_loaded_accounts_data_size_limit :: u32
  bl_fee_details :: 'f

definition get_compute_budget_and_limits :: "compute_budget \<Rightarrow> u32 \<Rightarrow> 'f \<Rightarrow> 'f budget_and_limits" where
  "get_compute_budget_and_limits self size_limit fee_details =
    \<lparr>bl_budget = to_budget self, bl_loaded_accounts_data_size_limit = size_limit, bl_fee_details = fee_details\<rparr>"

record compute_budget_limits =
  cl_updated_heap_bytes :: u32
  cl_compute_unit_limit :: u32
  cl_compute_unit_price :: u64
  cl_loaded_accounts_bytes :: u32

definition default_limits :: "nat \<Rightarrow> compute_budget_limits" where
  "default_limits heap_length =
    \<lparr>cl_updated_heap_bytes = MIN_HEAP_FRAME_BYTES heap_length, cl_compute_unit_limit = MAX_COMPUTE_UNIT_LIMIT,
     cl_compute_unit_price = 0, cl_loaded_accounts_bytes = MAX_LOADED_ACCOUNTS_DATA_SIZE_BYTES\<rparr>"

definition limits_get_compute_budget_and_limits ::
  "nat \<Rightarrow> compute_budget_limits \<Rightarrow> u32 \<Rightarrow> 'f \<Rightarrow> bool \<Rightarrow> ('f budget_and_limits, unit failure) result" where
  "limits_get_compute_budget_and_limits heap_length self size_limit fee_details simd_0268_active =
    bindR (new_with_defaults heap_length simd_0268_active) (\<lambda>defaults.
      Ok \<lparr>bl_budget = defaults\<lparr>eb_compute_unit_limit := ucast (cl_compute_unit_limit self),
                              eb_heap_size := cl_updated_heap_bytes self\<rparr>,
          bl_loaded_accounts_data_size_limit = size_limit, bl_fee_details = fee_details\<rparr>)"

definition MICRO_LAMPORTS_PER_LAMPORT :: u64 where
  "MICRO_LAMPORTS_PER_LAMPORT = 1000000"

definition get_prioritization_fee :: "u64 \<Rightarrow> u64 \<Rightarrow> u64" where
  "get_prioritization_fee compute_unit_price compute_unit_limit =
    (let micro_lamport_fee = saturating_mul (ucast compute_unit_price :: 128 word) (ucast compute_unit_limit);
         fee = saturating_add micro_lamport_fee (ucast (saturating_sub MICRO_LAMPORTS_PER_LAMPORT 1))
               div ucast MICRO_LAMPORTS_PER_LAMPORT
     in if fee < 2 ^ 64 then ucast fee else - 1)"

record fee_budget_limits =
  fb_loaded_accounts_data_size_limit :: u32
  fb_heap_cost :: u64
  fb_compute_unit_limit :: u64
  fb_prioritization_fee :: u64

definition fee_budget_limits_from :: "compute_budget_limits \<Rightarrow> fee_budget_limits" where
  "fee_budget_limits_from val =
    \<lparr>fb_loaded_accounts_data_size_limit = cl_loaded_accounts_bytes val, fb_heap_cost = DEFAULT_HEAP_COST,
     fb_compute_unit_limit = ucast (cl_compute_unit_limit val),
     fb_prioritization_fee = get_prioritization_fee (cl_compute_unit_price val) (ucast (cl_compute_unit_limit val))\<rparr>"

section \<open>Properties\<close>

text \<open>The prioritization fee is the product of price and limit in micro-lamports, rounded up to whole lamports
  and cut off at the end of the \<open>u64\<close> range; no step of the 128-bit computation saturates or overflows.\<close>

theorem prioritization_fee_spec:
  "unat (get_prioritization_fee price limit)
    = min ((unat price * unat limit + 999999) div 1000000) (2 ^ 64 - 1)"
proof -
  define fee where "fee = saturating_add (saturating_mul (ucast price :: 128 word) (ucast limit)) 999999 div 1000000"
  have "unat price * unat limit \<le> (2 ^ 64 - 1) * (2 ^ 64 - 1)"
    by (intro mult_le_mono unat_u64_le)
  then have "unat fee = (unat price * unat limit + 999999) div 1000000"
    by (simp add: fee_def unat_div unat_saturating_add unat_saturating_mul unat_ucast_up)
  moreover have "get_prioritization_fee price limit = (if fee < 2 ^ 64 then ucast fee else - 1)"
    by (simp add: get_prioritization_fee_def fee_def MICRO_LAMPORTS_PER_LAMPORT_def saturating_sub_def Let_def)
  ultimately show ?thesis
    by (simp add: word_less_nat_alt unat_ucast_down unsigned_minus_1_eq_mask mask_eq_exp_minus_1)
qed

end
