(* ===== verification/Sbpf_Aligned.thy ===== *)
theory Sbpf_Aligned
  imports Svm_Prelude
begin

text \<open>
  Aligned memory buffers, \<^verbatim>\<open>src/sbpf/src/aligned_memory.rs\<close>. A buffer is an allocated block, whose size is its
  capacity, and the length of the part written so far. The contents of a fresh allocation that is not zeroed are the
  parameter \<open>fresh\<close>; an allocation never fails and its address is aligned. Behind the interface of the locale \<open>byte_buffer\<close>
  a buffer is the bytes written so far: appending, also of zeros that are skipped because the block was zeroed
  when it was allocated, is appending to that list.
\<close>

section \<open>Buffers\<close>

record aligned_memory =
  al_block :: bytes
  al_length :: nat
  al_zero_up_to_max_len :: bool

definition aligned_vec_new :: "(nat \<Rightarrow> bytes) \<Rightarrow> nat \<Rightarrow> bool \<Rightarrow> bytes" where
  "aligned_vec_new fresh max_len zeroed = (if zeroed then replicate max_len 0 else fresh max_len)"

definition overwrite :: "nat \<Rightarrow> bytes \<Rightarrow> bytes \<Rightarrow> bytes" where
  "overwrite pos bs block = take pos block @ bs @ drop (pos + length bs) block"

definition capacity :: "aligned_memory \<Rightarrow> nat" where
  "capacity m = length (al_block m)"

definition as_slice :: "aligned_memory \<Rightarrow> bytes" where
  "as_slice m = take (al_length m) (al_block m)"

definition from_slice :: "(nat \<Rightarrow> bytes) \<Rightarrow> bytes \<Rightarrow> aligned_memory" where
  "from_slice fresh data =
    \<lparr>al_block = overwrite 0 data (aligned_vec_new fresh (length data) False), al_length = length data,
     al_zero_up_to_max_len = False\<rparr>"

definition with_capacity :: "(nat \<Rightarrow> bytes) \<Rightarrow> nat \<Rightarrow> aligned_memory" where
  "with_capacity fresh max_len =
    \<lparr>al_block = aligned_vec_new fresh max_len False, al_length = 0, al_zero_up_to_max_len = False\<rparr>"

definition with_capacity_zeroed :: "(nat \<Rightarrow> bytes) \<Rightarrow> nat \<Rightarrow> aligned_memory" where
  "with_capacity_zeroed fresh max_len =
    \<lparr>al_block = aligned_vec_new fresh max_len True, al_length = 0, al_zero_up_to_max_len = True\<rparr>"

definition zero_filled :: "(nat \<Rightarrow> bytes) \<Rightarrow> nat \<Rightarrow> aligned_memory" where
  "zero_filled fresh max_len =
    \<lparr>al_block = aligned_vec_new fresh max_len True, al_length = max_len, al_zero_up_to_max_len = True\<rparr>"

text \<open>Writing through \<open>as_slice_mut\<close>: the new contents have the length of the old ones.\<close>

definition as_slice_mut :: "(bytes \<Rightarrow> bytes) \<Rightarrow> aligned_memory \<Rightarrow> aligned_memory" where
  "as_slice_mut f m = m\<lparr>al_block := overwrite 0 (f (as_slice m)) (al_block m)\<rparr>"

datatype io_error = InvalidInput

definition write_ptr_for :: "nat \<Rightarrow> aligned_memory \<Rightarrow> (nat \<times> nat) option" where
  "write_ptr_for n m =
    (let new_len = al_length m + n in if new_len \<le> capacity m then Some (al_length m, new_len) else None)"

definition fill_write :: "nat \<Rightarrow> u8 \<Rightarrow> (aligned_memory, unit, io_error) sm" where
  "fill_write num v m =
    (case write_ptr_for num m of
       None \<Rightarrow> (Err InvalidInput, m)
     | Some (ptr, new_len) \<Rightarrow>
         let m = (if al_zero_up_to_max_len m \<and> v = 0 then m
                  else m\<lparr>al_block := overwrite ptr (replicate num v) (al_block m)\<rparr>)
         in (Ok (), m\<lparr>al_length := new_len\<rparr>))"

text \<open>
  The unchecked writes copy the bytes of a value; their debug assertion that there is room panics.
\<close>

definition write_all_unchecked :: "bytes \<Rightarrow> (aligned_memory, unit, io_error failure) sm" where
  "write_all_unchecked bs m =
    (let new_len = al_length m + length bs in
     if new_len \<le> capacity m then
       (Ok (), m\<lparr>al_block := overwrite (al_length m) bs (al_block m), al_length := new_len\<rparr>)
     else (Err Panic, m))"

definition write_buf :: "bytes \<Rightarrow> (aligned_memory, nat, io_error) sm" where
  "write_buf buf m =
    (case write_ptr_for (length buf) m of
       None \<Rightarrow> (Err InvalidInput, m)
     | Some (ptr, new_len) \<Rightarrow>
         (Ok (length buf), m\<lparr>al_block := overwrite ptr buf (al_block m), al_length := new_len\<rparr>))"

definition clone_memory :: "(nat \<Rightarrow> bytes) \<Rightarrow> aligned_memory \<Rightarrow> aligned_memory" where
  "clone_memory fresh m = from_slice fresh (as_slice m)"

definition is_memory_aligned :: "nat \<Rightarrow> nat \<Rightarrow> bool" where
  "is_memory_aligned ptr align = (align \<noteq> 0 \<and> ptr mod align = 0)"

text \<open>What every operation keeps: the block behind a zeroed buffer is still zero.\<close>

definition buffer_ok :: "aligned_memory \<Rightarrow> bool" where
  "buffer_ok m \<longleftrightarrow> al_length m \<le> capacity m
    \<and> (al_zero_up_to_max_len m \<longrightarrow> drop (al_length m) (al_block m) = replicate (capacity m - al_length m) 0)"

text \<open>The abstract buffer: the bytes written so far, and its capacity.\<close>

definition abs_buffer :: "aligned_memory \<Rightarrow> bytes \<times> nat" where
  "abs_buffer m = (as_slice m, capacity m)"

definition buffer_append :: "bytes \<Rightarrow> bytes \<times> nat \<Rightarrow> (bytes \<times> nat) option" where
  "buffer_append bs b = (if length (fst b) + length bs \<le> snd b then Some (fst b @ bs, snd b) else None)"

definition written :: "('a, 'e) result \<times> aligned_memory \<Rightarrow> aligned_memory option" where
  "written r = (case r of (Ok _, m) \<Rightarrow> Some m | (Err _, _) \<Rightarrow> None)"

section \<open>The interface of a buffer\<close>

text \<open>
  A bounded buffer that only grows: appending gives the old contents followed by the new bytes when they
  fit, and fails when they do not. Several appends are one append of the concatenation.
\<close>

locale byte_buffer =
  fixes ok :: "'m \<Rightarrow> bool" and contents :: "'m \<Rightarrow> bytes" and limit :: "'m \<Rightarrow> nat"
    and append :: "bytes \<Rightarrow> 'm \<Rightarrow> 'm option"
  assumes within: "ok m \<Longrightarrow> length (contents m) \<le> limit m"
    and append_Some: "ok m \<Longrightarrow> length (contents m) + length bs \<le> limit m \<Longrightarrow>
      \<exists>m'. append bs m = Some m' \<and> ok m' \<and> contents m' = contents m @ bs \<and> limit m' = limit m"
    and append_None: "ok m \<Longrightarrow> limit m < length (contents m) + length bs \<Longrightarrow> append bs m = None"
begin

lemma append_contents:
  assumes "ok m" "append bs m = Some m'"
  shows "ok m' \<and> contents m' = contents m @ bs \<and> limit m' = limit m"
proof -
  have "length (contents m) + length bs \<le> limit m" using append_None [of m bs] assms by fastforce
  then show ?thesis using append_Some [OF assms(1), of bs] assms(2) by auto
qed

lemma appends_contents:
  assumes "ok m" "fold (\<lambda>bs r. Option.bind r (append bs)) bss (Some m) = Some m'"
  shows "ok m' \<and> contents m' = contents m @ concat bss \<and> limit m' = limit m"
  using assms
proof (induction bss arbitrary: m)
  case (Cons bs bss)
  have none: "fold (\<lambda>bs r. Option.bind r (append bs)) bss None = None" by (induction bss) auto
  then obtain n where "append bs m = Some n" "fold (\<lambda>bs r. Option.bind r (append bs)) bss (Some n) = Some m'"
    using Cons.prems(2) by (cases "append bs m") auto
  then show ?case using append_contents [OF Cons.prems(1)] Cons.IH [of n] by simp
qed simp

lemma appends_defined:
  assumes "ok m" "length (contents m) + length (concat bss) \<le> limit m"
  shows "fold (\<lambda>bs r. Option.bind r (append bs)) bss (Some m) \<noteq> None"
  using assms
proof (induction bss arbitrary: m)
  case (Cons bs bss)
  then obtain n where "append bs m = Some n" "ok n" "contents n = contents m @ bs" "limit n = limit m"
    using append_Some [OF Cons.prems(1), of bs] by auto
  then show ?case using Cons.IH [of n] Cons.prems(2) by simp
qed simp

end

section \<open>Lemmas\<close>

lemma overwrite_length [simp]: "pos + length bs \<le> length block \<Longrightarrow> length (overwrite pos bs block) = length block"
  by (simp add: overwrite_def)

lemma overwrite_take:
  "pos + length bs \<le> length block \<Longrightarrow> take (pos + length bs) (overwrite pos bs block) = take pos block @ bs"
  by (simp add: overwrite_def)

lemma overwrite_drop:
  "pos + length bs \<le> length block \<Longrightarrow> drop (pos + length bs) (overwrite pos bs block) = drop (pos + length bs) block"
  by (simp add: overwrite_def)

lemma drop_zeros:
  assumes "drop l xs = replicate (length xs - l) z"
  shows "drop (l + n) xs = replicate (length xs - (l + n)) z"
proof -
  have "drop (l + n) xs = drop n (drop l xs)" by (simp add: add.commute)
  then show ?thesis by (simp add: assms)
qed

lemma take_zeros:
  assumes "drop l xs = replicate (length xs - l) z" "l + n \<le> length xs"
  shows "take (l + n) xs = take l xs @ replicate n z"
  using assms by (simp add: take_add)

lemma append_block:
  assumes "buffer_ok m" "al_length m + length bs \<le> capacity m"
  defines "m' \<equiv> m\<lparr>al_block := overwrite (al_length m) bs (al_block m), al_length := al_length m + length bs\<rparr>"
  shows "buffer_ok m' \<and> as_slice m' = as_slice m @ bs \<and> capacity m' = capacity m"
  using assms by (auto simp: buffer_ok_def as_slice_def capacity_def overwrite_take overwrite_drop drop_zeros)

lemma append_zeros:
  assumes "buffer_ok m" "al_length m + n \<le> capacity m" "al_zero_up_to_max_len m"
  defines "m' \<equiv> m\<lparr>al_length := al_length m + n\<rparr>"
  shows "buffer_ok m' \<and> as_slice m' = as_slice m @ replicate n 0 \<and> capacity m' = capacity m"
  using assms by (auto simp: buffer_ok_def as_slice_def capacity_def drop_zeros take_zeros)

lemma slice_length: "buffer_ok m \<Longrightarrow> length (as_slice m) = al_length m"
  by (simp add: buffer_ok_def as_slice_def capacity_def)

lemma fill_write_append:
  assumes "buffer_ok m"
  shows "if al_length m + num \<le> capacity m
    then \<exists>m'. fill_write num v m = (Ok (), m') \<and> buffer_ok m' \<and> as_slice m' = as_slice m @ replicate num v \<and> capacity m' = capacity m
    else fill_write num v m = (Err InvalidInput, m)"
  using append_zeros [OF assms, of num] append_block [OF assms, of "replicate num v"]
  by (auto simp: fill_write_def write_ptr_for_def Let_def)

lemma write_buf_append:
  assumes "buffer_ok m"
  shows "if al_length m + length bs \<le> capacity m
    then \<exists>m'. write_buf bs m = (Ok (length bs), m') \<and> buffer_ok m' \<and> as_slice m' = as_slice m @ bs \<and> capacity m' = capacity m
    else write_buf bs m = (Err InvalidInput, m)"
  using append_block [OF assms, of bs] by (auto simp: write_buf_def write_ptr_for_def Let_def)

lemma new_buffers_ok:
  assumes "length (fresh n) = n"
  shows "buffer_ok (with_capacity fresh n)" "buffer_ok (with_capacity_zeroed fresh n)" "buffer_ok (zero_filled fresh n)"
    "as_slice (with_capacity fresh n) = []" "as_slice (with_capacity_zeroed fresh n) = []"
    "as_slice (zero_filled fresh n) = replicate n 0"
    "capacity (with_capacity fresh n) = n" "capacity (with_capacity_zeroed fresh n) = n" "capacity (zero_filled fresh n) = n"
  using assms by (simp_all add: buffer_ok_def as_slice_def capacity_def with_capacity_def with_capacity_zeroed_def
      zero_filled_def aligned_vec_new_def)

interpretation aligned_buffer: byte_buffer buffer_ok as_slice capacity "\<lambda>bs m. written (write_buf bs m)"
proof
  show "buffer_ok m \<Longrightarrow> length (as_slice m) \<le> capacity m" for m
    by (simp add: slice_length) (simp add: buffer_ok_def)
next
  fix m and bs :: bytes
  assume m: "buffer_ok m" and fits: "length (as_slice m) + length bs \<le> capacity m"
  then show "\<exists>m'. written (write_buf bs m) = Some m' \<and> buffer_ok m' \<and> as_slice m' = as_slice m @ bs \<and> capacity m' = capacity m"
    using write_buf_append [OF m, of bs] by (auto simp: slice_length written_def)
next
  fix m and bs :: bytes
  assume m: "buffer_ok m" and "capacity m < length (as_slice m) + length bs"
  then show "written (write_buf bs m) = None"
    using write_buf_append [OF m, of bs] by (simp add: slice_length written_def)
qed

section \<open>Properties\<close>

text \<open>C37. An aligned buffer refines a bounded append-only byte list: \<open>fill_write\<close> and \<open>write\<close> commute with the abstraction to
  the bytes written so far, they fail exactly when the abstract append does, and they keep the invariant. In particular
  \<open>fill_write\<close> of zeros, which writes nothing to a block that was zeroed on allocation, still appends zeros.\<close>

theorem aligned_memory_refines:
  assumes "buffer_ok m"
  shows "map_option abs_buffer (written (fill_write num v m)) = buffer_append (replicate num v) (abs_buffer m)
    \<and> map_option abs_buffer (written (write_buf bs m)) = buffer_append bs (abs_buffer m)
    \<and> buffer_ok (snd (fill_write num v m)) \<and> buffer_ok (snd (write_buf bs m))"
  using assms fill_write_append [OF assms, of num v] write_buf_append [OF assms, of bs]
  by (auto simp: written_def abs_buffer_def buffer_append_def slice_length split: if_splits)

theorem aligned_memory_refines_witness:
  "map_option as_slice (written (fill_write 2 0 (with_capacity_zeroed (\<lambda>n. replicate n 7) 3))) = Some [0, 0]"
proof -
  have "buffer_ok (with_capacity_zeroed (\<lambda>n. replicate n 7) 3)" by (simp add: new_buffers_ok)
  from aligned_memory_refines [OF this, of 2 0 "[]"] show ?thesis
    by (auto simp: written_def abs_buffer_def buffer_append_def with_capacity_zeroed_def as_slice_def capacity_def
        aligned_vec_new_def fill_write_def write_ptr_for_def Let_def numeral_eq_Suc split: option.splits)
qed

end
