(* ===== verification/Rt_Pool.thy ===== *)
theory Rt_Pool
  imports Rt_Budget Sbpf_Aligned
begin

text \<open>
  The pool of stacks and heaps that programs run on, \<^verbatim>\<open>src/program-runtime/src/mem_pool.rs\<close>. A pool is an array of
  optional items with the index of the next empty slot; it behaves as a bounded stack. Memory is zeroed when it comes
  back, so no program sees what another one left behind.
\<close>

section \<open>Pools\<close>

record 'a pool =
  items :: "'a option list"
  next_empty :: nat

definition pool_new :: "'a list \<Rightarrow> 'a pool" where
  "pool_new xs = \<lparr>items = map Some xs, next_empty = length xs\<rparr>"

definition pool_get :: "'a pool \<Rightarrow> 'a option \<times> 'a pool" where
  "pool_get p =
    (if next_empty p = 0 then (None, p)
     else
       let p = p\<lparr>next_empty := next_empty p - 1\<rparr>
       in case get_at (items p) (next_empty p) of
            None \<Rightarrow> (None, p)
          | Some item \<Rightarrow> (item, p\<lparr>items := (items p)[next_empty p := None]\<rparr>))"

definition pool_put :: "('a \<Rightarrow> 'a) \<Rightarrow> 'a \<Rightarrow> 'a pool \<Rightarrow> bool \<times> 'a pool" where
  "pool_put reset v p =
    (case get_at (items p) (next_empty p) of
       None \<Rightarrow> (False, p)
     | Some _ \<Rightarrow> (True, p\<lparr>items := (items p)[next_empty p := Some (reset v)], next_empty := next_empty p + 1\<rparr>))"

definition reset_memory :: "aligned_memory \<Rightarrow> aligned_memory" where
  "reset_memory m = as_slice_mut (\<lambda>s. replicate (length s) 0) m"

record vm_memory_pool =
  stack_pool :: "aligned_memory pool"
  heap_pool :: "aligned_memory pool"

definition memory_pool_new :: "(nat \<Rightarrow> bytes) \<Rightarrow> vm_memory_pool" where
  "memory_pool_new fresh =
    \<lparr>stack_pool = pool_new (replicate MAX_INSTRUCTION_STACK_DEPTH_SIMD_0268 (zero_filled fresh (STACK_FRAME_SIZE * MAX_CALL_DEPTH))),
     heap_pool = pool_new (replicate MAX_INSTRUCTION_STACK_DEPTH_SIMD_0268 (zero_filled fresh (unat MAX_HEAP_FRAME_BYTES)))\<rparr>"

definition get_stack :: "(nat \<Rightarrow> bytes) \<Rightarrow> nat \<Rightarrow> vm_memory_pool \<Rightarrow> aligned_memory \<times> vm_memory_pool" where
  "get_stack fresh len mp =
    (let (m, p) = pool_get (stack_pool mp)
     in (case m of None \<Rightarrow> zero_filled fresh len | Some m \<Rightarrow> m, mp\<lparr>stack_pool := p\<rparr>))"

definition put_stack :: "aligned_memory \<Rightarrow> vm_memory_pool \<Rightarrow> bool \<times> vm_memory_pool" where
  "put_stack m mp = (let (b, p) = pool_put reset_memory m (stack_pool mp) in (b, mp\<lparr>stack_pool := p\<rparr>))"

definition get_heap :: "(nat \<Rightarrow> bytes) \<Rightarrow> u32 \<Rightarrow> vm_memory_pool \<Rightarrow> aligned_memory \<times> vm_memory_pool" where
  "get_heap fresh heap_size mp =
    (let (m, p) = pool_get (heap_pool mp)
     in (case m of None \<Rightarrow> zero_filled fresh (unat MAX_HEAP_FRAME_BYTES) | Some m \<Rightarrow> m, mp\<lparr>heap_pool := p\<rparr>))"

definition put_heap :: "aligned_memory \<Rightarrow> vm_memory_pool \<Rightarrow> bool \<times> vm_memory_pool" where
  "put_heap m mp = (let (b, p) = pool_put reset_memory m (heap_pool mp) in (b, mp\<lparr>heap_pool := p\<rparr>))"

section \<open>The pool as a bounded stack\<close>

definition pool_ok :: "'a pool \<Rightarrow> bool" where
  "pool_ok p \<longleftrightarrow> next_empty p \<le> length (items p) \<and> None \<notin> set (take (next_empty p) (items p))"

definition pool_stack :: "'a pool \<Rightarrow> 'a list" where
  "pool_stack p = map the (take (next_empty p) (items p))"

definition all_zero :: "aligned_memory \<Rightarrow> bool" where
  "all_zero m \<longleftrightarrow> as_slice m = replicate (length (as_slice m)) 0"

definition pool_clean :: "aligned_memory pool \<Rightarrow> bool" where
  "pool_clean p \<longleftrightarrow> pool_ok p \<and> list_all all_zero (pool_stack p)"

text \<open>What the users of a memory pool can do: take memory out, and put any buffer back.\<close>

inductive pool_reachable :: "(nat \<Rightarrow> bytes) \<Rightarrow> vm_memory_pool \<Rightarrow> bool" for fresh where
  pool_created: "pool_reachable fresh (memory_pool_new fresh)"
| stack_taken: "pool_reachable fresh mp \<Longrightarrow> pool_reachable fresh (snd (get_stack fresh len mp))"
| stack_returned: "pool_reachable fresh mp \<Longrightarrow> buffer_ok m \<Longrightarrow> pool_reachable fresh (snd (put_stack m mp))"
| heap_taken: "pool_reachable fresh mp \<Longrightarrow> pool_reachable fresh (snd (get_heap fresh heap_size mp))"
| heap_returned: "pool_reachable fresh mp \<Longrightarrow> buffer_ok m \<Longrightarrow> pool_reachable fresh (snd (put_heap m mp))"

section \<open>Lemmas\<close>

lemma pool_new_ok: "pool_ok (pool_new xs)" "pool_stack (pool_new xs) = xs"
  by (simp_all add: pool_ok_def pool_stack_def pool_new_def comp_def)

lemma pool_get_spec:
  assumes "pool_ok p"
  shows "pool_get p = (if pool_stack p = [] then (None, p) else
      (Some (last (pool_stack p)), p\<lparr>items := (items p)[next_empty p - 1 := None], next_empty := next_empty p - 1\<rparr>))"
proof (cases "next_empty p")
  case (Suc n)
  then have n: "n < length (items p)" "pool_stack p = map the (take n (items p)) @ [the (items p ! n)]"
    using assms by (auto simp: pool_ok_def pool_stack_def take_Suc_conv_app_nth)
  moreover obtain y where "items p ! n = Some y"
    using assms Suc n(1) by (cases "items p ! n") (auto simp: pool_ok_def take_Suc_conv_app_nth)
  ultimately show ?thesis using Suc by (auto simp: pool_get_def get_at_def)
qed (simp add: pool_get_def pool_stack_def)

lemma pool_get_stack:
  assumes "pool_ok p" "pool_stack p \<noteq> []"
  defines "p' \<equiv> p\<lparr>items := (items p)[next_empty p - 1 := None], next_empty := next_empty p - 1\<rparr>"
  shows "pool_ok p' \<and> pool_stack p' = butlast (pool_stack p)"
proof (cases "next_empty p")
  case (Suc n)
  then show ?thesis
    using assms by (auto simp: pool_ok_def pool_stack_def take_Suc_conv_app_nth)
qed (use assms(2) in \<open>simp add: pool_stack_def\<close>)

lemma pool_put_stack:
  fixes y :: "'a"
  assumes "pool_ok p" "next_empty p < length (items p)"
  defines "p' \<equiv> p\<lparr>items := (items p)[next_empty p := Some y], next_empty := next_empty p + 1\<rparr>"
  shows "pool_ok p' \<and> pool_stack p' = pool_stack p @ [y]"
  using assms by (auto simp: pool_ok_def pool_stack_def take_Suc_conv_app_nth)

lemma pool_stack_length: "pool_ok p \<Longrightarrow> length (pool_stack p) = next_empty p"
  by (simp add: pool_ok_def pool_stack_def)

lemma reset_memory_zero:
  assumes "buffer_ok m"
  shows "all_zero (reset_memory m)"
proof -
  have len: "length (as_slice m) = al_length m" using assms by (rule slice_length)
  then have "as_slice (reset_memory m) = replicate (al_length m) 0"
    by (simp add: reset_memory_def as_slice_mut_def as_slice_def overwrite_def)
  then show ?thesis by (simp add: all_zero_def)
qed

lemma zero_filled_zero: "all_zero (zero_filled fresh n)"
  by (simp add: all_zero_def zero_filled_def as_slice_def aligned_vec_new_def)

lemma pool_get_clean:
  assumes "pool_clean p" "pool_get p = (x, p')"
  shows "pool_clean p' \<and> (case x of None \<Rightarrow> True | Some m \<Rightarrow> all_zero m)"
proof (cases "pool_stack p = []")
  case False
  have ok: "pool_ok p" and zero: "list_all all_zero (pool_stack p)" using assms(1) by (simp_all add: pool_clean_def)
  have "all_zero (last (pool_stack p))" "list_all all_zero (butlast (pool_stack p))"
    using zero False by (auto simp: list_all_iff dest: in_set_butlastD)
  then show ?thesis
    using pool_get_spec [OF ok] pool_get_stack [OF ok False] assms(2) False by (auto simp: pool_clean_def)
qed (use assms pool_get_spec [of p] in \<open>auto simp: pool_clean_def\<close>)

lemma pool_put_clean:
  assumes "pool_clean p" "buffer_ok m"
  shows "pool_clean (snd (pool_put reset_memory m p))"
  using assms pool_put_stack [of p "reset_memory m"] reset_memory_zero [OF assms(2)]
  by (auto simp: pool_clean_def pool_put_def split: option.split)

lemma pool_new_clean: "pool_clean (pool_new (replicate k (zero_filled fresh n)))"
  by (simp add: pool_clean_def pool_new_ok list_all_iff zero_filled_zero)

lemma reachable_clean:
  assumes "pool_reachable fresh mp"
  shows "pool_clean (stack_pool mp) \<and> pool_clean (heap_pool mp)"
  using assms
proof induction
  case pool_created
  then show ?case by (simp add: memory_pool_new_def pool_new_clean)
qed (auto simp: get_stack_def get_heap_def put_stack_def put_heap_def pool_put_clean
    split: prod.splits dest: pool_get_clean pool_put_clean)

section \<open>Properties\<close>

text \<open>C36. A pool refines a bounded stack. Taking an item out pops the stack and fails exactly when it is empty; putting an
  item in resets it, pushes it, and is refused without a change exactly when all slots are taken.\<close>

theorem pool_refines_stack:
  assumes "pool_ok p"
  shows "(case pool_get p of
        (None, p') \<Rightarrow> pool_stack p = [] \<and> p' = p
      | (Some x, p') \<Rightarrow> pool_stack p = pool_stack p' @ [x] \<and> pool_ok p')
    \<and> (case pool_put reset v p of
        (False, p') \<Rightarrow> length (pool_stack p) = length (items p) \<and> p' = p
      | (True, p') \<Rightarrow> pool_stack p' = pool_stack p @ [reset v] \<and> pool_ok p' \<and> length (items p') = length (items p))"
proof -
  have "next_empty p \<le> length (items p)" using assms by (simp add: pool_ok_def)
  then show ?thesis
    using pool_get_spec [OF assms] pool_get_stack [OF assms] pool_put_stack [OF assms, of "reset v"] pool_stack_length [OF assms]
    by (auto simp: pool_put_def get_at_def)
qed

theorem pool_refines_stack_witness: "fst (pool_get (pool_new [1 :: nat, 2])) = Some 2"
  using pool_refines_stack [OF pool_new_ok(1), of "[1 :: nat, 2]" id 0]
  by (simp add: pool_get_def pool_new_def pool_stack_def get_at_def)

text \<open>C22. No program sees what another one left in its stack or heap: whatever sequence of takes and returns a memory pool has
  gone through, the stack and the heap it hands out next are filled with zeros.\<close>

theorem pool_memory_zeroed:
  assumes "pool_reachable fresh mp"
  shows "all_zero (fst (get_stack fresh len mp)) \<and> all_zero (fst (get_heap fresh heap_size mp))"
proof -
  obtain x p y q where "pool_get (stack_pool mp) = (x, p)" "pool_get (heap_pool mp) = (y, q)"
    by (metis surj_pair)
  then show ?thesis
    using reachable_clean [OF assms] pool_get_clean zero_filled_zero
    by (fastforce simp: get_stack_def get_heap_def split: option.splits)
qed

theorem pool_memory_zeroed_witness:
  "all_zero (fst (get_stack (\<lambda>n. replicate n 7) 8
     (snd (put_stack \<lparr>al_block = [1, 2, 3], al_length = 2, al_zero_up_to_max_len = False\<rparr>
       (snd (get_stack (\<lambda>n. replicate n 7) 8 (memory_pool_new (\<lambda>n. replicate n 7))))))))"
proof -
  have "buffer_ok \<lparr>al_block = [1, 2, 3], al_length = 2, al_zero_up_to_max_len = False\<rparr>"
    by (simp add: buffer_ok_def capacity_def)
  from pool_memory_zeroed [OF stack_returned [OF stack_taken [OF pool_created] this]] show ?thesis by blast
qed

end
