(* ===== verification/Tx_Accounts.thy ===== *)
theory Tx_Accounts
  imports Svm_Prelude
begin

text \<open>
  The accounts of a transaction, \<^verbatim>\<open>src/transaction-context/src/transaction_accounts.rs\<close> and \<^verbatim>\<open>vm_slice.rs\<close>: the
  shared and the private half of every account, the borrow counters, the touched flags and the two
  running totals of a transaction. A guard (\<open>AccountRef\<close>, \<open>AccountRefMut\<close>) is represented by the index of its account;
  dropping it is an operation of its own. The value of an \<open>i8\<close>, \<open>i64\<close> or \<open>i128\<close> cell is an \<open>int\<close>, with the
  saturation or the overflow check of each operation written out. Whether an \<open>Arc\<close> is shared is a flag of the
  account; capacities of vectors are left out.
\<close>

section \<open>Errors and constants\<close>

type_synonym pubkey = bytes

text \<open>The variants of \<open>InstructionError\<close> that the modelled code raises or inspects.\<close>

datatype instruction_error =
    GenericError | InvalidArgument | InvalidInstructionData | InvalidAccountData | AccountDataTooSmall
  | InsufficientFunds | IncorrectProgramId | MissingRequiredSignature | AccountAlreadyInitialized
  | UninitializedAccount | UnbalancedInstruction | ModifiedProgramId | ExternalAccountLamportSpend
  | ExternalAccountDataModified | ReadonlyLamportChange | ReadonlyDataModified | ExecutableModified
  | MissingAccount | AccountBorrowFailed | AccountBorrowOutstanding | AccountDataSizeChanged
  | CallDepth | ReentrancyNotAllowed | MaxSeedLengthExceeded | InvalidRealloc | ComputationalBudgetExceeded
  | PrivilegeEscalation | ProgramFailedToComplete | Immutable | IncorrectAuthority | AccountNotRentExempt
  | InvalidAccountOwner | ArithmeticOverflow | UnsupportedSysvar | UnsupportedProgramId
  | ExecutableAccountNotRentExempt | AccountNotExecutable | MaxAccountsDataAllocationsExceeded
  | MaxAccountsExceeded | MaxInstructionTraceLengthExceeded | BuiltinProgramsMustConsumeComputeUnits
  | ProgramEnvironmentSetupFailure | NotEnoughAccountKeys | InvalidError | Custom u32

type_synonym ('s, 'a) ix = "('s, 'a, instruction_error failure) sm"

definition fail_with :: "instruction_error \<Rightarrow> ('s, 'a) ix" where
  "fail_with e = throw (Fail e)"

definition MAX_ACCOUNT_DATA_LEN :: nat where
  "MAX_ACCOUNT_DATA_LEN = 10 * 1024 * 1024"

definition MAX_ACCOUNT_DATA_GROWTH_PER_TRANSACTION :: int where
  "MAX_ACCOUNT_DATA_GROWTH_PER_TRANSACTION = int MAX_ACCOUNT_DATA_LEN * 2"

definition GUEST_REGION_SIZE :: u64 where
  "GUEST_REGION_SIZE = push_bit 32 1"

definition RETURN_DATA_SCRATCHPAD :: u64 where
  "RETURN_DATA_SCRATCHPAD = 7 * GUEST_REGION_SIZE"

definition GUEST_ACCOUNT_PAYLOAD_BASE_ADDRESS :: u64 where
  "GUEST_ACCOUNT_PAYLOAD_BASE_ADDRESS = 8 * GUEST_REGION_SIZE"

section \<open>Slices in the virtual address space\<close>

record vm_slice =
  slice_ptr :: u64
  slice_len :: u64

definition slice_is_empty :: "vm_slice \<Rightarrow> bool" where
  "slice_is_empty sl \<longleftrightarrow> slice_len sl = 0"

definition slice_end :: "u64 \<Rightarrow> vm_slice \<Rightarrow> u64" where
  "slice_end size_of sl = saturating_add (slice_ptr sl) (saturating_mul (slice_len sl) size_of)"

section \<open>Accounts\<close>

record account_shared_data =
  lamports :: u64
  data :: bytes
  owner :: pubkey
  executable_flag :: bool
  rent_epoch :: u64

record account_shared_fields =
  acc_key :: pubkey
  acc_owner :: pubkey
  acc_lamports :: u64
  acc_slice :: vm_slice

record account_private_fields =
  acc_rent_epoch :: u64
  acc_executable :: bool
  acc_payload :: bytes
  acc_payload_shared :: bool

record transaction_accounts =
  shared_account_fields :: "account_shared_fields list"
  private_account_fields :: "account_private_fields list"
  borrow_counters :: "int list"
  touched_flags :: "bool list"
  resize_delta :: int
  lamports_delta :: int

text \<open>The view of one account (\<open>TransactionAccountView\<close>) and its equality with account data.\<close>

definition view_account :: "transaction_accounts \<Rightarrow> nat \<Rightarrow> account_shared_data" where
  "view_account ta n =
    (let a = shared_account_fields ta ! n; p = private_account_fields ta ! n
     in \<lparr>lamports = acc_lamports a, data = acc_payload p, owner = acc_owner a,
         executable_flag = acc_executable p, rent_epoch = acc_rent_epoch p\<rparr>)"

definition view_eq :: "transaction_accounts \<Rightarrow> nat \<Rightarrow> account_shared_data \<Rightarrow> bool" where
  "view_eq ta n other \<longleftrightarrow>
     lamports other = lamports (view_account ta n)
     \<and> data other = data (view_account ta n)
     \<and> owner other = owner (view_account ta n)
     \<and> executable_flag other = executable_flag (view_account ta n)
     \<and> rent_epoch other = rent_epoch (view_account ta n)"

definition update_shared :: "nat \<Rightarrow> (account_shared_fields \<Rightarrow> account_shared_fields) \<Rightarrow> transaction_accounts \<Rightarrow> transaction_accounts" where
  "update_shared n f ta = ta\<lparr>shared_account_fields := (shared_account_fields ta)[n := f (shared_account_fields ta ! n)]\<rparr>"

definition update_private :: "nat \<Rightarrow> (account_private_fields \<Rightarrow> account_private_fields) \<Rightarrow> transaction_accounts \<Rightarrow> transaction_accounts" where
  "update_private n f ta = ta\<lparr>private_account_fields := (private_account_fields ta)[n := f (private_account_fields ta ! n)]\<rparr>"

definition set_slice_len :: "nat \<Rightarrow> nat \<Rightarrow> transaction_accounts \<Rightarrow> transaction_accounts" where
  "set_slice_len n len = update_shared n (\<lambda>a. a\<lparr>acc_slice := (acc_slice a)\<lparr>slice_len := word_of_nat len\<rparr>\<rparr>)"

definition payload_len :: "transaction_accounts \<Rightarrow> nat \<Rightarrow> nat" where
  "payload_len ta n = length (acc_payload (private_account_fields ta ! n))"

text \<open>\<open>Arc::make_mut\<close> gives the account a buffer of its own before it is written.\<close>

definition view_write_data :: "nat \<Rightarrow> (bytes \<Rightarrow> bytes) \<Rightarrow> transaction_accounts \<Rightarrow> transaction_accounts" where
  "view_write_data n f = update_private n (\<lambda>p. p\<lparr>acc_payload := f (acc_payload p), acc_payload_shared := False\<rparr>)"

definition view_resize :: "nat \<Rightarrow> nat \<Rightarrow> u8 \<Rightarrow> transaction_accounts \<Rightarrow> transaction_accounts" where
  "view_resize n new_len v ta =
    set_slice_len n new_len (view_write_data n (\<lambda>bs. vec_resize bs new_len v) ta)"

definition view_set_data_from_slice :: "nat \<Rightarrow> bytes \<Rightarrow> transaction_accounts \<Rightarrow> transaction_accounts" where
  "view_set_data_from_slice n new_data ta =
    set_slice_len n (length new_data) (view_write_data n (\<lambda>_. new_data) ta)"

definition view_extend_from_slice :: "nat \<Rightarrow> bytes \<Rightarrow> transaction_accounts \<Rightarrow> transaction_accounts" where
  "view_extend_from_slice n extra ta =
    (let ta = view_write_data n (\<lambda>bs. bs @ extra) ta in set_slice_len n (payload_len ta n) ta)"

definition view_reserve :: "nat \<Rightarrow> transaction_accounts \<Rightarrow> transaction_accounts" where
  "view_reserve n = update_private n (\<lambda>p. p\<lparr>acc_payload_shared := False\<rparr>)"

definition view_is_shared :: "transaction_accounts \<Rightarrow> nat \<Rightarrow> bool" where
  "view_is_shared ta n = acc_payload_shared (private_account_fields ta ! n)"

definition view_set_lamports :: "nat \<Rightarrow> u64 \<Rightarrow> transaction_accounts \<Rightarrow> transaction_accounts" where
  "view_set_lamports n x = update_shared n (\<lambda>a. a\<lparr>acc_lamports := x\<rparr>)"

definition view_set_owner :: "nat \<Rightarrow> pubkey \<Rightarrow> transaction_accounts \<Rightarrow> transaction_accounts" where
  "view_set_owner n x = update_shared n (\<lambda>a. a\<lparr>acc_owner := x\<rparr>)"

text \<open>\<open>copy_from_slice\<close> panics when the slices differ in length.\<close>

definition view_copy_into_owner_from_slice :: "nat \<Rightarrow> bytes \<Rightarrow> (transaction_accounts, unit) ix" where
  "view_copy_into_owner_from_slice n source ta =
    (if length source = length (acc_owner (shared_account_fields ta ! n))
     then (Ok (), view_set_owner n source ta) else (Err Panic, ta))"

definition view_set_executable :: "nat \<Rightarrow> bool \<Rightarrow> transaction_accounts \<Rightarrow> transaction_accounts" where
  "view_set_executable n b = update_private n (\<lambda>p. p\<lparr>acc_executable := b\<rparr>)"

definition view_set_rent_epoch :: "nat \<Rightarrow> u64 \<Rightarrow> transaction_accounts \<Rightarrow> transaction_accounts" where
  "view_set_rent_epoch n x = update_private n (\<lambda>p. p\<lparr>acc_rent_epoch := x\<rparr>)"

section \<open>Borrow counters\<close>

definition is_writing :: "int \<Rightarrow> bool" where
  "is_writing c \<longleftrightarrow> c < 0"

definition is_reading :: "int \<Rightarrow> bool" where
  "is_reading c \<longleftrightarrow> c > 0"

definition counter_try_borrow :: "int \<Rightarrow> (int, instruction_error) result" where
  "counter_try_borrow c =
    (if is_writing c then Err AccountBorrowFailed
     else if c + 1 \<le> 127 then Ok (c + 1) else Err AccountBorrowFailed)"

definition counter_try_borrow_mut :: "int \<Rightarrow> (int, instruction_error) result" where
  "counter_try_borrow_mut c =
    (if is_writing c \<or> is_reading c then Err AccountBorrowFailed else Ok (max (- 128) (c - 1)))"

definition counter_release_borrow :: "int \<Rightarrow> int" where
  "counter_release_borrow c = max (- 128) (c - 1)"

definition counter_release_borrow_mut :: "int \<Rightarrow> int" where
  "counter_release_borrow_mut c = min 127 (c + 1)"

section \<open>The accounts of a transaction\<close>

definition new_shared_fields :: "nat \<Rightarrow> pubkey \<times> account_shared_data \<Rightarrow> account_shared_fields" where
  "new_shared_fields idx item =
    \<lparr>acc_key = fst item, acc_owner = owner (snd item), acc_lamports = lamports (snd item),
     acc_slice = \<lparr>slice_ptr = saturating_add GUEST_ACCOUNT_PAYLOAD_BASE_ADDRESS
                     (saturating_mul GUEST_REGION_SIZE (word_of_nat idx)),
                  slice_len = word_of_nat (length (data (snd item)))\<rparr>\<rparr>"

text \<open>\<open>data_clone\<close> shares the buffer with the account it comes from.\<close>

definition new_private_fields :: "pubkey \<times> account_shared_data \<Rightarrow> account_private_fields" where
  "new_private_fields item =
    \<lparr>acc_rent_epoch = rent_epoch (snd item), acc_executable = executable_flag (snd item),
     acc_payload = data (snd item), acc_payload_shared = True\<rparr>"

definition accounts_new :: "(pubkey \<times> account_shared_data) list \<Rightarrow> transaction_accounts" where
  "accounts_new accounts =
    \<lparr>shared_account_fields = map2 new_shared_fields [0..<length accounts] accounts,
     private_account_fields = map new_private_fields accounts,
     borrow_counters = replicate (length accounts) 0,
     touched_flags = replicate (length accounts) False,
     resize_delta = 0, lamports_delta = 0\<rparr>"

definition accounts_len :: "transaction_accounts \<Rightarrow> nat" where
  "accounts_len ta = length (shared_account_fields ta)"

definition touch :: "u16 \<Rightarrow> (transaction_accounts, unit) ix" where
  "touch index ta =
    (if unat index < length (touched_flags ta)
     then (Ok (), ta\<lparr>touched_flags := (touched_flags ta)[unat index := True]\<rparr>)
     else (Err (Fail MissingAccount), ta))"

definition update_accounts_resize_delta :: "nat \<Rightarrow> nat \<Rightarrow> (transaction_accounts, unit) ix" where
  "update_accounts_resize_delta old_len new_len ta =
    (Ok (), ta\<lparr>resize_delta :=
       saturate_i64 (resize_delta ta + saturate_i64 (usize_as_i64 new_len - usize_as_i64 old_len))\<rparr>)"

definition can_data_be_resized :: "nat \<Rightarrow> nat \<Rightarrow> transaction_accounts \<Rightarrow> (unit, instruction_error failure) result" where
  "can_data_be_resized old_len new_len ta =
    (if new_len > MAX_ACCOUNT_DATA_LEN then Err (Fail InvalidRealloc)
     else
       let length_delta = saturate_i64 (usize_as_i64 new_len - usize_as_i64 old_len) in
       if saturate_i64 (resize_delta ta + length_delta) > MAX_ACCOUNT_DATA_GROWTH_PER_TRANSACTION
       then Err (Fail MaxAccountsDataAllocationsExceeded)
       else Ok ())"

definition borrow_with :: "(int \<Rightarrow> (int, instruction_error) result) \<Rightarrow> u16 \<Rightarrow> (transaction_accounts, nat) ix" where
  "borrow_with borrow index ta =
    (case get_at (borrow_counters ta) (unat index) of
       None \<Rightarrow> (Err (Fail MissingAccount), ta)
     | Some c \<Rightarrow>
         (case borrow c of
            Err e \<Rightarrow> (Err (Fail e), ta)
          | Ok c \<Rightarrow>
              let ta = ta\<lparr>borrow_counters := (borrow_counters ta)[unat index := c]\<rparr> in
              if unat index < length (shared_account_fields ta) \<and> unat index < length (private_account_fields ta)
              then (Ok (unat index), ta) else (Err Panic, ta)))"

definition try_borrow_mut :: "u16 \<Rightarrow> (transaction_accounts, nat) ix" where
  "try_borrow_mut = borrow_with counter_try_borrow_mut"

definition try_borrow :: "u16 \<Rightarrow> (transaction_accounts, nat) ix" where
  "try_borrow = borrow_with counter_try_borrow"

definition drop_ref :: "nat \<Rightarrow> transaction_accounts \<Rightarrow> transaction_accounts" where
  "drop_ref n ta =
    ta\<lparr>borrow_counters := (borrow_counters ta)[n := counter_release_borrow (borrow_counters ta ! n)]\<rparr>"

definition drop_ref_mut :: "nat \<Rightarrow> transaction_accounts \<Rightarrow> transaction_accounts" where
  "drop_ref_mut n ta =
    (let ta = set_slice_len n (payload_len ta n) ta
     in ta\<lparr>borrow_counters := (borrow_counters ta)[n := counter_release_borrow_mut (borrow_counters ta ! n)]\<rparr>)"

definition add_lamports_delta :: "int \<Rightarrow> (transaction_accounts, unit) ix" where
  "add_lamports_delta balance ta =
    (case checked_i128 (lamports_delta ta + balance) of
       None \<Rightarrow> (Err (Fail ArithmeticOverflow), ta)
     | Some delta \<Rightarrow> (Ok (), ta\<lparr>lamports_delta := delta\<rparr>))"

definition deconstruct_account :: "account_shared_fields \<Rightarrow> account_private_fields \<Rightarrow> account_shared_data" where
  "deconstruct_account a p =
    \<lparr>lamports = acc_lamports a, data = acc_payload p, owner = acc_owner a,
     executable_flag = acc_executable p, rent_epoch = acc_rent_epoch p\<rparr>"

definition deconstruct_into_keyed_account_shared_data ::
  "transaction_accounts \<Rightarrow> (pubkey \<times> account_shared_data) list" where
  "deconstruct_into_keyed_account_shared_data ta =
    map2 (\<lambda>a p. (acc_key a, deconstruct_account a p)) (shared_account_fields ta) (private_account_fields ta)"

definition deconstruct_into_account_shared_data :: "transaction_accounts \<Rightarrow> account_shared_data list" where
  "deconstruct_into_account_shared_data ta =
    map2 deconstruct_account (shared_account_fields ta) (private_account_fields ta)"

definition take_accounts :: "transaction_accounts \<Rightarrow> (pubkey \<times> account_shared_data) list \<times> bool list \<times> int" where
  "take_accounts ta = (deconstruct_into_keyed_account_shared_data ta, touched_flags ta, resize_delta ta)"

definition account_key :: "u16 \<Rightarrow> transaction_accounts \<Rightarrow> pubkey option" where
  "account_key index ta = map_option acc_key (get_at (shared_account_fields ta) (unat index))"

definition account_keys :: "transaction_accounts \<Rightarrow> pubkey list" where
  "account_keys ta = map acc_key (shared_account_fields ta)"

end
