(* ===== verification/Rt_Logs.thy ===== *)
theory Rt_Logs
  imports Tx_Accounts
begin

text \<open>
  The log collector, \<^verbatim>\<open>src/log-collector/src/lib.rs\<close>, and the stable log messages of
  \<^verbatim>\<open>src/program-runtime/src/stable_log.rs\<close>. A message is a string of bytes. How a public key, an error or a base-64 text is
  printed is decided elsewhere and is a parameter.
\<close>

section \<open>The log collector\<close>

record log_collector =
  messages :: "string list"
  bytes_written :: nat
  bytes_limit :: "nat option"
  limit_warning :: bool

definition LOG_MESSAGES_BYTES_LIMIT :: nat where
  "LOG_MESSAGES_BYTES_LIMIT = 10 * 1000"

definition log_collector_default :: log_collector where
  "log_collector_default =
    \<lparr>messages = [], bytes_written = 0, bytes_limit = Some LOG_MESSAGES_BYTES_LIMIT, limit_warning = False\<rparr>"

definition new_ref_with_limit :: "nat option \<Rightarrow> log_collector" where
  "new_ref_with_limit limit = log_collector_default\<lparr>bytes_limit := limit\<rparr>"

definition log_message :: "string \<Rightarrow> log_collector \<Rightarrow> log_collector" where
  "log_message message c =
    (case bytes_limit c of
       None \<Rightarrow> c\<lparr>messages := messages c @ [message]\<rparr>
     | Some limit \<Rightarrow>
         let written = bytes_written c + length message in
         if written \<ge> limit then
           (if \<not> limit_warning c then c\<lparr>limit_warning := True, messages := messages c @ [''Log truncated'']\<rparr> else c)
         else c\<lparr>bytes_written := written, messages := messages c @ [message]\<rparr>)"

text \<open>\<open>ic_logger_msg!\<close>: nothing is logged without a collector.\<close>

definition ic_logger_msg :: "string \<Rightarrow> log_collector option \<Rightarrow> log_collector option" where
  "ic_logger_msg message = map_option (log_message message)"

section \<open>Stable messages\<close>

function show_nat :: "nat \<Rightarrow> string" where
  "show_nat n = (if n < 10 then [char_of (48 + n)] else show_nat (n div 10) @ [char_of (48 + n mod 10)])"
  by pat_completeness auto

termination show_nat by (relation "measure id") auto

declare show_nat.simps [simp del]

definition program_invoke :: "(pubkey \<Rightarrow> string) \<Rightarrow> pubkey \<Rightarrow> nat \<Rightarrow> log_collector option \<Rightarrow> log_collector option" where
  "program_invoke show_key program_id invoke_depth =
    ic_logger_msg (''Program '' @ show_key program_id @ '' invoke ['' @ show_nat invoke_depth @ '']'')"

definition program_log :: "string \<Rightarrow> log_collector option \<Rightarrow> log_collector option" where
  "program_log message = ic_logger_msg (''Program log: '' @ message)"

fun join :: "string \<Rightarrow> string list \<Rightarrow> string" where
  "join sep [] = []"
| "join sep [s] = s"
| "join sep (s # t # ss) = s @ sep @ join sep (t # ss)"

definition program_data :: "(bytes \<Rightarrow> string) \<Rightarrow> bytes list \<Rightarrow> log_collector option \<Rightarrow> log_collector option" where
  "program_data base64 chunks = ic_logger_msg (''Program data: '' @ join '' '' (map base64 chunks))"

definition program_return ::
  "(pubkey \<Rightarrow> string) \<Rightarrow> (bytes \<Rightarrow> string) \<Rightarrow> pubkey \<Rightarrow> bytes \<Rightarrow> log_collector option \<Rightarrow> log_collector option" where
  "program_return show_key base64 program_id bs =
    ic_logger_msg (''Program return: '' @ show_key program_id @ '' '' @ base64 bs)"

definition program_success :: "(pubkey \<Rightarrow> string) \<Rightarrow> pubkey \<Rightarrow> log_collector option \<Rightarrow> log_collector option" where
  "program_success show_key program_id = ic_logger_msg (''Program '' @ show_key program_id @ '' success'')"

definition program_failure ::
  "(pubkey \<Rightarrow> string) \<Rightarrow> ('e \<Rightarrow> string) \<Rightarrow> pubkey \<Rightarrow> 'e \<Rightarrow> log_collector option \<Rightarrow> log_collector option" where
  "program_failure show_key show_error program_id err =
    ic_logger_msg (''Program '' @ show_key program_id @ '' failed: '' @ show_error err)"

abbreviation total_bytes :: "string list \<Rightarrow> nat" where
  "total_bytes ms \<equiv> sum_list (map length ms)"

section \<open>Lemmas\<close>

lemma log_message_bound:
  assumes "bytes_limit c = Some limit" "bytes_written c \<le> limit"
    "total_bytes (messages c) = bytes_written c + (if limit_warning c then 13 else 0)"
  shows "bytes_limit (log_message m c) = Some limit \<and> bytes_written (log_message m c) \<le> limit
    \<and> total_bytes (messages (log_message m c))
      = bytes_written (log_message m c) + (if limit_warning (log_message m c) then 13 else 0)"
  using assms by (simp add: log_message_def Let_def)

lemma fold_log_bound:
  assumes "bytes_limit c = Some limit" "bytes_written c \<le> limit"
    "total_bytes (messages c) = bytes_written c + (if limit_warning c then 13 else 0)"
  shows "total_bytes (messages (fold log_message ms c)) \<le> limit + 13"
  using assms
proof (induction ms arbitrary: c)
  case (Cons m ms)
  from Cons.IH [of "log_message m c"] log_message_bound [OF Cons.prems] show ?case by simp
qed (auto split: if_splits)

lemma fold_log_complete:
  assumes "bytes_limit c = Some limit" "bytes_written c + total_bytes ms < limit"
  shows "messages (fold log_message ms c) = messages c @ ms"
  using assms
proof (induction ms arbitrary: c)
  case (Cons m ms)
  then show ?case using Cons.IH [of "log_message m c"] by (simp add: log_message_def Let_def)
qed simp

section \<open>Properties\<close>

text \<open>The log of a transaction is bounded and loses nothing below its bound: whatever is logged, the messages kept take at
  most the limit and the one truncation notice; when the messages together stay below the limit, all of them are kept in
  order.\<close>

theorem log_bounded:
  "total_bytes (messages (fold log_message ms (new_ref_with_limit (Some limit)))) \<le> limit + length ''Log truncated''
    \<and> (total_bytes ms \<ge> limit \<or> messages (fold log_message ms (new_ref_with_limit (Some limit))) = ms)"
  using fold_log_bound [of "new_ref_with_limit (Some limit)" limit ms]
    fold_log_complete [of "new_ref_with_limit (Some limit)" limit ms]
  by (cases "total_bytes ms < limit") (simp_all add: new_ref_with_limit_def log_collector_default_def)

end
