(* ===== verification/Tx_Context.thy ===== *)
theory Tx_Context
  imports Tx_Accounts
begin

text \<open>
  The transaction context, \<^verbatim>\<open>src/transaction-context/src/transaction.rs\<close>, \<^verbatim>\<open>instruction.rs\<close> and \<^verbatim>\<open>instruction_accounts.rs\<close>:
  the instruction stack and trace, the views of instructions, and the operations that a program performs
  on an account it has borrowed. A borrowed account is the index of its guard, its metadata in the instruction and the
  index of the program that runs; its operations work on the context that the guard points into.

  \<open>Rent::is_exempt\<close>, the ids of the sysvars and \<open>store_current_index_checked\<close> belong to other packages and are
  parameters. Lengths and indexes of type \<open>usize\<close> are natural numbers.
\<close>

section \<open>Instructions\<close>

definition MAX_ACCOUNTS_PER_TRANSACTION :: nat where
  "MAX_ACCOUNTS_PER_TRANSACTION = 256"

definition GUEST_INSTRUCTION_DATA_BASE_ADDRESS :: u64 where
  "GUEST_INSTRUCTION_DATA_BASE_ADDRESS = 264 * GUEST_REGION_SIZE"

definition GUEST_INSTRUCTION_ACCOUNT_BASE_ADDRESS :: u64 where
  "GUEST_INSTRUCTION_ACCOUNT_BASE_ADDRESS = 328 * GUEST_REGION_SIZE"

record instruction_account =
  index_in_transaction :: u16
  is_signer_byte :: u8
  is_writable_byte :: u8

definition bool_as_u8 :: "bool \<Rightarrow> u8" where
  "bool_as_u8 b = (if b then 1 else 0)"

definition instruction_account_new :: "u16 \<Rightarrow> bool \<Rightarrow> bool \<Rightarrow> instruction_account" where
  "instruction_account_new index signer writer =
    \<lparr>index_in_transaction = index, is_signer_byte = bool_as_u8 signer, is_writable_byte = bool_as_u8 writer\<rparr>"

definition is_signer :: "instruction_account \<Rightarrow> bool" where
  "is_signer ia \<longleftrightarrow> is_signer_byte ia \<noteq> 0"

definition is_writable :: "instruction_account \<Rightarrow> bool" where
  "is_writable ia \<longleftrightarrow> is_writable_byte ia \<noteq> 0"

definition set_is_signer :: "bool \<Rightarrow> instruction_account \<Rightarrow> instruction_account" where
  "set_is_signer b ia = ia\<lparr>is_signer_byte := bool_as_u8 b\<rparr>"

definition set_is_writable :: "bool \<Rightarrow> instruction_account \<Rightarrow> instruction_account" where
  "set_is_writable b ia = ia\<lparr>is_writable_byte := bool_as_u8 b\<rparr>"

record instruction_frame =
  program_account_index_in_tx :: u16
  nesting_level :: u16
  index_of_caller_instruction :: u16
  accounts_slice :: vm_slice
  data_slice :: vm_slice

definition instruction_frame_default :: instruction_frame where
  "instruction_frame_default =
    \<lparr>program_account_index_in_tx = 0, nesting_level = 0, index_of_caller_instruction = 0xffff,
     accounts_slice = \<lparr>slice_ptr = 0, slice_len = 0\<rparr>, data_slice = \<lparr>slice_ptr = 0, slice_len = 0\<rparr>\<rparr>"

definition configure_vm_slices :: "u64 \<Rightarrow> nat \<Rightarrow> u64 \<Rightarrow> instruction_frame \<Rightarrow> instruction_frame" where
  "configure_vm_slices instruction_index accounts_length data_len f =
    (let common_offset = saturating_mul GUEST_REGION_SIZE instruction_index
     in f\<lparr>data_slice := \<lparr>slice_ptr = saturating_add GUEST_INSTRUCTION_DATA_BASE_ADDRESS common_offset, slice_len = data_len\<rparr>,
          accounts_slice := \<lparr>slice_ptr = saturating_add GUEST_INSTRUCTION_ACCOUNT_BASE_ADDRESS common_offset,
                             slice_len = word_of_nat accounts_length\<rparr>\<rparr>)"

section \<open>The transaction context\<close>

record transaction_frame =
  return_data_pubkey :: pubkey
  return_data_scratchpad :: vm_slice
  cpi_scratchpad :: vm_slice
  current_executing_instruction :: u16
  total_number_of_instructions_in_trace :: u16
  number_of_cpis_in_trace :: u16
  number_of_transaction_accounts :: u16

record transaction_context =
  accounts :: transaction_accounts
  instruction_stack_capacity :: nat
  instruction_trace_capacity :: nat
  instruction_stack :: "nat list"
  instruction_trace :: "instruction_frame list"
  tx_frame :: transaction_frame
  return_data_bytes :: bytes
  next_top_level_instruction_index :: nat
  rent_is_exempt :: "u64 \<Rightarrow> nat \<Rightarrow> bool"
  deduplication_maps :: "u16 list list"
  instruction_accounts :: "instruction_account list list"
  instruction_data :: "bytes list"

record sysvar_interface =
  instructions_id :: pubkey
  sysvar_id :: pubkey
  store_current_index_checked :: "u16 \<Rightarrow> bytes \<Rightarrow> (bytes, instruction_error) result"

definition context_new ::
  "(pubkey \<times> account_shared_data) list \<Rightarrow> (u64 \<Rightarrow> nat \<Rightarrow> bool) \<Rightarrow> nat \<Rightarrow> nat \<Rightarrow> nat \<Rightarrow> transaction_context" where
  "context_new txa rent stack_capacity trace_capacity number_of_top_level_instructions =
    (let frame = \<lparr>return_data_pubkey = replicate 32 0,
           return_data_scratchpad = \<lparr>slice_ptr = RETURN_DATA_SCRATCHPAD, slice_len = 0\<rparr>,
           cpi_scratchpad = \<lparr>slice_ptr = saturating_add GUEST_INSTRUCTION_DATA_BASE_ADDRESS
                (saturating_mul GUEST_REGION_SIZE (word_of_nat number_of_top_level_instructions)), slice_len = 0\<rparr>,
           current_executing_instruction = 0,
           total_number_of_instructions_in_trace = word_of_nat number_of_top_level_instructions,
           number_of_cpis_in_trace = 0,
           number_of_transaction_accounts = word_of_nat (length txa)\<rparr>
     in \<lparr>accounts = accounts_new txa, instruction_stack_capacity = stack_capacity,
         instruction_trace_capacity = trace_capacity, instruction_stack = [],
         instruction_trace = replicate (number_of_top_level_instructions + 1) instruction_frame_default,
         tx_frame = frame, return_data_bytes = [], next_top_level_instruction_index = 0, rent_is_exempt = rent,
         deduplication_maps = [], instruction_accounts = [], instruction_data = []\<rparr>)"

definition on_accounts :: "(transaction_accounts, 'a) ix \<Rightarrow> (transaction_context, 'a) ix" where
  "on_accounts f tc = (case f (accounts tc) of (r, ta) \<Rightarrow> (r, tc\<lparr>accounts := ta\<rparr>))"

definition modify_accounts :: "(transaction_accounts \<Rightarrow> transaction_accounts) \<Rightarrow> transaction_context \<Rightarrow> transaction_context" where
  "modify_accounts f tc = tc\<lparr>accounts := f (accounts tc)\<rparr>"

definition get_number_of_accounts :: "transaction_context \<Rightarrow> u16" where
  "get_number_of_accounts tc = word_of_nat (accounts_len (accounts tc))"

definition get_key_of_account_at_index :: "u16 \<Rightarrow> transaction_context \<Rightarrow> (pubkey, instruction_error failure) result" where
  "get_key_of_account_at_index index tc = ok_or (Fail MissingAccount) (account_key index (accounts tc))"

fun position :: "('a \<Rightarrow> bool) \<Rightarrow> 'a list \<Rightarrow> nat option" where
  "position P [] = None"
| "position P (x # xs) = (if P x then Some 0 else map_option Suc (position P xs))"

definition find_index_of_account :: "pubkey \<Rightarrow> transaction_context \<Rightarrow> u16 option" where
  "find_index_of_account pk tc = map_option word_of_nat (position (\<lambda>key. key = pk) (account_keys (accounts tc)))"

definition get_instruction_trace_length :: "transaction_context \<Rightarrow> nat" where
  "get_instruction_trace_length tc = length (instruction_trace tc) - 1"

record instruction_context =
  ic_index_in_trace :: nat
  ic_nesting_level :: nat
  ic_index_of_caller :: nat
  ic_program_index :: u16
  ic_accounts :: "instruction_account list"
  ic_dedup_map :: "u16 list"
  ic_data :: bytes

definition get_or_empty :: "'a list list \<Rightarrow> nat \<Rightarrow> 'a list" where
  "get_or_empty xss n = (case get_at xss n of None \<Rightarrow> [] | Some xs \<Rightarrow> xs)"

definition get_instruction_context_at_index_in_trace ::
  "nat \<Rightarrow> transaction_context \<Rightarrow> (instruction_context, instruction_error failure) result" where
  "get_instruction_context_at_index_in_trace n tc =
    (case get_at (instruction_trace tc) n of
       None \<Rightarrow> Err (Fail CallDepth)
     | Some f \<Rightarrow> Ok \<lparr>ic_index_in_trace = n, ic_nesting_level = unat (nesting_level f),
         ic_index_of_caller = unat (index_of_caller_instruction f), ic_program_index = program_account_index_in_tx f,
         ic_accounts = get_or_empty (instruction_accounts tc) n, ic_dedup_map = get_or_empty (deduplication_maps tc) n,
         ic_data = get_or_empty (instruction_data tc) n\<rparr>)"

definition get_instruction_context_at_nesting_level ::
  "nat \<Rightarrow> transaction_context \<Rightarrow> (instruction_context, instruction_error failure) result" where
  "get_instruction_context_at_nesting_level level tc =
    bindR (ok_or (Fail CallDepth) (get_at (instruction_stack tc) level))
      (\<lambda>n. get_instruction_context_at_index_in_trace n tc)"

definition get_instruction_stack_height :: "transaction_context \<Rightarrow> nat" where
  "get_instruction_stack_height tc = length (instruction_stack tc)"

definition get_current_instruction_index :: "transaction_context \<Rightarrow> (nat, instruction_error failure) result" where
  "get_current_instruction_index tc =
    (if instruction_stack tc = [] then Err (Fail CallDepth) else Ok (last (instruction_stack tc)))"

definition get_current_instruction_context ::
  "transaction_context \<Rightarrow> (instruction_context, instruction_error failure) result" where
  "get_current_instruction_context tc =
    bindR (get_current_instruction_index tc) (\<lambda>n. get_instruction_context_at_index_in_trace n tc)"

definition get_next_instruction_context ::
  "transaction_context \<Rightarrow> (instruction_context, instruction_error failure) result" where
  "get_next_instruction_context tc =
    bindR (if instruction_stack tc = [] then Ok (next_top_level_instruction_index tc)
           else if instruction_trace tc = [] then Err (Fail CallDepth)
           else Ok (length (instruction_trace tc) - 1))
      (\<lambda>n. get_instruction_context_at_index_in_trace n tc)"

definition configure_instruction_at_index ::
  "nat \<Rightarrow> u16 \<Rightarrow> instruction_account list \<Rightarrow> u16 list \<Rightarrow> bytes \<Rightarrow> u16 option \<Rightarrow> (transaction_context, unit) ix" where
  "configure_instruction_at_index instruction_index program_index ias dedup_map ix_data caller_index tc =
    (case get_at (instruction_trace tc) instruction_index of
       None \<Rightarrow> (Err (Fail MaxInstructionTraceLengthExceeded), tc)
     | Some f \<Rightarrow>
         let fr = tx_frame tc;
             (fr, f) = (case caller_index of
                None \<Rightarrow> (fr, f)
              | Some caller \<Rightarrow>
                  (fr\<lparr>total_number_of_instructions_in_trace := saturating_add (total_number_of_instructions_in_trace fr) 1,
                      cpi_scratchpad := \<lparr>slice_ptr = saturating_add (slice_ptr (cpi_scratchpad fr)) GUEST_REGION_SIZE, slice_len = 0\<rparr>\<rparr>,
                   f\<lparr>index_of_caller_instruction := caller\<rparr>));
             f = configure_vm_slices (word_of_nat instruction_index) (length ias) (word_of_nat (length ix_data))
                   (f\<lparr>program_account_index_in_tx := program_index\<rparr>)
         in (Ok (), tc\<lparr>tx_frame := fr, instruction_trace := (instruction_trace tc)[instruction_index := f],
                       deduplication_maps := deduplication_maps tc @ [dedup_map],
                       instruction_accounts := instruction_accounts tc @ [ias],
                       instruction_data := instruction_data tc @ [ix_data]\<rparr>))"

definition number_of_called_instructions_in_trace :: "transaction_context \<Rightarrow> nat" where
  "number_of_called_instructions_in_trace tc =
    next_top_level_instruction_index tc + unat (number_of_cpis_in_trace (tx_frame tc))"

text \<open>The end of \<open>push\<close>: the index of the top-level instruction is stored in the instructions sysvar.\<close>

definition store_sysvar_index :: "sysvar_interface \<Rightarrow> nat \<Rightarrow> (transaction_context, unit) ix" where
  "store_sysvar_index sysvar top_index tc =
    (case find_index_of_account (instructions_id sysvar) tc of
       None \<Rightarrow> (Ok (), tc)
     | Some index \<Rightarrow>
         bindM (on_accounts (try_borrow_mut index)) (\<lambda>n tc.
           if acc_owner (shared_account_fields (accounts tc) ! n) \<noteq> sysvar_id sysvar
           then (Err (Fail InvalidAccountOwner), modify_accounts (drop_ref_mut n) tc)
           else
             case store_current_index_checked sysvar (word_of_nat top_index)
                    (acc_payload (private_account_fields (accounts tc) ! n)) of
               Err e \<Rightarrow> (Err (Fail e), modify_accounts (drop_ref_mut n \<circ> view_write_data n id) tc)
             | Ok bs \<Rightarrow> (Ok (), modify_accounts (drop_ref_mut n \<circ> view_write_data n (\<lambda>_. bs)) tc)) tc)"

definition push :: "sysvar_interface \<Rightarrow> (transaction_context, unit) ix" where
  "push sysvar tc =
    (let level = get_instruction_stack_height tc in
     if instruction_stack tc \<noteq> [] \<and> lamports_delta (accounts tc) \<noteq> 0 then (Err (Fail UnbalancedInstruction), tc)
     else if instruction_trace tc = [] then (Err (Fail CallDepth), tc)
     else
       let n = length (instruction_trace tc) - 1;
           tc = tc\<lparr>instruction_trace := (instruction_trace tc)[n := (instruction_trace tc ! n)\<lparr>nesting_level := word_of_nat level\<rparr>]\<rparr>
       in if number_of_called_instructions_in_trace tc \<ge> instruction_trace_capacity tc
          then (Err (Fail MaxInstructionTraceLengthExceeded), tc)
          else
            let (index, top_index, tc) =
                  (if instruction_stack tc = [] then
                     (let index = next_top_level_instruction_index tc
                      in (index, index, tc\<lparr>next_top_level_instruction_index := index + 1\<rparr>))
                   else
                     (get_instruction_trace_length tc, next_top_level_instruction_index tc - 1,
                      tc\<lparr>tx_frame := (tx_frame tc)\<lparr>number_of_cpis_in_trace := saturating_add (number_of_cpis_in_trace (tx_frame tc)) 1\<rparr>,
                         instruction_trace := instruction_trace tc @ [instruction_frame_default]\<rparr>))
            in if level \<ge> instruction_stack_capacity tc then (Err (Fail CallDepth), tc)
               else store_sysvar_index sysvar top_index
                      (tc\<lparr>tx_frame := (tx_frame tc)\<lparr>current_executing_instruction := word_of_nat index\<rparr>,
                          instruction_stack := instruction_stack tc @ [index]\<rparr>))"

definition get_index_of_program_account_in_transaction ::
  "instruction_context \<Rightarrow> (u16, instruction_error failure) result" where
  "get_index_of_program_account_in_transaction ic =
    (if ic_program_index ic = 0xffff then Err (Fail MissingAccount) else Ok (ic_program_index ic))"

definition borrow_program :: "u16 \<Rightarrow> (transaction_context, unit) ix" where
  "borrow_program index tc =
    (case on_accounts (try_borrow_mut index) tc of
       (Ok n, tc) \<Rightarrow> (Ok (), modify_accounts (drop_ref_mut n) tc)
     | (Err e, tc) \<Rightarrow> (Err (if e = Fail AccountBorrowFailed then Fail AccountBorrowOutstanding else e), tc))"

definition detect_unbalanced :: "(transaction_context, bool) ix" where
  "detect_unbalanced =
    bindM (liftR get_current_instruction_context) (\<lambda>ic.
      bindM (liftR (\<lambda>_. get_index_of_program_account_in_transaction ic)) (\<lambda>index.
        seqM (borrow_program index) (getsM (\<lambda>tc. lamports_delta (accounts tc) \<noteq> 0))))"

definition pop :: "(transaction_context, unit) ix" where
  "pop tc =
    (if instruction_stack tc = [] then (Err (Fail CallDepth), tc)
     else
       let (detected, tc) = detect_unbalanced tc;
           tc = tc\<lparr>instruction_stack := butlast (instruction_stack tc)\<rparr>;
           tc = (if instruction_stack tc = [] then tc
                 else tc\<lparr>tx_frame := (tx_frame tc)\<lparr>current_executing_instruction := word_of_nat (last (instruction_stack tc))\<rparr>\<rparr>)
       in case detected of
            Err e \<Rightarrow> (Err e, tc)
          | Ok unbalanced \<Rightarrow> if unbalanced then (Err (Fail UnbalancedInstruction), tc) else (Ok (), tc))"

definition get_return_data :: "transaction_context \<Rightarrow> pubkey \<times> bytes" where
  "get_return_data tc = (return_data_pubkey (tx_frame tc), return_data_bytes tc)"

definition set_return_data :: "pubkey \<Rightarrow> bytes \<Rightarrow> (transaction_context, unit) ix" where
  "set_return_data program_id bs tc =
    (let fr = tx_frame tc in
     (Ok (), tc\<lparr>tx_frame := fr\<lparr>return_data_pubkey := program_id,
                              return_data_scratchpad := (return_data_scratchpad fr)\<lparr>slice_len := word_of_nat (length bs)\<rparr>\<rparr>,
                return_data_bytes := bs\<rparr>))"

definition take_instruction_trace ::
  "transaction_context \<Rightarrow> (instruction_frame list \<times> instruction_account list list \<times> bytes list) \<times> transaction_context" where
  "take_instruction_trace tc =
    ((butlast (instruction_trace tc), instruction_accounts tc, instruction_data tc),
     tc\<lparr>instruction_trace := [], instruction_accounts := [], instruction_data := []\<rparr>)"

definition deconstruct_without_keys :: "transaction_context \<Rightarrow> (account_shared_data list, instruction_error) result" where
  "deconstruct_without_keys tc =
    (if instruction_stack tc \<noteq> [] then Err CallDepth
     else Ok (deconstruct_into_account_shared_data (accounts tc)))"

record execution_record =
  record_accounts :: "(pubkey \<times> account_shared_data) list"
  record_return_data :: "pubkey \<times> bytes"
  touched_account_count :: u64
  accounts_resize_delta :: int

definition execution_record_from :: "transaction_context \<Rightarrow> execution_record" where
  "execution_record_from tc =
    (let (accs, flags, delta) = take_accounts (accounts tc)
     in \<lparr>record_accounts = accs,
         record_return_data = (return_data_pubkey (tx_frame tc), return_data_bytes tc),
         touched_account_count = word_of_nat (fold (\<lambda>was_touched n. n + of_bool was_touched) flags 0),
         accounts_resize_delta = delta\<rparr>)"

end
