(* ===== verification/Tx_Borrowed.thy ===== *)
theory Tx_Borrowed
  imports Tx_Context
begin

text \<open>
  The views of an instruction (\<open>InstructionContext\<close>) and the operations on a borrowed account
  (\<open>BorrowedInstructionAccount\<close>), \<^verbatim>\<open>src/transaction-context/src/instruction.rs\<close> and \<^verbatim>\<open>instruction_accounts.rs\<close>. The
  encoding and decoding of account states belongs to another package and is a parameter.
\<close>

section \<open>Instruction contexts\<close>

definition get_stack_height :: "instruction_context \<Rightarrow> nat" where
  "get_stack_height ic = ic_nesting_level ic + 1"

definition get_number_of_instruction_accounts :: "instruction_context \<Rightarrow> u16" where
  "get_number_of_instruction_accounts ic = word_of_nat (length (ic_accounts ic))"

definition check_number_of_instruction_accounts ::
  "u16 \<Rightarrow> instruction_context \<Rightarrow> (unit, instruction_error failure) result" where
  "check_number_of_instruction_accounts expected_at_least ic =
    (if get_number_of_instruction_accounts ic < expected_at_least then Err (Fail MissingAccount) else Ok ())"

definition get_instruction_account :: "u16 \<Rightarrow> instruction_context \<Rightarrow> (instruction_account, instruction_error failure) result" where
  "get_instruction_account index ic = ok_or (Fail MissingAccount) (get_at (ic_accounts ic) (unat index))"

definition get_index_of_instruction_account_in_transaction ::
  "u16 \<Rightarrow> instruction_context \<Rightarrow> (u16, instruction_error failure) result" where
  "get_index_of_instruction_account_in_transaction index ic =
    bindR (get_instruction_account index ic) (\<lambda>ia. Ok (index_in_transaction ia))"

definition get_index_of_account_in_instruction ::
  "u16 \<Rightarrow> instruction_context \<Rightarrow> (u16, instruction_error failure) result" where
  "get_index_of_account_in_instruction index ic =
    ok_or (Fail MissingAccount)
      (case get_at (ic_dedup_map ic) (unat index) of
         None \<Rightarrow> None
       | Some idx \<Rightarrow> if unat idx \<ge> length (ic_accounts ic) then None else Some idx)"

definition is_instruction_account_duplicate ::
  "u16 \<Rightarrow> instruction_context \<Rightarrow> (u16 option, instruction_error failure) result" where
  "is_instruction_account_duplicate index ic =
    bindR (get_index_of_instruction_account_in_transaction index ic) (\<lambda>in_transaction.
      bindR (get_index_of_account_in_instruction in_transaction ic) (\<lambda>first.
        Ok (if first = index then None else Some first)))"

definition get_program_key :: "instruction_context \<Rightarrow> transaction_context \<Rightarrow> (pubkey, instruction_error failure) result" where
  "get_program_key ic tc =
    bindR (get_index_of_program_account_in_transaction ic) (\<lambda>index. get_key_of_account_at_index index tc)"

definition get_program_owner :: "instruction_context \<Rightarrow> (transaction_context, pubkey) ix" where
  "get_program_owner ic =
    bindM (liftR (\<lambda>_. get_index_of_program_account_in_transaction ic)) (\<lambda>index.
      bindM (on_accounts (try_borrow index)) (\<lambda>n tc.
        (Ok (acc_owner (shared_account_fields (accounts tc) ! n)), modify_accounts (drop_ref n) tc)))"

definition is_instruction_account_signer :: "u16 \<Rightarrow> instruction_context \<Rightarrow> (bool, instruction_error failure) result" where
  "is_instruction_account_signer index ic = bindR (get_instruction_account index ic) (\<lambda>ia. Ok (is_signer ia))"

definition is_instruction_account_writable :: "u16 \<Rightarrow> instruction_context \<Rightarrow> (bool, instruction_error failure) result" where
  "is_instruction_account_writable index ic = bindR (get_instruction_account index ic) (\<lambda>ia. Ok (is_writable ia))"

fun signers_of :: "instruction_account list \<Rightarrow> transaction_context \<Rightarrow> (pubkey set, instruction_error failure) result" where
  "signers_of [] tc = Ok {}"
| "signers_of (ia # ias) tc =
    (if is_signer ia
     then bindR (get_key_of_account_at_index (index_in_transaction ia) tc) (\<lambda>key.
            bindR (signers_of ias tc) (\<lambda>keys. Ok (insert key keys)))
     else signers_of ias tc)"

definition get_signers :: "instruction_context \<Rightarrow> transaction_context \<Rightarrow> (pubkey set, instruction_error failure) result" where
  "get_signers ic = signers_of (ic_accounts ic)"

definition get_key_of_instruction_account ::
  "u16 \<Rightarrow> instruction_context \<Rightarrow> transaction_context \<Rightarrow> (pubkey, instruction_error failure) result" where
  "get_key_of_instruction_account index ic tc =
    bindR (get_index_of_instruction_account_in_transaction index ic) (\<lambda>idx. get_key_of_account_at_index idx tc)"

section \<open>Borrowed accounts\<close>

record borrowed_account =
  ba_guard :: nat
  ba_account :: instruction_account
  ba_program :: u16

definition try_borrow_instruction_account :: "u16 \<Rightarrow> instruction_context \<Rightarrow> (transaction_context, borrowed_account) ix" where
  "try_borrow_instruction_account index ic =
    bindM (liftR (\<lambda>_. get_instruction_account index ic)) (\<lambda>ia.
      bindM (on_accounts (try_borrow_mut (index_in_transaction ia))) (\<lambda>n.
        ret \<lparr>ba_guard = n, ba_account = ia, ba_program = ic_program_index ic\<rparr>))"

definition drop_borrowed :: "borrowed_account \<Rightarrow> transaction_context \<Rightarrow> transaction_context" where
  "drop_borrowed b = modify_accounts (drop_ref_mut (ba_guard b))"

definition shared_of :: "borrowed_account \<Rightarrow> transaction_context \<Rightarrow> account_shared_fields" where
  "shared_of b tc = shared_account_fields (accounts tc) ! ba_guard b"

definition private_of :: "borrowed_account \<Rightarrow> transaction_context \<Rightarrow> account_private_fields" where
  "private_of b tc = private_account_fields (accounts tc) ! ba_guard b"

definition get_key :: "borrowed_account \<Rightarrow> transaction_context \<Rightarrow> (pubkey, instruction_error failure) result" where
  "get_key b tc = unwrap (account_key (index_in_transaction (ba_account b)) (accounts tc))"

definition get_owner :: "borrowed_account \<Rightarrow> transaction_context \<Rightarrow> pubkey" where
  "get_owner b tc = acc_owner (shared_of b tc)"

definition get_lamports :: "borrowed_account \<Rightarrow> transaction_context \<Rightarrow> u64" where
  "get_lamports b tc = acc_lamports (shared_of b tc)"

definition get_data :: "borrowed_account \<Rightarrow> transaction_context \<Rightarrow> bytes" where
  "get_data b tc = acc_payload (private_of b tc)"

definition is_owned_by_current_program :: "borrowed_account \<Rightarrow> transaction_context \<Rightarrow> bool" where
  "is_owned_by_current_program b tc =
    (case get_key_of_account_at_index (ba_program b) tc of
       Ok program_key \<Rightarrow> program_key = get_owner b tc
     | Err _ \<Rightarrow> False)"

definition touch_borrowed :: "borrowed_account \<Rightarrow> (transaction_context, unit) ix" where
  "touch_borrowed b = on_accounts (touch (index_in_transaction (ba_account b)))"

definition change_resize_delta :: "borrowed_account \<Rightarrow> nat \<Rightarrow> (transaction_context, unit) ix" where
  "change_resize_delta b new_len tc =
    on_accounts (update_accounts_resize_delta (length (get_data b tc)) new_len) tc"

text \<open>\<open>is_zeroed\<close> compares chunks of 1024 bytes and the remainder with an array of zeros.\<close>

function is_zeroed :: "bytes \<Rightarrow> bool" where
  "is_zeroed buf =
    (if length buf < 1024 then buf = replicate (length buf) 0
     else take 1024 buf = replicate 1024 0 \<and> is_zeroed (drop 1024 buf))"
  by pat_completeness auto
termination by (relation "measure length") auto

declare is_zeroed.simps [simp del]

definition can_data_be_changed :: "borrowed_account \<Rightarrow> transaction_context \<Rightarrow> (unit, instruction_error failure) result" where
  "can_data_be_changed b tc =
    (if \<not> is_writable (ba_account b) then Err (Fail ReadonlyDataModified)
     else if \<not> is_owned_by_current_program b tc then Err (Fail ExternalAccountDataModified)
     else Ok ())"

definition can_borrowed_be_resized :: "borrowed_account \<Rightarrow> nat \<Rightarrow> transaction_context \<Rightarrow> (unit, instruction_error failure) result" where
  "can_borrowed_be_resized b new_len tc =
    (let old_len = length (get_data b tc) in
     if new_len \<noteq> old_len \<and> \<not> is_owned_by_current_program b tc then Err (Fail AccountDataSizeChanged)
     else bindR (can_data_be_resized old_len new_len (accounts tc)) (\<lambda>_. can_data_be_changed b tc))"

definition set_owner :: "borrowed_account \<Rightarrow> bytes \<Rightarrow> (transaction_context, unit) ix" where
  "set_owner b pubkey tc =
    (if \<not> is_owned_by_current_program b tc then (Err (Fail ModifiedProgramId), tc)
     else if \<not> is_writable (ba_account b) then (Err (Fail ModifiedProgramId), tc)
     else if \<not> is_zeroed (get_data b tc) then (Err (Fail ModifiedProgramId), tc)
     else if get_owner b tc = pubkey then (Ok (), tc)
     else seqM (touch_borrowed b) (on_accounts (view_copy_into_owner_from_slice (ba_guard b) pubkey)) tc)"

definition set_lamports :: "borrowed_account \<Rightarrow> u64 \<Rightarrow> (transaction_context, unit) ix" where
  "set_lamports b x tc =
    (if \<not> is_owned_by_current_program b tc \<and> x < get_lamports b tc then (Err (Fail ExternalAccountLamportSpend), tc)
     else if \<not> is_writable (ba_account b) then (Err (Fail ReadonlyLamportChange), tc)
     else
       let old_lamports = get_lamports b tc in
       if old_lamports = x then (Ok (), tc)
       else
         let lamports_balance = uint x - uint old_lamports in
         seqM (on_accounts (add_lamports_delta lamports_balance))
           (seqM (touch_borrowed b) (modifyM (modify_accounts (view_set_lamports (ba_guard b) x)))) tc)"

definition checked_add_lamports :: "borrowed_account \<Rightarrow> u64 \<Rightarrow> (transaction_context, unit) ix" where
  "checked_add_lamports b x tc =
    (case checked_add (get_lamports b tc) x of
       None \<Rightarrow> (Err (Fail ArithmeticOverflow), tc)
     | Some y \<Rightarrow> set_lamports b y tc)"

definition checked_sub_lamports :: "borrowed_account \<Rightarrow> u64 \<Rightarrow> (transaction_context, unit) ix" where
  "checked_sub_lamports b x tc =
    (case checked_sub (get_lamports b tc) x of
       None \<Rightarrow> (Err (Fail ArithmeticOverflow), tc)
     | Some y \<Rightarrow> set_lamports b y tc)"

definition make_data_mut :: "borrowed_account \<Rightarrow> transaction_context \<Rightarrow> transaction_context" where
  "make_data_mut b tc =
    (if view_is_shared (accounts tc) (ba_guard b) then modify_accounts (view_reserve (ba_guard b)) tc else tc)"

text \<open>\<open>get_data_mut\<close> and what its caller writes into the slice; \<open>f\<close> keeps the length.\<close>

definition get_data_mut :: "borrowed_account \<Rightarrow> (bytes \<Rightarrow> bytes) \<Rightarrow> (transaction_context, unit) ix" where
  "get_data_mut b f =
    seqM (liftR (can_data_be_changed b))
      (seqM (touch_borrowed b)
        (modifyM (modify_accounts (view_write_data (ba_guard b) f) \<circ> make_data_mut b)))"

definition set_data_from_slice :: "borrowed_account \<Rightarrow> bytes \<Rightarrow> (transaction_context, unit) ix" where
  "set_data_from_slice b bs =
    seqM (liftR (can_borrowed_be_resized b (length bs)))
      (seqM (touch_borrowed b)
        (seqM (change_resize_delta b (length bs))
          (modifyM (modify_accounts (view_set_data_from_slice (ba_guard b) bs)))))"

definition set_data_length :: "borrowed_account \<Rightarrow> nat \<Rightarrow> (transaction_context, unit) ix" where
  "set_data_length b new_length =
    seqM (liftR (can_borrowed_be_resized b new_length)) (\<lambda>tc.
      if length (get_data b tc) = new_length then (Ok (), tc)
      else
        seqM (touch_borrowed b)
          (seqM (change_resize_delta b new_length)
            (modifyM (modify_accounts (view_resize (ba_guard b) new_length 0)))) tc)"

definition extend_from_slice :: "borrowed_account \<Rightarrow> bytes \<Rightarrow> (transaction_context, unit) ix" where
  "extend_from_slice b bs tc =
    (let new_len = length (get_data b tc) + length bs in
     seqM (liftR (can_borrowed_be_resized b new_len))
       (if bs = [] then ret ()
        else
          seqM (touch_borrowed b)
            (seqM (change_resize_delta b new_len)
              (modifyM (modify_accounts (view_extend_from_slice (ba_guard b) bs) \<circ> make_data_mut b)))) tc)"

definition get_state :: "(bytes \<Rightarrow> 'st option) \<Rightarrow> borrowed_account \<Rightarrow> transaction_context \<Rightarrow> ('st, instruction_error failure) result" where
  "get_state decode b tc = ok_or (Fail InvalidAccountData) (decode (get_data b tc))"

definition set_state :: "('st \<Rightarrow> bytes option) \<Rightarrow> borrowed_account \<Rightarrow> 'st \<Rightarrow> (transaction_context, unit) ix" where
  "set_state encode b st =
    seqM (get_data_mut b id) (\<lambda>tc.
      case encode st of
        None \<Rightarrow> (Err (Fail GenericError), tc)
      | Some bs \<Rightarrow>
          if length bs > length (get_data b tc) then (Err (Fail AccountDataTooSmall), tc)
          else (Ok (), modify_accounts (view_write_data (ba_guard b) (\<lambda>d. bs @ drop (length bs) d)) tc))"

definition is_rent_exempt_at_data_length :: "borrowed_account \<Rightarrow> nat \<Rightarrow> transaction_context \<Rightarrow> bool" where
  "is_rent_exempt_at_data_length b n tc = rent_is_exempt tc (get_lamports b tc) n"

definition set_executable :: "borrowed_account \<Rightarrow> bool \<Rightarrow> (transaction_context, unit) ix" where
  "set_executable b flag tc =
    (if \<not> rent_is_exempt tc (get_lamports b tc) (length (get_data b tc)) then (Err (Fail ExecutableAccountNotRentExempt), tc)
     else if \<not> is_owned_by_current_program b tc then (Err (Fail ExecutableModified), tc)
     else if \<not> is_writable (ba_account b) then (Err (Fail ExecutableModified), tc)
     else if acc_executable (private_of b tc) = flag then (Ok (), tc)
     else seqM (touch_borrowed b) (modifyM (modify_accounts (view_set_executable (ba_guard b) flag))) tc)"

end
