(* ===== verification/Rt_Invoke.thy ===== *)
theory Rt_Invoke
  imports Rt_Budget Rt_Logs Tx_Borrowed Sbpf_Interpreter
begin

text \<open>
  The invoke context, \<^verbatim>\<open>src/program-runtime/src/invoke_context.rs\<close>: the compute meter that the virtual machine draws on,
  the heap allocator, the stack of syscall contexts, the preparation of instructions, and the driver that calls the
  entry point of a built-in program. The program cache is the parameter \<open>rt_find\<close>; public keys of the
  loaders, the derivation of program addresses, precompiles and the printing of keys and errors belong to
  other packages and are parameters as well. Timings are left out.
\<close>

section \<open>State\<close>

record bpf_allocator =
  alloc_len :: u64
  alloc_pos :: u64

record serialized_account_metadata =
  original_data_len :: nat
  vm_data_addr :: u64
  vm_key_addr :: u64
  vm_lamports_addr :: u64
  vm_owner_addr :: u64

record syscall_context =
  allocator :: bpf_allocator
  accounts_metadata :: "serialized_account_metadata list"

record invoke_context =
  transaction_context :: transaction_context
  compute_budget :: execution_budget
  execution_cost :: execution_cost
  compute_meter :: u64
  log_collector :: "log_collector option"
  syscall_contexts :: "syscall_context option list"
  register_traces :: "(nat \<times> u64 list list) list"

definition invoke_context_new ::
  "transaction_context \<Rightarrow> log_collector option \<Rightarrow> execution_budget \<Rightarrow> execution_cost \<Rightarrow> invoke_context" where
  "invoke_context_new tc log budget cost =
    \<lparr>transaction_context = tc, compute_budget = budget, execution_cost = cost,
     compute_meter = eb_compute_unit_limit budget, log_collector = log, syscall_contexts = [], register_traces = []\<rparr>"

definition on_transaction :: "(transaction_context, 'a) ix \<Rightarrow> (invoke_context, 'a) ix" where
  "on_transaction f c =
    (case f (transaction_context c) of (r, tc) \<Rightarrow> (r, c\<lparr>transaction_context := tc\<rparr>))"

definition ic_msg :: "string \<Rightarrow> invoke_context \<Rightarrow> invoke_context" where
  "ic_msg message c = c\<lparr>log_collector := ic_logger_msg message (log_collector c)\<rparr>"

definition log_and_fail :: "string \<Rightarrow> instruction_error \<Rightarrow> (invoke_context, 'a) ix" where
  "log_and_fail message e = seqM (modifyM (ic_msg message)) (fail_with e)"

section \<open>The compute meter\<close>

definition consume_units :: "u64 \<Rightarrow> invoke_context \<Rightarrow> invoke_context" where
  "consume_units amount c = c\<lparr>compute_meter := saturating_sub (compute_meter c) amount\<rparr>"

definition remaining_units :: "invoke_context \<Rightarrow> u64" where
  "remaining_units c = compute_meter c"

definition consume_checked :: "u64 \<Rightarrow> (invoke_context, unit) ix" where
  "consume_checked amount c =
    (let exceeded = compute_meter c < amount;
         c = c\<lparr>compute_meter := saturating_sub (compute_meter c) amount\<rparr>
     in if exceeded then (Err (Fail ComputationalBudgetExceeded), c) else (Ok (), c))"

section \<open>The allocator and the syscall contexts\<close>

definition allocator_new :: "u64 \<Rightarrow> bpf_allocator" where
  "allocator_new len = \<lparr>alloc_len = len, alloc_pos = 0\<rparr>"

text \<open>\<open>align_offset\<close> of a number taken as an address: the distance to the next multiple of the alignment.\<close>

definition align_offset :: "u64 \<Rightarrow> nat \<Rightarrow> u64" where
  "align_offset pos align = word_of_nat ((align - unat pos mod align) mod align)"

definition alloc :: "nat \<Rightarrow> nat \<Rightarrow> bpf_allocator \<Rightarrow> u64 option \<times> bpf_allocator" where
  "alloc layout_size layout_align a =
    (let bytes_to_align = align_offset (alloc_pos a) layout_align in
     if saturating_add (saturating_add (alloc_pos a) bytes_to_align) (word_of_nat layout_size) \<le> alloc_len a then
       (let pos = saturating_add (alloc_pos a) bytes_to_align;
            addr = saturating_add MM_HEAP_START pos
        in (Some addr, a\<lparr>alloc_pos := saturating_add pos (word_of_nat layout_size)\<rparr>))
     else (None, a))"

definition set_syscall_context :: "syscall_context \<Rightarrow> (invoke_context, unit) ix" where
  "set_syscall_context sc c =
    (if syscall_contexts c = [] then (Err (Fail CallDepth), c)
     else (Ok (), c\<lparr>syscall_contexts := butlast (syscall_contexts c) @ [Some sc]\<rparr>))"

definition get_syscall_context :: "invoke_context \<Rightarrow> (syscall_context, instruction_error failure) result" where
  "get_syscall_context c =
    (if syscall_contexts c = [] then Err (Fail CallDepth) else ok_or (Fail CallDepth) (last (syscall_contexts c)))"

section \<open>The runtime around an invocation\<close>

text \<open>The errors a built-in program can return, boxed: an instruction error or one of its own.\<close>

datatype boxed_error = Boxed_instruction instruction_error | Boxed_other string

type_synonym builtin = "invoke_context \<Rightarrow> (unit, boxed_error failure) result \<times> invoke_context"

text \<open>An entry of the program cache: a built-in program with its functions, or something else.\<close>

datatype cache_program = Builtin "builtin function_registry" | Not_builtin

record runtime =
  rt_show_key :: "pubkey \<Rightarrow> string"
  rt_show_error :: "boxed_error \<Rightarrow> string"
  native_loader_id :: pubkey
  bpf_loader_deprecated_id :: pubkey
  bpf_loader_id :: pubkey
  bpf_loader_upgradeable_id :: pubkey
  loader_v4_id :: pubkey
  rt_sysvar :: sysvar_interface
  rt_find :: "pubkey \<Rightarrow> cache_program option"
  create_program_address :: "bytes list \<Rightarrow> pubkey \<Rightarrow> (pubkey, u64) result"
  instruction_error_of_u64 :: "u64 \<Rightarrow> instruction_error"
  is_precompile :: "pubkey \<Rightarrow> bool"
  precompile :: "pubkey \<Rightarrow> bytes \<Rightarrow> bytes list \<Rightarrow> (unit, instruction_error) result"

section \<open>Pushing and popping\<close>

definition program_key_is ::
  "pubkey \<Rightarrow> transaction_context \<Rightarrow> (instruction_context, instruction_error failure) result \<Rightarrow> bool" where
  "program_key_is program_id tc ic =
    (case bindR ic (\<lambda>ic. get_program_key ic tc) of Ok key \<Rightarrow> key = program_id | Err _ \<Rightarrow> False)"

definition invoke_push :: "runtime \<Rightarrow> (invoke_context, unit) ix" where
  "invoke_push rt c =
    (let tc = transaction_context c in
     case get_next_instruction_context tc of
       Err e \<Rightarrow> (Err e, c)
     | Ok ic \<Rightarrow>
         (case get_program_key ic tc of
            Err Panic \<Rightarrow> (Err Panic, c)
          | Err (Fail _) \<Rightarrow> (Err (Fail UnsupportedProgramId), c)
          | Ok program_id \<Rightarrow>
              let height = get_instruction_stack_height tc;
                  contains = list_ex (\<lambda>level. program_key_is program_id tc (get_instruction_context_at_nesting_level level tc)) [0..<height];
                  is_last = program_key_is program_id tc (get_current_instruction_context tc)
              in if height \<noteq> 0 \<and> contains \<and> \<not> is_last then (Err (Fail ReentrancyNotAllowed), c)
                 else on_transaction (push (rt_sysvar rt)) (c\<lparr>syscall_contexts := syscall_contexts c @ [None]\<rparr>)))"

definition invoke_pop :: "(invoke_context, unit) ix" where
  "invoke_pop c = on_transaction pop (c\<lparr>syscall_contexts := butlast (syscall_contexts c)\<rparr>)"

definition get_check_aligned :: "runtime \<Rightarrow> invoke_context \<Rightarrow> bool \<times> invoke_context" where
  "get_check_aligned rt c =
    (case get_current_instruction_context (transaction_context c) of
       Err _ \<Rightarrow> (True, c)
     | Ok ic \<Rightarrow>
         (case on_transaction (get_program_owner ic) c of
            (Ok owner_key, c) \<Rightarrow> (owner_key \<noteq> bpf_loader_deprecated_id rt, c)
          | (Err _, c) \<Rightarrow> (True, c)))"

definition insert_register_trace :: "u64 list list \<Rightarrow> invoke_context \<Rightarrow> invoke_context" where
  "insert_register_trace trace c =
    (if trace = [] then c
     else case get_current_instruction_context (transaction_context c) of
            Err _ \<Rightarrow> c
          | Ok ic \<Rightarrow> c\<lparr>register_traces := register_traces c @ [(ic_index_in_trace ic, trace)]\<rparr>)"

section \<open>Preparing instructions\<close>

record account_meta =
  meta_pubkey :: pubkey
  meta_is_signer :: bool
  meta_is_writable :: bool

record instruction =
  program_id :: pubkey
  account_metas :: "account_meta list"
  instruction_bytes :: bytes

text \<open>The first loop of \<open>prepare_next_cpi_instruction\<close>: accounts that occur twice share their privileges.\<close>

fun merge_metas ::
  "runtime \<Rightarrow> account_meta list \<Rightarrow> u16 list \<Rightarrow> instruction_account list
    \<Rightarrow> (invoke_context, u16 list \<times> instruction_account list) ix" where
  "merge_metas rt [] callee_map ias = ret (callee_map, ias)"
| "merge_metas rt (meta # metas) callee_map ias =
    bindM (getsM (\<lambda>c. find_index_of_account (meta_pubkey meta) (transaction_context c))) (\<lambda>found.
      case found of
        None \<Rightarrow>
          log_and_fail (''Instruction references an unknown account '' @ rt_show_key rt (meta_pubkey meta)) MissingAccount
      | Some index \<Rightarrow>
          (case get_at callee_map (unat index) of
             None \<Rightarrow> throw Panic
           | Some index_in_callee \<Rightarrow>
               if unat index_in_callee < length ias then
                 (let ia = ias ! unat index_in_callee;
                      ia = set_is_signer (is_signer ia \<or> meta_is_signer meta) ia;
                      ia = set_is_writable (is_writable ia \<or> meta_is_writable meta) ia
                  in merge_metas rt metas callee_map (ias[unat index_in_callee := ia] @ [ia]))
               else
                 merge_metas rt metas (callee_map[unat index := word_of_nat (length ias)])
                   (ias @ [instruction_account_new index (meta_is_signer meta) (meta_is_writable meta)])))"

text \<open>The second loop: the privileges of an account are those its caller gives.\<close>

fun check_privileges ::
  "runtime \<Rightarrow> instruction_context \<Rightarrow> account_meta list \<Rightarrow> pubkey list \<Rightarrow> u16 list \<Rightarrow> nat list
    \<Rightarrow> instruction_account list \<Rightarrow> (invoke_context, instruction_account list) ix" where
  "check_privileges rt caller metas signers callee_map [] ias = ret ias"
| "check_privileges rt caller metas signers callee_map (i # is) ias =
    (case get_at ias i of
       None \<Rightarrow> throw Panic
     | Some ia \<Rightarrow>
         (case get_at callee_map (unat (index_in_transaction ia)) of
            None \<Rightarrow> throw Panic
          | Some index_in_callee \<Rightarrow>
              if i \<noteq> unat index_in_callee then
                (case get_at ias (unat index_in_callee) of
                   None \<Rightarrow> fail_with MissingAccount
                 | Some reference \<Rightarrow>
                     (let ia = set_is_signer (is_signer ia \<or> is_signer reference) ia;
                          ia = set_is_writable (is_writable ia \<or> is_writable reference) ia
                      in check_privileges rt caller metas signers callee_map is (ias[i := ia])))
              else
                bindM (liftR (\<lambda>_. get_index_of_account_in_instruction (index_in_transaction ia) caller)) (\<lambda>index_in_caller.
                  case (get_at metas i, get_at (ic_accounts caller) (unat index_in_caller)) of
                    (Some meta, Some caller_account) \<Rightarrow>
                      if is_writable ia \<and> \<not> is_writable caller_account then
                        log_and_fail (rt_show_key rt (meta_pubkey meta) @ [CHR 0x27] @ ''s writable privilege escalated'')
                          PrivilegeEscalation
                      else if is_signer ia \<and> \<not> (is_signer caller_account \<or> meta_pubkey meta \<in> set signers) then
                        log_and_fail (rt_show_key rt (meta_pubkey meta) @ [CHR 0x27] @ ''s signer privilege escalated'')
                          PrivilegeEscalation
                      else check_privileges rt caller metas signers callee_map is ias
                  | _ \<Rightarrow> throw Panic)))"

definition find_callee_program :: "runtime \<Rightarrow> instruction_context \<Rightarrow> pubkey \<Rightarrow> (invoke_context, u16) ix" where
  "find_callee_program rt caller callee_program_id =
    bindM (getsM (\<lambda>c. find_index_of_account callee_program_id (transaction_context c))) (\<lambda>found.
      case found of
        Some index \<Rightarrow>
          (case get_index_of_account_in_instruction index caller of
             Ok _ \<Rightarrow> ret index
           | Err _ \<Rightarrow> log_and_fail (''Unknown program '' @ rt_show_key rt callee_program_id) MissingAccount)
      | None \<Rightarrow> log_and_fail (''Unknown program '' @ rt_show_key rt callee_program_id) MissingAccount)"

definition prepare_next_cpi_instruction :: "runtime \<Rightarrow> instruction \<Rightarrow> pubkey list \<Rightarrow> (invoke_context, unit) ix" where
  "prepare_next_cpi_instruction rt ix signers =
    bindM (liftR (\<lambda>c. get_current_instruction_context (transaction_context c))) (\<lambda>caller.
      bindM (merge_metas rt (account_metas ix) (replicate MAX_ACCOUNTS_PER_TRANSACTION 0xffff) []) (\<lambda>(callee_map, ias).
        bindM (check_privileges rt caller (account_metas ix) signers callee_map [0..<length ias] ias) (\<lambda>ias.
          bindM (find_callee_program rt caller (program_id ix)) (\<lambda>program_index.
            bindM (liftR (\<lambda>c. get_current_instruction_index (transaction_context c))) (\<lambda>caller_index.
              bindM (getsM (\<lambda>c. get_instruction_trace_length (transaction_context c))) (\<lambda>trace_length.
                on_transaction (configure_instruction_at_index trace_length program_index ias callee_map
                  (instruction_bytes ix) (Some (word_of_nat caller_index)))))))))"

text \<open>
  A message as \<open>prepare_top_level_instructions\<close> and \<open>process_message\<close> see it: the instructions with the index of their program,
  their account indices and their data, the identifier of the program of an index, and the privileges of the accounts.
\<close>

record svm_message =
  message_instructions :: "(u8 \<times> u8 list \<times> bytes) list"
  message_program_id :: "u8 \<Rightarrow> pubkey"
  message_is_signer :: "nat \<Rightarrow> bool"
  message_is_writable :: "nat \<Rightarrow> bool"

fun top_level_accounts ::
  "svm_message \<Rightarrow> u8 list \<Rightarrow> u16 list \<Rightarrow> instruction_account list \<Rightarrow> (u16 list \<times> instruction_account list) option" where
  "top_level_accounts message [] callee_map ias = Some (callee_map, ias)"
| "top_level_accounts message (index # indices) callee_map ias =
    (case get_at callee_map (unat index) of
       None \<Rightarrow> None
     | Some index_in_callee \<Rightarrow>
         let callee_map = (if unat index_in_callee > length ias
                           then callee_map[unat index := word_of_nat (length ias)] else callee_map)
         in top_level_accounts message indices callee_map
              (ias @ [instruction_account_new (ucast index) (message_is_signer message (unat index))
                        (message_is_writable message (unat index))]))"

fun prepare_from :: "svm_message \<Rightarrow> nat \<Rightarrow> (u8 \<times> u8 list \<times> bytes) list
    \<Rightarrow> (invoke_context, unit, (u8 \<times> instruction_error) failure) sm" where
  "prepare_from message k [] c = (Ok (), c)"
| "prepare_from message k ((program_index, indices, bs) # ixs) c =
    (case top_level_accounts message indices (replicate MAX_ACCOUNTS_PER_TRANSACTION 0xffff) [] of
       None \<Rightarrow> (Err Panic, c)
     | Some (callee_map, ias) \<Rightarrow>
         (case on_transaction (configure_instruction_at_index k (ucast program_index) ias callee_map bs None) c of
            (Ok _, c) \<Rightarrow> prepare_from message (Suc k) ixs c
          | (Err Panic, c) \<Rightarrow> (Err Panic, c)
          | (Err (Fail e), c) \<Rightarrow> (Err (Fail (word_of_nat k, e)), c)))"

definition prepare_top_level_instructions ::
  "svm_message \<Rightarrow> (invoke_context, unit, (u8 \<times> instruction_error) failure) sm" where
  "prepare_top_level_instructions message = prepare_from message 0 (message_instructions message)"

section \<open>Processing instructions\<close>

definition ENTRYPOINT_KEY :: u32 where
  "ENTRYPOINT_KEY = 0x71E3CF81"

definition builtin_id_of :: "runtime \<Rightarrow> instruction_context \<Rightarrow> (invoke_context, pubkey) ix" where
  "builtin_id_of rt ic =
    bindM (on_transaction (get_program_owner ic)) (\<lambda>owner_id.
      if owner_id = native_loader_id rt then liftR (\<lambda>c. get_program_key ic (transaction_context c))
      else if owner_id = bpf_loader_deprecated_id rt \<or> owner_id = bpf_loader_id rt
        \<or> owner_id = bpf_loader_upgradeable_id rt \<or> owner_id = loader_v4_id rt then ret owner_id
      else fail_with UnsupportedProgramId)"

definition find_entrypoint :: "runtime \<Rightarrow> pubkey \<Rightarrow> (builtin, instruction_error failure) result" where
  "find_entrypoint rt builtin_id =
    (case rt_find rt builtin_id of
       Some (Builtin registry) \<Rightarrow>
         (case lookup_by_key registry ENTRYPOINT_KEY of
            Some (_, function) \<Rightarrow> Ok function
          | None \<Rightarrow> Err (Fail UnsupportedProgramId))
     | _ \<Rightarrow> Err (Fail UnsupportedProgramId))"

text \<open>Calling the entry point through the wrapper of the virtual machine and logging how it ended.\<close>

definition call_builtin :: "runtime \<Rightarrow> pubkey \<Rightarrow> builtin \<Rightarrow> (invoke_context, unit) ix" where
  "call_builtin rt pk function c =
    (case function c of
       (Ok _, c) \<Rightarrow> (Ok (), c\<lparr>log_collector := program_success (rt_show_key rt) pk (log_collector c)\<rparr>)
     | (Err Panic, c) \<Rightarrow> (Err Panic, c)
     | (Err (Fail err), c) \<Rightarrow>
         (Err (Fail (case err of Boxed_instruction e \<Rightarrow> e | Boxed_other _ \<Rightarrow> ProgramFailedToComplete)),
          c\<lparr>log_collector := program_failure (rt_show_key rt) (rt_show_error rt) pk err (log_collector c)\<rparr>))"

definition resolve_program :: "runtime \<Rightarrow> (invoke_context, pubkey \<times> builtin \<times> pubkey) ix" where
  "resolve_program rt =
    bindM (liftR (\<lambda>c. get_current_instruction_context (transaction_context c))) (\<lambda>ic.
      bindM (builtin_id_of rt ic) (\<lambda>builtin_id.
        bindM (liftR (\<lambda>_. find_entrypoint rt builtin_id)) (\<lambda>function.
          bindM (liftR (\<lambda>c. get_program_key ic (transaction_context c))) (\<lambda>pk.
            seqM (on_transaction (set_return_data pk [])) (ret (builtin_id, function, pk))))))"

definition process_executable_chain :: "runtime \<Rightarrow> (invoke_context \<times> u64, unit) ix" where
  "process_executable_chain rt =
    (\<lambda>(c, consumed).
      case resolve_program rt c of
        (Err e, c) \<Rightarrow> (Err e, (c, consumed))
      | (Ok (builtin_id, function, pk), c) \<Rightarrow>
          let c = c\<lparr>log_collector := program_invoke (rt_show_key rt) pk
                       (get_instruction_stack_height (transaction_context c)) (log_collector c)\<rparr>;
              pre_remaining_units = remaining_units c;
              (result, c) = call_builtin rt pk function c;
              consumed = saturating_sub pre_remaining_units (remaining_units c)
          in if builtin_id = pk \<and> is_ok result \<and> consumed = 0
             then (Err (Fail BuiltinProgramsMustConsumeComputeUnits), (c, consumed))
             else (result, (c, consumed)))"

definition and_result :: "(unit, instruction_error failure) result \<Rightarrow> (unit, instruction_error failure) result
    \<Rightarrow> (unit, instruction_error failure) result" where
  "and_result r s = (case r of Ok _ \<Rightarrow> s | Err e \<Rightarrow> Err e)"

definition process_instruction :: "runtime \<Rightarrow> (invoke_context \<times> u64, unit) ix" where
  "process_instruction rt =
    (\<lambda>(c, _).
      case invoke_push rt c of
        (Err e, c) \<Rightarrow> (Err e, (c, 0))
      | (Ok _, c) \<Rightarrow>
          let (r, (c, consumed)) = process_executable_chain rt (c, 0) in
          if r = Err Panic then (r, (c, consumed))
          else let (s, c) = invoke_pop c in (and_result r s, (c, consumed)))"

definition process_precompile :: "runtime \<Rightarrow> pubkey \<Rightarrow> bytes \<Rightarrow> bytes list \<Rightarrow> (invoke_context, unit) ix" where
  "process_precompile rt pk bs datas c =
    (case invoke_push rt c of
       (Err e, c) \<Rightarrow> (Err e, c)
     | (Ok _, c) \<Rightarrow>
         let r = (case precompile rt pk bs datas of Ok _ \<Rightarrow> Ok () | Err e \<Rightarrow> Err (Fail e));
             (s, c) = invoke_pop c
         in (and_result r s, c))"

fun derive_signers :: "runtime \<Rightarrow> pubkey \<Rightarrow> bytes list list \<Rightarrow> (pubkey list, instruction_error failure) result" where
  "derive_signers rt caller [] = Ok []"
| "derive_signers rt caller (seeds # rest) =
    (case create_program_address rt seeds caller of
       Err e \<Rightarrow> Err (Fail (instruction_error_of_u64 rt e))
     | Ok pk \<Rightarrow> bindR (derive_signers rt caller rest) (\<lambda>pks. Ok (pk # pks)))"

definition native_invoke_signed :: "runtime \<Rightarrow> instruction \<Rightarrow> bytes list list \<Rightarrow> (invoke_context, unit) ix" where
  "native_invoke_signed rt ix signer_seeds =
    bindM (liftR (\<lambda>c. bindR (get_current_instruction_context (transaction_context c))
                          (\<lambda>ic. get_program_key ic (transaction_context c)))) (\<lambda>caller_program_id.
      bindM (liftR (\<lambda>_. derive_signers rt caller_program_id signer_seeds)) (\<lambda>signers.
        seqM (prepare_next_cpi_instruction rt ix signers) (\<lambda>c.
          let (r, (c, _)) = process_instruction rt (c, 0) in (r, c))))"

text \<open>\<open>declare_process_instruction!\<close>: a built-in program pays for its call before it starts.\<close>

definition declare_process_instruction :: "u64 \<Rightarrow> (invoke_context, unit) ix \<Rightarrow> builtin" where
  "declare_process_instruction cu_to_consume inner c =
    (case (if cu_to_consume > 0 then seqM (consume_checked cu_to_consume) inner else inner) c of
       (Ok _, c) \<Rightarrow> (Ok (), c)
     | (Err Panic, c) \<Rightarrow> (Err Panic, c)
     | (Err (Fail e), c) \<Rightarrow> (Err (Fail (Boxed_instruction e)), c))"

section \<open>Lemmas\<close>

interpretation invoke_meter: context_object consume_units remaining_units
  by unfold_locales (simp add: consume_units_def remaining_units_def)

end
