(* ===== verification/Svm_Transaction.thy ===== *)
theory Svm_Transaction
  imports Rt_Invoke
begin

text \<open>
  What the transaction processor sees of a transaction, \<^verbatim>\<open>src/transaction/src/svm_message.rs\<close>: the accessors a message type has to
  provide are the fields of the records \<open>svm_message\<close> and \<open>svm_transaction\<close>, and the methods that the trait defines are functions of them.
  \<open>transaction_error\<close> has the errors of another package that the sources raise.
\<close>

datatype transaction_error =
    AccountNotFound | ProgramAccountNotFound | InsufficientFundsForFee | InvalidAccountForFee | BlockhashNotFound
  | InstructionError u8 instruction_error | InvalidProgramForExecution | InvalidAccountIndex | InvalidWritableAccount
  | InvalidRentPayingAccount | MaxLoadedAccountsDataSizeExceeded | InsufficientFundsForRent u8 | UnbalancedTransaction
  | ProgramCacheHitMaxLimit | CommitCancelled

record svm_transaction = svm_message +
  tx_account_keys :: "pubkey list"
  tx_num_static_keys :: nat
  tx_fee_payer :: pubkey
  tx_num_lookup_tables :: nat
  tx_recent_blockhash :: bytes
  tx_is_invoked :: "nat \<Rightarrow> bool"

definition ix_program_index :: "u8 \<times> u8 list \<times> bytes \<Rightarrow> u8" where
  "ix_program_index ix = fst ix"

definition ix_accounts :: "u8 \<times> u8 list \<times> bytes \<Rightarrow> u8 list" where
  "ix_accounts ix = fst (snd ix)"

definition ix_data :: "u8 \<times> u8 list \<times> bytes \<Rightarrow> bytes" where
  "ix_data ix = snd (snd ix)"

definition is_instruction_account :: "svm_transaction \<Rightarrow> nat \<Rightarrow> bool" where
  "is_instruction_account tx key_index =
    (if key_index < 256 then list_ex (\<lambda>ix. word_of_nat key_index \<in> set (ix_accounts ix)) (message_instructions tx) else False)"

definition NONCED_TX_MARKER_IX_INDEX :: u8 where
  "NONCED_TX_MARKER_IX_INDEX = 0"

definition get_durable_nonce :: "pubkey \<Rightarrow> svm_transaction \<Rightarrow> pubkey option" where
  "get_durable_nonce system_program_id tx =
    (case get_at (message_instructions tx) (unat NONCED_TX_MARKER_IX_INDEX) of
       None \<Rightarrow> None
     | Some ix \<Rightarrow>
         if get_at (tx_account_keys tx) (unat (ix_program_index ix)) = Some system_program_id
           \<and> 4 \<le> length (ix_data ix) \<and> take 4 (ix_data ix) = le_bytes 4 4 then
           (case get_at (ix_accounts ix) 0 of
              None \<Rightarrow> None
            | Some index \<Rightarrow>
                if unat index \<ge> tx_num_static_keys tx \<or> \<not> message_is_writable tx (unat index) then None
                else get_at (tx_account_keys tx) (unat index))
         else None)"

definition get_ix_signers :: "svm_transaction \<Rightarrow> nat \<Rightarrow> pubkey list" where
  "get_ix_signers tx index =
    (case get_at (message_instructions tx) index of
       None \<Rightarrow> []
     | Some ix \<Rightarrow>
         List.map_filter (get_at (tx_account_keys tx)) (filter (message_is_signer tx) (map unat (ix_accounts ix))))"

definition default_precompile_signature_count :: "pubkey \<Rightarrow> svm_transaction \<Rightarrow> u64" where
  "default_precompile_signature_count pid tx =
    (\<Sum>ix\<leftarrow>filter (\<lambda>ix. message_program_id tx (ix_program_index ix) = pid) (message_instructions tx).
       case ix_data ix of [] \<Rightarrow> 0 | b # _ \<Rightarrow> ucast b)"

end
