(* ===== verification/Svm_Features.thy ===== *)
theory Svm_Features
  imports Main
begin

text \<open>
  The feature set of the runtime, \<^verbatim>\<open>src/feature-set/src/lib.rs\<close>: one flag for every feature gate, all off by default.
\<close>

record svm_feature_set =
  move_precompile_verification_to_svm :: bool
  syscall_parameter_address_restrictions :: bool
  virtual_address_space_adjustments :: bool
  account_data_direct_mapping :: bool
  enable_bpf_loader_set_authority_checked_ix :: bool
  enable_loader_v4 :: bool
  deplete_cu_meter_on_vm_failure :: bool
  abort_on_invalid_curve :: bool
  blake3_syscall_enabled :: bool
  curve25519_syscall_enabled :: bool
  disable_fees_sysvar :: bool
  disable_sbpf_v0_execution :: bool
  enable_alt_bn128_compression_syscall :: bool
  enable_alt_bn128_syscall :: bool
  enable_big_mod_exp_syscall :: bool
  enable_get_epoch_stake_syscall :: bool
  enable_poseidon_syscall :: bool
  enable_sbpf_v1_deployment_and_execution :: bool
  enable_sbpf_v2_deployment_and_execution :: bool
  enable_sbpf_v3_deployment_and_execution :: bool
  get_sysvar_syscall_enabled :: bool
  last_restart_slot_sysvar :: bool
  reenable_sbpf_v0_execution :: bool
  remaining_compute_units_syscall_enabled :: bool
  remove_bpf_loader_incorrect_program_id :: bool
  move_stake_and_move_lamports_ixs :: bool
  deprecate_legacy_vote_ixs :: bool
  simplify_alt_bn128_syscall_error_codes :: bool
  fix_alt_bn128_multiplication_input_length :: bool
  increase_tx_account_lock_limit :: bool
  enable_extend_program_checked :: bool
  formalize_loaded_transaction_data_size :: bool
  disable_zk_elgamal_proof_program :: bool
  reenable_zk_elgamal_proof_program :: bool
  delay_commission_updates :: bool
  raise_cpi_nesting_limit_to_8 :: bool
  provide_instruction_data_offset_in_vm_r2 :: bool
  increase_cpi_account_info_limit :: bool
  vote_state_v4 :: bool
  poseidon_enforce_padding :: bool
  fix_alt_bn128_pairing_length_check :: bool
  alt_bn128_little_endian :: bool
  create_account_allow_prefund :: bool
  bls_pubkey_management_in_vote_account :: bool
  enable_alt_bn128_g2_syscalls :: bool
  commission_rate_in_basis_points :: bool
  custom_commission_collector :: bool
  enable_bls12_381_syscall :: bool
  block_revenue_sharing :: bool
  vote_account_initialize_v2 :: bool
  direct_account_pointers_in_program_input :: bool

definition all_enabled :: svm_feature_set where
  "all_enabled =
    \<lparr>move_precompile_verification_to_svm = True,
     syscall_parameter_address_restrictions = True,
     virtual_address_space_adjustments = True,
     account_data_direct_mapping = True,
     enable_bpf_loader_set_authority_checked_ix = True,
     enable_loader_v4 = True,
     deplete_cu_meter_on_vm_failure = True,
     abort_on_invalid_curve = True,
     blake3_syscall_enabled = True,
     curve25519_syscall_enabled = True,
     disable_fees_sysvar = True,
     disable_sbpf_v0_execution = True,
     enable_alt_bn128_compression_syscall = True,
     enable_alt_bn128_syscall = True,
     enable_big_mod_exp_syscall = True,
     enable_get_epoch_stake_syscall = True,
     enable_poseidon_syscall = True,
     enable_sbpf_v1_deployment_and_execution = True,
     enable_sbpf_v2_deployment_and_execution = True,
     enable_sbpf_v3_deployment_and_execution = True,
     get_sysvar_syscall_enabled = True,
     last_restart_slot_sysvar = True,
     reenable_sbpf_v0_execution = True,
     remaining_compute_units_syscall_enabled = True,
     remove_bpf_loader_incorrect_program_id = True,
     move_stake_and_move_lamports_ixs = True,
     deprecate_legacy_vote_ixs = True,
     simplify_alt_bn128_syscall_error_codes = True,
     fix_alt_bn128_multiplication_input_length = True,
     increase_tx_account_lock_limit = True,
     enable_extend_program_checked = True,
     formalize_loaded_transaction_data_size = True,
     disable_zk_elgamal_proof_program = True,
     reenable_zk_elgamal_proof_program = True,
     delay_commission_updates = True,
     raise_cpi_nesting_limit_to_8 = True,
     provide_instruction_data_offset_in_vm_r2 = True,
     increase_cpi_account_info_limit = True,
     vote_state_v4 = True,
     poseidon_enforce_padding = True,
     fix_alt_bn128_pairing_length_check = True,
     alt_bn128_little_endian = True,
     create_account_allow_prefund = True,
     bls_pubkey_management_in_vote_account = True,
     enable_alt_bn128_g2_syscalls = True,
     commission_rate_in_basis_points = True,
     custom_commission_collector = True,
     enable_bls12_381_syscall = True,
     block_revenue_sharing = True,
     vote_account_initialize_v2 = True,
     direct_account_pointers_in_program_input = True\<rparr>"

end
