(* ===== verification/Rt_Sysvars.thy ===== *)
theory Rt_Sysvars
  imports Rt_Invoke Svm_Features
begin

text \<open>
  The sysvar cache, \<^verbatim>\<open>src/program-runtime/src/sysvar_cache.rs\<close>, and the configuration of an invocation that holds it
  (\<open>EnvironmentConfig\<close> of \<^verbatim>\<open>invoke_context.rs\<close>). The types of the sysvars, their identifiers and their decoders come from other
  packages: the types are the type variables \<open>'clock\<close> to \<open>'rb\<close>, the rest is the parameter \<open>sysvar_types\<close>. The cache keeps the bytes of
  an account as they are, so a program reads the buffer that exists on chain.
\<close>

section \<open>Sysvars\<close>

record ('clock, 'es, 'er, 'rent, 'sh, 'st, 'lrs, 'fees, 'rb) sysvar_types =
  clock_id :: pubkey
  epoch_schedule_id :: pubkey
  epoch_rewards_id :: pubkey
  rent_id :: pubkey
  slot_hashes_id :: pubkey
  stake_history_id :: pubkey
  last_restart_slot_id :: pubkey
  fees_id :: pubkey
  recent_blockhashes_id :: pubkey
  decode_clock :: "bytes \<Rightarrow> 'clock option"
  decode_epoch_schedule :: "bytes \<Rightarrow> 'es option"
  decode_epoch_rewards :: "bytes \<Rightarrow> 'er option"
  decode_rent :: "bytes \<Rightarrow> 'rent option"
  decode_slot_hashes :: "bytes \<Rightarrow> 'sh option"
  decode_stake_history :: "bytes \<Rightarrow> 'st option"
  decode_last_restart_slot :: "bytes \<Rightarrow> 'lrs option"
  decode_fees :: "bytes \<Rightarrow> 'fees option"
  decode_recent_blockhashes :: "bytes \<Rightarrow> 'rb option"

record ('sh, 'st, 'fees, 'rb) sysvar_cache =
  sc_clock :: "bytes option"
  sc_epoch_schedule :: "bytes option"
  sc_epoch_rewards :: "bytes option"
  sc_rent :: "bytes option"
  sc_slot_hashes :: "bytes option"
  sc_stake_history :: "bytes option"
  sc_last_restart_slot :: "bytes option"
  sc_slot_hashes_obj :: "'sh option"
  sc_stake_history_obj :: "'st option"
  sc_fees :: "'fees option"
  sc_recent_blockhashes :: "'rb option"

definition sysvar_cache_default :: "('sh, 'st, 'fees, 'rb) sysvar_cache" where
  "sysvar_cache_default =
    \<lparr>sc_clock = None, sc_epoch_schedule = None, sc_epoch_rewards = None, sc_rent = None, sc_slot_hashes = None,
     sc_stake_history = None, sc_last_restart_slot = None, sc_slot_hashes_obj = None, sc_stake_history_obj = None,
     sc_fees = None, sc_recent_blockhashes = None\<rparr>"

definition sysvar_id_to_buffer ::
  "('clock, 'es, 'er, 'rent, 'sh, 'st, 'lrs, 'fees, 'rb) sysvar_types \<Rightarrow> ('sh, 'st, 'fees, 'rb) sysvar_cache \<Rightarrow> pubkey \<Rightarrow> bytes option" where
  "sysvar_id_to_buffer sv sc key =
    (if key = clock_id sv then sc_clock sc
     else if key = epoch_schedule_id sv then sc_epoch_schedule sc
     else if key = epoch_rewards_id sv then sc_epoch_rewards sc
     else if key = rent_id sv then sc_rent sc
     else if key = slot_hashes_id sv then sc_slot_hashes sc
     else if key = stake_history_id sv then sc_stake_history sc
     else if key = last_restart_slot_id sv then sc_last_restart_slot sc
     else None)"

definition get_sysvar_obj ::
  "('clock, 'es, 'er, 'rent, 'sh, 'st, 'lrs, 'fees, 'rb) sysvar_types \<Rightarrow> (bytes \<Rightarrow> 'a option) \<Rightarrow> pubkey
    \<Rightarrow> ('sh, 'st, 'fees, 'rb) sysvar_cache \<Rightarrow> ('a, instruction_error failure) result" where
  "get_sysvar_obj sv decode key sc =
    (case sysvar_id_to_buffer sv sc key of
       Some buf \<Rightarrow> ok_or (Fail UnsupportedSysvar) (decode buf)
     | None \<Rightarrow> Err (Fail UnsupportedSysvar))"

definition get_clock where
  "get_clock sv = get_sysvar_obj sv (decode_clock sv) (clock_id sv)"

definition get_epoch_schedule where
  "get_epoch_schedule sv = get_sysvar_obj sv (decode_epoch_schedule sv) (epoch_schedule_id sv)"

definition get_epoch_rewards where
  "get_epoch_rewards sv = get_sysvar_obj sv (decode_epoch_rewards sv) (epoch_rewards_id sv)"

definition get_rent where
  "get_rent sv = get_sysvar_obj sv (decode_rent sv) (rent_id sv)"

definition get_last_restart_slot where
  "get_last_restart_slot sv = get_sysvar_obj sv (decode_last_restart_slot sv) (last_restart_slot_id sv)"

definition get_stake_history :: "('sh, 'st, 'fees, 'rb) sysvar_cache \<Rightarrow> ('st, instruction_error failure) result" where
  "get_stake_history sc = ok_or (Fail UnsupportedSysvar) (sc_stake_history_obj sc)"

definition get_slot_hashes :: "('sh, 'st, 'fees, 'rb) sysvar_cache \<Rightarrow> ('sh, instruction_error failure) result" where
  "get_slot_hashes sc = ok_or (Fail UnsupportedSysvar) (sc_slot_hashes_obj sc)"

definition get_fees :: "('sh, 'st, 'fees, 'rb) sysvar_cache \<Rightarrow> ('fees, instruction_error failure) result" where
  "get_fees sc = ok_or (Fail UnsupportedSysvar) (sc_fees sc)"

definition get_recent_blockhashes :: "('sh, 'st, 'fees, 'rb) sysvar_cache \<Rightarrow> ('rb, instruction_error failure) result" where
  "get_recent_blockhashes sc = ok_or (Fail UnsupportedSysvar) (sc_recent_blockhashes sc)"

text \<open>
  \<open>fill_missing_entries\<close>: the callback hands over the data of an account when there is one, at most once. An entry that is there already is
  not asked for, and data that does not decode is not taken.
\<close>

definition fill_bytes :: "(bytes \<Rightarrow> 'a option) \<Rightarrow> bytes option \<Rightarrow> bytes option \<Rightarrow> bytes option" where
  "fill_bytes decode account entry =
    (case entry of
       Some buf \<Rightarrow> Some buf
     | None \<Rightarrow> (case account of
                 None \<Rightarrow> None
               | Some bs \<Rightarrow> if decode bs \<noteq> None then Some bs else None))"

definition fill_obj :: "(bytes \<Rightarrow> 'a option) \<Rightarrow> bytes option \<Rightarrow> 'b option \<Rightarrow> 'a option \<Rightarrow> 'a option" where
  "fill_obj decode account entry obj =
    (if entry \<noteq> None then obj
     else case account of
            None \<Rightarrow> obj
          | Some bs \<Rightarrow> (case decode bs of None \<Rightarrow> obj | Some x \<Rightarrow> Some x))"

definition fill_missing_entries ::
  "('clock, 'es, 'er, 'rent, 'sh, 'st, 'lrs, 'fees, 'rb) sysvar_types \<Rightarrow> (pubkey \<Rightarrow> bytes option)
    \<Rightarrow> ('sh, 'st, 'fees, 'rb) sysvar_cache \<Rightarrow> ('sh, 'st, 'fees, 'rb) sysvar_cache" where
  "fill_missing_entries sv get_account_data c =
    \<lparr>sc_clock = fill_bytes (decode_clock sv) (get_account_data (clock_id sv)) (sc_clock c),
     sc_epoch_schedule = fill_bytes (decode_epoch_schedule sv) (get_account_data (epoch_schedule_id sv)) (sc_epoch_schedule c),
     sc_epoch_rewards = fill_bytes (decode_epoch_rewards sv) (get_account_data (epoch_rewards_id sv)) (sc_epoch_rewards c),
     sc_rent = fill_bytes (decode_rent sv) (get_account_data (rent_id sv)) (sc_rent c),
     sc_slot_hashes = fill_bytes (decode_slot_hashes sv) (get_account_data (slot_hashes_id sv)) (sc_slot_hashes c),
     sc_stake_history = fill_bytes (decode_stake_history sv) (get_account_data (stake_history_id sv)) (sc_stake_history c),
     sc_last_restart_slot = fill_bytes (decode_last_restart_slot sv) (get_account_data (last_restart_slot_id sv)) (sc_last_restart_slot c),
     sc_slot_hashes_obj = fill_obj (decode_slot_hashes sv) (get_account_data (slot_hashes_id sv)) (sc_slot_hashes c) (sc_slot_hashes_obj c),
     sc_stake_history_obj = fill_obj (decode_stake_history sv) (get_account_data (stake_history_id sv)) (sc_stake_history c) (sc_stake_history_obj c),
     sc_fees = fill_obj (decode_fees sv) (get_account_data (fees_id sv)) (sc_fees c) (sc_fees c),
     sc_recent_blockhashes =
       fill_obj (decode_recent_blockhashes sv) (get_account_data (recent_blockhashes_id sv)) (sc_recent_blockhashes c) (sc_recent_blockhashes c)\<rparr>"

section \<open>The configuration of an invocation\<close>

record ('sh, 'st, 'fees, 'rb) environment_config =
  blockhash :: bytes
  blockhash_lamports_per_signature :: u64
  alpenglow_migration_succeeded :: bool
  env_features :: svm_feature_set
  env_sysvar_cache :: "('sh, 'st, 'fees, 'rb) sysvar_cache"

text \<open>\<open>get_sysvar_with_account_check\<close>: the instruction still has to name the account of the sysvar.\<close>

definition check_sysvar_account ::
  "pubkey \<Rightarrow> instruction_context \<Rightarrow> u16 \<Rightarrow> transaction_context \<Rightarrow> (unit, instruction_error failure) result" where
  "check_sysvar_account key ic index tc =
    bindR (get_key_of_instruction_account index ic tc) (\<lambda>account_key.
      if account_key \<noteq> key then Err (Fail InvalidArgument) else Ok ())"

definition checked_rent where
  "checked_rent sv env ic index tc =
    bindR (check_sysvar_account (rent_id sv) ic index tc) (\<lambda>_. get_rent sv (env_sysvar_cache env))"

definition checked_clock where
  "checked_clock sv env ic index tc =
    bindR (check_sysvar_account (clock_id sv) ic index tc) (\<lambda>_. get_clock sv (env_sysvar_cache env))"

definition checked_slot_hashes where
  "checked_slot_hashes sv env ic index tc =
    bindR (check_sysvar_account (slot_hashes_id sv) ic index tc) (\<lambda>_. get_slot_hashes (env_sysvar_cache env))"

definition checked_recent_blockhashes where
  "checked_recent_blockhashes sv env ic index tc =
    bindR (check_sysvar_account (recent_blockhashes_id sv) ic index tc) (\<lambda>_. get_recent_blockhashes (env_sysvar_cache env))"

definition checked_stake_history where
  "checked_stake_history sv env ic index tc =
    bindR (check_sysvar_account (stake_history_id sv) ic index tc) (\<lambda>_. get_stake_history (env_sysvar_cache env))"

definition checked_last_restart_slot where
  "checked_last_restart_slot sv env ic index tc =
    bindR (check_sysvar_account (last_restart_slot_id sv) ic index tc) (\<lambda>_. get_last_restart_slot sv (env_sysvar_cache env))"

section \<open>Properties\<close>

text \<open>The sysvars with a buffer by their identifiers, each with the test that its data decodes.\<close>

definition buffered :: "('clock, 'es, 'er, 'rent, 'sh, 'st, 'lrs, 'fees, 'rb) sysvar_types \<Rightarrow> (pubkey \<times> (bytes \<Rightarrow> bool)) list" where
  "buffered sv =
    [(clock_id sv, \<lambda>bs. decode_clock sv bs \<noteq> None),
     (epoch_schedule_id sv, \<lambda>bs. decode_epoch_schedule sv bs \<noteq> None),
     (epoch_rewards_id sv, \<lambda>bs. decode_epoch_rewards sv bs \<noteq> None),
     (rent_id sv, \<lambda>bs. decode_rent sv bs \<noteq> None),
     (slot_hashes_id sv, \<lambda>bs. decode_slot_hashes sv bs \<noteq> None),
     (stake_history_id sv, \<lambda>bs. decode_stake_history sv bs \<noteq> None),
     (last_restart_slot_id sv, \<lambda>bs. decode_last_restart_slot sv bs \<noteq> None)]"

definition sample_decode :: "bytes \<Rightarrow> bytes option" where
  "sample_decode bs = (if 2 \<le> length bs then Some (take 2 bs) else None)"

definition sample_sysvars :: "(bytes, bytes, bytes, bytes, bytes, bytes, bytes, bytes, bytes) sysvar_types" where
  "sample_sysvars =
     \<lparr>clock_id = [1], epoch_schedule_id = [2], epoch_rewards_id = [3], rent_id = [4], slot_hashes_id = [5], stake_history_id = [6],
      last_restart_slot_id = [7], fees_id = [8], recent_blockhashes_id = [9], decode_clock = sample_decode,
      decode_epoch_schedule = sample_decode, decode_epoch_rewards = sample_decode, decode_rent = sample_decode,
      decode_slot_hashes = sample_decode, decode_stake_history = sample_decode, decode_last_restart_slot = sample_decode,
      decode_fees = sample_decode, decode_recent_blockhashes = sample_decode\<rparr>"

text \<open>C38. The sysvar cache shows programs the bytes that are on chain: filling the cache never replaces an entry that is there, and an
  entry that was missing becomes exactly the data of the account of the sysvar, whatever its length, when that data decodes, and stays
  missing otherwise.\<close>

theorem sysvar_cache_preserves_bytes:
  assumes "map_of (buffered sv) key = Some decodes"
  shows "sysvar_id_to_buffer sv (fill_missing_entries sv get_account_data c) key =
    (case sysvar_id_to_buffer sv c key of
       Some buf \<Rightarrow> Some buf
     | None \<Rightarrow> (case get_account_data key of None \<Rightarrow> None | Some bs \<Rightarrow> if decodes bs then Some bs else None))"
  using assms unfolding buffered_def
  by (simp split: if_split_asm)
    (clarify, simp add: sysvar_id_to_buffer_def fill_missing_entries_def fill_bytes_def cong: option.case_cong)+

theorem sysvar_cache_preserves_bytes_witness:
  "sysvar_id_to_buffer sample_sysvars
     (fill_missing_entries sample_sysvars (\<lambda>key. if key = [4] then Some [10, 20, 30] else None) sysvar_cache_default) [4]
   = Some [10, 20, 30]"
proof -
  have "map_of (buffered sample_sysvars) [4] = Some (\<lambda>bs. sample_decode bs \<noteq> None)"
    by (simp add: buffered_def sample_sysvars_def)
  from sysvar_cache_preserves_bytes [OF this] show ?thesis
    by (simp add: sysvar_id_to_buffer_def sysvar_cache_default_def sample_sysvars_def sample_decode_def)
qed

end
