(* ===== verification/Rt_Prepare.thy ===== *)
theory Rt_Prepare
  imports Rt_Invoke
begin

text \<open>
  What the preparation of an instruction guarantees: accounts that occur more than once share their privileges
  (\<open>merged\<close>), the privileges of the callee are covered by those of the caller (\<open>checked\<close>), and every stored instruction can find
  its accounts by their index in the transaction (\<open>contexts_ok\<close>). The lemmas on the heap allocator are here as well.
\<close>

section \<open>Invariants\<close>

definition dedup_ok :: "u16 list \<Rightarrow> instruction_account list \<Rightarrow> bool" where
  "dedup_ok callee_map ias \<longleftrightarrow> (\<forall>t < length callee_map. unat (callee_map ! t) < length ias \<longrightarrow>
     unat (index_in_transaction (ias ! unat (callee_map ! t))) = t)"

definition contexts_ok :: "transaction_context \<Rightarrow> bool" where
  "contexts_ok tc \<longleftrightarrow> length (deduplication_maps tc) = length (instruction_accounts tc)
    \<and> (\<forall>n < length (instruction_accounts tc). dedup_ok (deduplication_maps tc ! n) (instruction_accounts tc ! n))"

text \<open>The position of the first account of an instruction with the same index in the transaction.\<close>

definition first_use :: "u16 list \<Rightarrow> instruction_account \<Rightarrow> nat" where
  "first_use callee_map ia = unat (callee_map ! unat (index_in_transaction ia))"

definition merged_at :: "transaction_context \<Rightarrow> account_meta list \<Rightarrow> u16 list \<Rightarrow> instruction_account list \<Rightarrow> nat \<Rightarrow> bool" where
  "merged_at tc metas callee_map ias i \<longleftrightarrow> (let r = first_use callee_map (ias ! i) in
     find_index_of_account (meta_pubkey (metas ! i)) tc = Some (index_in_transaction (ias ! i))
     \<and> unat (index_in_transaction (ias ! i)) < length callee_map \<and> r \<le> i
     \<and> (is_writable (ias ! i) \<or> meta_is_writable (metas ! i) \<longrightarrow> is_writable (ias ! r))
     \<and> (is_signer (ias ! i) \<or> meta_is_signer (metas ! i) \<longrightarrow> is_signer (ias ! r)))"

definition merged :: "transaction_context \<Rightarrow> account_meta list \<Rightarrow> u16 list \<Rightarrow> instruction_account list \<Rightarrow> bool" where
  "merged tc metas callee_map ias \<longleftrightarrow> length ias = length metas \<and> dedup_ok callee_map ias
    \<and> (\<forall>t < length callee_map. unat (callee_map ! t) < length ias \<or> callee_map ! t = 0xffff)
    \<and> (\<forall>i < length ias. merged_at tc metas callee_map ias i)"

text \<open>What the second loop keeps and what it has checked.\<close>

definition same_firsts :: "u16 list \<Rightarrow> instruction_account list \<Rightarrow> instruction_account list \<Rightarrow> bool" where
  "same_firsts callee_map ias ias' \<longleftrightarrow> length ias' = length ias \<and> (\<forall>j < length ias.
     let r = first_use callee_map (ias ! j) in
     index_in_transaction (ias' ! j) = index_in_transaction (ias ! j)
     \<and> (r = j \<longrightarrow> ias' ! j = ias ! j)
     \<and> (is_writable (ias' ! j) \<longrightarrow> is_writable (ias ! j) \<or> is_writable (ias ! r))
     \<and> (is_signer (ias' ! j) \<longrightarrow> is_signer (ias ! j) \<or> is_signer (ias ! r))
     \<and> (is_writable (ias ! j) \<longrightarrow> is_writable (ias' ! j)) \<and> (is_signer (ias ! j) \<longrightarrow> is_signer (ias' ! j)))"

definition granted :: "instruction_context \<Rightarrow> pubkey list \<Rightarrow> pubkey \<Rightarrow> instruction_account \<Rightarrow> bool" where
  "granted caller signers key ia \<longleftrightarrow>
    (\<exists>k. get_index_of_account_in_instruction (index_in_transaction ia) caller = Ok k
      \<and> unat k < length (ic_accounts caller)
      \<and> (is_writable ia \<longrightarrow> is_writable (ic_accounts caller ! unat k))
      \<and> (is_signer ia \<longrightarrow> is_signer (ic_accounts caller ! unat k) \<or> key \<in> set signers))"

definition firsts_ok :: "u16 list \<Rightarrow> instruction_account list \<Rightarrow> bool" where
  "firsts_ok callee_map ias \<longleftrightarrow> dedup_ok callee_map ias
    \<and> (\<forall>j < length ias. unat (index_in_transaction (ias ! j)) < length callee_map \<and> first_use callee_map (ias ! j) < length ias)"

definition checked ::
  "instruction_context \<Rightarrow> account_meta list \<Rightarrow> pubkey list \<Rightarrow> u16 list \<Rightarrow> instruction_account list \<Rightarrow> instruction_account list \<Rightarrow> nat \<Rightarrow> bool" where
  "checked caller metas signers callee_map ias ias' i \<longleftrightarrow> (let r = first_use callee_map (ias ! i) in
     (r = i \<longrightarrow> i < length metas \<and> granted caller signers (meta_pubkey (metas ! i)) (ias ! i))
     \<and> (is_writable (ias ! r) \<longrightarrow> is_writable (ias' ! i)) \<and> (is_signer (ias ! r) \<longrightarrow> is_signer (ias' ! i)))"

definition privileges_kept ::
  "instruction_context \<Rightarrow> pubkey list \<Rightarrow> transaction_context \<Rightarrow> account_meta \<Rightarrow> instruction_account \<Rightarrow> bool" where
  "privileges_kept caller signers tc meta ia \<longleftrightarrow>
    account_key (index_in_transaction ia) (accounts tc) = Some (meta_pubkey meta)
    \<and> (meta_is_writable meta \<longrightarrow> is_writable ia) \<and> (meta_is_signer meta \<longrightarrow> is_signer ia)
    \<and> (\<exists>ca \<in> set (ic_accounts caller). index_in_transaction ca = index_in_transaction ia
        \<and> (is_writable ia \<longrightarrow> is_writable ca) \<and> (is_signer ia \<longrightarrow> is_signer ca \<or> meta_pubkey meta \<in> set signers))"

definition top_level_account :: "svm_message \<Rightarrow> u8 \<Rightarrow> instruction_account" where
  "top_level_account message index =
    instruction_account_new (ucast index) (message_is_signer message (unat index)) (message_is_writable message (unat index))"

text \<open>A transaction whose first program, a signer's wallet manager, calls a second program.\<close>

definition wallet_accounts :: "(pubkey \<times> account_shared_data) list" where
  "wallet_accounts =
    [([1], \<lparr>lamports = 10, data = [], owner = [9], executable_flag = False, rent_epoch = 0\<rparr>),
     ([2], \<lparr>lamports = 20, data = [], owner = [9], executable_flag = False, rent_epoch = 0\<rparr>),
     ([8], \<lparr>lamports = 1, data = [], owner = [7], executable_flag = True, rent_epoch = 0\<rparr>),
     ([9], \<lparr>lamports = 1, data = [], owner = [7], executable_flag = True, rent_epoch = 0\<rparr>)]"

definition wallet_message :: svm_message where
  "wallet_message = \<lparr>message_instructions = [(2, [0, 1, 3], [])], message_program_id = (\<lambda>_. [8]), message_is_signer = (\<lambda>n. n = 0),
     message_is_writable = (\<lambda>n. n < 2)\<rparr>"

definition wallet_call :: instruction where
  "wallet_call = \<lparr>program_id = [9], account_metas =
     [\<lparr>meta_pubkey = [1], meta_is_signer = True, meta_is_writable = False\<rparr>,
      \<lparr>meta_pubkey = [2], meta_is_signer = True, meta_is_writable = True\<rparr>,
      \<lparr>meta_pubkey = [1], meta_is_signer = False, meta_is_writable = True\<rparr>], instruction_bytes = [42]\<rparr>"

definition wallet_budget :: execution_budget where
  "wallet_budget = \<lparr>eb_compute_unit_limit = 1000, eb_max_instruction_stack_depth = 5, eb_max_instruction_trace_length = 64,
     eb_sha256_max_slices = 0, eb_max_call_depth = 64, eb_stack_frame_size = 4096, eb_heap_size = 32768\<rparr>"

definition wallet_context :: invoke_context where
  "wallet_context = invoke_context_new (context_new wallet_accounts (\<lambda>_ _. True) 5 64 1) None wallet_budget default_cost"

definition wallet_prepared :: invoke_context where
  "wallet_prepared = snd (prepare_top_level_instructions wallet_message wallet_context)"

definition wallet_runtime :: runtime where
  "wallet_runtime = \<lparr>rt_show_key = (\<lambda>_. []), rt_show_error = (\<lambda>_. []), native_loader_id = [7], bpf_loader_deprecated_id = [10],
     bpf_loader_id = [11], bpf_loader_upgradeable_id = [12], loader_v4_id = [13],
     rt_sysvar = \<lparr>instructions_id = [14], sysvar_id = [15], store_current_index_checked = (\<lambda>_ d. Ok d)\<rparr>,
     rt_find = (\<lambda>_. None), create_program_address = (\<lambda>_ _. Err 0), instruction_error_of_u64 = (\<lambda>_. GenericError),
     is_precompile = (\<lambda>_. False), precompile = (\<lambda>_ _ _. Ok ())\<rparr>"

definition wallet_running :: invoke_context where
  "wallet_running = snd (invoke_push wallet_runtime wallet_prepared)"

section \<open>Lemmas\<close>

lemma flag_simps [simp]:
  "is_signer (set_is_signer b ia) = b" "is_writable (set_is_writable b ia) = b"
  "is_signer (set_is_writable b ia) = is_signer ia" "is_writable (set_is_signer b ia) = is_writable ia"
  "index_in_transaction (set_is_signer b ia) = index_in_transaction ia"
  "index_in_transaction (set_is_writable b ia) = index_in_transaction ia"
  "is_signer (instruction_account_new n s w) = s" "is_writable (instruction_account_new n s w) = w"
  "index_in_transaction (instruction_account_new n s w) = n"
  by (simp_all add: is_signer_def is_writable_def set_is_signer_def set_is_writable_def instruction_account_new_def bool_as_u8_def)

lemma merged_nil: "merged tc [] (replicate n 0xffff) []"
  by (simp add: merged_def dedup_ok_def)

lemma merged_again:
  assumes m: "merged tc metas callee_map ias" "length metas < 0xffff"
    and found: "find_index_of_account (meta_pubkey meta) tc = Some index" "unat index < length callee_map"
    and old: "unat (callee_map ! unat index) < length ias"
  defines "r \<equiv> unat (callee_map ! unat index)"
  defines "ia \<equiv> set_is_writable (is_writable (ias ! r) \<or> meta_is_writable meta)
      (set_is_signer (is_signer (ias ! r) \<or> meta_is_signer meta) (ias ! r))"
  shows "merged tc (metas @ [meta]) callee_map (ias[r := ia] @ [ia])"
proof -
  let ?ias = "ias[r := ia] @ [ia]"
  have r: "r < length ias" and len: "length ias = length metas" using old m by (simp_all add: r_def merged_def)
  have idx: "index_in_transaction (ias ! r) = index"
    using m(1) found(2) old by (auto simp: merged_def dedup_ok_def r_def word_unat_eq_iff)
  have at: "?ias ! i = (if i = r \<or> i = length ias then ia else ias ! i)" if "i \<le> length ias" for i
    using that r by (auto simp: nth_append nth_list_update)
  have ia: "index_in_transaction ia = index" "is_writable ia = (is_writable (ias ! r) \<or> meta_is_writable meta)"
    "is_signer ia = (is_signer (ias ! r) \<or> meta_is_signer meta)" "first_use callee_map ia = r"
    using idx by (simp_all add: ia_def first_use_def r_def)
  have "merged_at tc (metas @ [meta]) callee_map ?ias i" if "i < length ?ias" for i
  proof (cases "i = length ias")
    case True
    then show ?thesis using found at [of i] at [of r] r ia len by (simp add: merged_at_def Let_def)
  next
    case False
    then have i: "i < length ias" using that by simp
    then have old_at: "merged_at tc metas callee_map ias i" using m by (simp add: merged_def)
    have meta: "(metas @ [meta]) ! i = metas ! i" using i len by (simp add: nth_append)
    show ?thesis
    proof (cases "i = r")
      case True
      have "first_use callee_map (ias ! r) = r" using idx by (simp add: first_use_def r_def)
      then show ?thesis using old_at at [of r] r ia idx True meta by (auto simp: merged_at_def Let_def)
    next
      case False
      define f where "f = first_use callee_map (ias ! i)"
      have "f \<le> i" using old_at by (simp add: merged_at_def Let_def f_def)
      then have "?ias ! f = (if f = r then ia else ias ! f)" "?ias ! i = ias ! i" using at i False by auto
      then show ?thesis using old_at ia meta by (auto simp: merged_at_def Let_def f_def [symmetric])
    qed
  qed
  moreover have "dedup_ok callee_map ?ias"
    unfolding dedup_ok_def
  proof (intro allI impI)
    fix t
    assume t: "t < length callee_map" "unat (callee_map ! t) < length ?ias"
    have "unat (callee_map ! t) < length ias \<or> callee_map ! t = 0xffff" using m(1) t(1) by (auto simp: merged_def)
    then have lt: "unat (callee_map ! t) < length ias" using t(2) len m(2) by auto
    then have "unat (index_in_transaction (ias ! unat (callee_map ! t))) = t"
      using m(1) t(1) by (simp add: merged_def dedup_ok_def)
    then show "unat (index_in_transaction (?ias ! unat (callee_map ! t))) = t" using at [of "unat (callee_map ! t)"] lt ia(1) idx by auto
  qed
  ultimately show ?thesis using m(1) len by (auto simp: merged_def)
qed

lemma merged_new:
  assumes m: "merged tc metas callee_map ias" "length metas < 0xffff"
    and found: "find_index_of_account (meta_pubkey meta) tc = Some index" "unat index < length callee_map"
    and fresh: "\<not> unat (callee_map ! unat index) < length ias"
  shows "merged tc (metas @ [meta]) (callee_map[unat index := word_of_nat (length ias)])
    (ias @ [instruction_account_new index (meta_is_signer meta) (meta_is_writable meta)])"
proof -
  let ?ia = "instruction_account_new index (meta_is_signer meta) (meta_is_writable meta)"
  let ?ias = "ias @ [?ia]" and ?m = "callee_map[unat index := word_of_nat (length ias)]"
  have len: "length ias = length metas" using m by (simp add: merged_def)
  then have n: "unat (word_of_nat (length ias) :: u16) = length ias" using m(2) by (simp add: unat_of_nat)
  have free: "callee_map ! unat index = 0xffff" using m fresh found(2) by (auto simp: merged_def)
  have other: "unat (index_in_transaction (ias ! i)) \<noteq> unat index" if "i < length ias" for i
  proof
    assume eq: "unat (index_in_transaction (ias ! i)) = unat index"
    have "first_use callee_map (ias ! i) \<le> i" using m that by (simp add: merged_def merged_at_def Let_def)
    then show False using eq free that len m(2) by (simp add: first_use_def)
  qed
  have "merged_at tc (metas @ [meta]) ?m ?ias i" if "i < length ?ias" for i
  proof (cases "i = length ias")
    case True
    then show ?thesis using found n len by (simp add: merged_at_def Let_def first_use_def nth_append)
  next
    case False
    then have i: "i < length ias" using that by simp
    then have "merged_at tc metas callee_map ias i" using m by (simp add: merged_def)
    moreover have "first_use ?m (ias ! i) = first_use callee_map (ias ! i)" using other [OF i] by (simp add: first_use_def)
    ultimately show ?thesis using i len by (auto simp: merged_at_def Let_def nth_append)
  qed
  moreover have "dedup_ok ?m ?ias"
    unfolding dedup_ok_def
  proof (intro allI impI)
    fix t
    assume t: "t < length ?m" "unat (?m ! t) < length ?ias"
    show "unat (index_in_transaction (?ias ! unat (?m ! t))) = t"
    proof (cases "t = unat index")
      case True
      then show ?thesis using n found(2) by simp
    next
      case False
      then have eq: "?m ! t = callee_map ! t" by simp
      have "unat (callee_map ! t) < length ias \<or> callee_map ! t = 0xffff" using m(1) t(1) by (auto simp: merged_def)
      then have "unat (callee_map ! t) < length ias" using t(2) eq len m(2) by auto
      then show ?thesis using m(1) t(1) eq by (simp add: merged_def dedup_ok_def nth_append)
    qed
  qed
  moreover have "\<forall>t < length ?m. unat (?m ! t) < length ?ias \<or> ?m ! t = 0xffff"
    using m n by (auto simp: merged_def nth_update_in less_Suc_eq)
  ultimately show ?thesis using len by (simp add: merged_def)
qed

lemma merge_metas_merged:
  assumes "merge_metas rt metas callee_map ias c = (Ok (callee_map', ias'), c')"
    "merged (transaction_context c) done callee_map ias" "length done + length metas \<le> 0xffff"
  shows "c' = c \<and> merged (transaction_context c) (done @ metas) callee_map' ias' \<and> length callee_map' = length callee_map"
  using assms
proof (induction metas arbitrary: callee_map ias "done")
  case Nil
  then show ?case by (simp add: ret_def)
next
  case (Cons meta metas)
  let ?tc = "transaction_context c"
  have less: "length done < 0xffff" and rest: "length (done @ [meta]) + length metas \<le> 0xffff" using Cons.prems(3) by simp_all
  obtain index where index: "find_index_of_account (meta_pubkey meta) ?tc = Some index"
    using Cons.prems(1) by (cases "find_index_of_account (meta_pubkey meta) ?tc") (auto simp: monad_defs log_and_fail_def fail_with_def)
  then have inside: "unat index < length callee_map"
    using Cons.prems(1) by (cases "unat index < length callee_map") (auto simp: monad_defs get_at_def)
  show ?case
  proof (cases "unat (callee_map ! unat index) < length ias")
    case True
    then show ?thesis
      using Cons.IH [OF _ merged_again [OF Cons.prems(2) less index inside True] rest] Cons.prems(1) index inside
      by (simp add: bindM_def getsM_def get_at_def Let_def)
  next
    case False
    then show ?thesis
      using Cons.IH [OF _ merged_new [OF Cons.prems(2) less index inside False] rest] Cons.prems(1) index inside
      by (simp add: bindM_def getsM_def get_at_def)
  qed
qed

lemma same_firsts_refl: "same_firsts callee_map ias ias"
  by (simp add: same_firsts_def)

lemma same_firsts_step:
  assumes "dedup_ok callee_map ias" "i < length ias" "unat (index_in_transaction (ias ! i)) < length callee_map"
    "first_use callee_map (ias ! i) \<noteq> i" "first_use callee_map (ias ! i) < length ias"
    "ia = set_is_writable (is_writable (ias ! i) \<or> is_writable (ias ! first_use callee_map (ias ! i)))
      (set_is_signer (is_signer (ias ! i) \<or> is_signer (ias ! first_use callee_map (ias ! i))) (ias ! i))"
  shows "same_firsts callee_map ias (ias[i := ia])"
  using assms by (auto simp: same_firsts_def Let_def nth_list_update)

lemma first_use_first:
  assumes "dedup_ok callee_map ias" "unat (index_in_transaction ia) < length callee_map" "first_use callee_map ia < length ias"
  shows "first_use callee_map (ias ! first_use callee_map ia) = first_use callee_map ia"
    "index_in_transaction (ias ! first_use callee_map ia) = index_in_transaction ia"
  using assms by (auto simp: dedup_ok_def first_use_def word_unat_eq_iff)

lemma same_firsts_use:
  assumes "same_firsts callee_map ias ias'" "j < length ias"
  shows "first_use callee_map (ias' ! j) = first_use callee_map (ias ! j)"
  using assms by (auto simp: same_firsts_def first_use_def Let_def)

lemma same_firsts_ok:
  assumes ok: "firsts_ok callee_map ias" and same: "same_firsts callee_map ias ias'"
  shows "firsts_ok callee_map ias'"
proof -
  have len: "length ias' = length ias" and idx: "\<And>j. j < length ias \<Longrightarrow> index_in_transaction (ias' ! j) = index_in_transaction (ias ! j)"
    using same by (auto simp: same_firsts_def Let_def)
  then show ?thesis using ok by (auto simp: firsts_ok_def dedup_ok_def first_use_def)
qed

lemma same_firsts_at_first:
  assumes "firsts_ok callee_map ias" "same_firsts callee_map ias ias'" "j < length ias"
  shows "ias' ! first_use callee_map (ias ! j) = ias ! first_use callee_map (ias ! j)"
proof -
  let ?r = "first_use callee_map (ias ! j)"
  have r: "?r < length ias" "first_use callee_map (ias ! ?r) = ?r"
    using assms(1,3) first_use_first [of callee_map ias "ias ! j"] by (auto simp: firsts_ok_def)
  then show ?thesis using assms(2) by (auto simp: same_firsts_def Let_def)
qed

lemma same_firsts_trans:
  assumes ok: "firsts_ok callee_map ias" and st: "same_firsts callee_map ias ias1" "same_firsts callee_map ias1 ias'"
  shows "same_firsts callee_map ias ias'"
proof -
  have len: "length ias1 = length ias" using st(1) by (simp add: same_firsts_def)
  show ?thesis
    unfolding same_firsts_def Let_def
  proof (intro conjI allI impI)
    fix j assume j: "j < length ias"
    note a = st(1) [unfolded same_firsts_def Let_def, THEN conjunct2, rule_format, OF j]
    note b = st(2) [unfolded same_firsts_def Let_def, THEN conjunct2, rule_format, of j, unfolded len, OF j,
        unfolded same_firsts_use [OF st(1) j] same_firsts_at_first [OF ok st(1) j]]
    show "index_in_transaction (ias' ! j) = index_in_transaction (ias ! j)" using a b by simp
    show "first_use callee_map (ias ! j) = j \<Longrightarrow> ias' ! j = ias ! j" using a b by simp
    show "is_writable (ias' ! j) \<Longrightarrow> is_writable (ias ! j) \<or> is_writable (ias ! first_use callee_map (ias ! j))" using a b by blast
    show "is_signer (ias' ! j) \<Longrightarrow> is_signer (ias ! j) \<or> is_signer (ias ! first_use callee_map (ias ! j))" using a b by blast
    show "is_writable (ias ! j) \<Longrightarrow> is_writable (ias' ! j)" using a b by blast
    show "is_signer (ias ! j) \<Longrightarrow> is_signer (ias' ! j)" using a b by blast
  qed (use st len in \<open>simp add: same_firsts_def\<close>)
qed

lemma check_privileges_first:
  assumes run: "check_privileges rt caller metas signers callee_map (i # is) ias c = (Ok ias', c')"
    and i: "i < length ias" "unat (index_in_transaction (ias ! i)) < length callee_map"
      "first_use callee_map (ias ! i) = i"
  shows "i < length metas \<and> granted caller signers (meta_pubkey (metas ! i)) (ias ! i)
    \<and> check_privileges rt caller metas signers callee_map is ias c = (Ok ias', c')"
proof -
  have mi: "unat (callee_map ! unat (index_in_transaction (ias ! i))) = i" using i(3) by (simp add: first_use_def)
  have "bindM (liftR (\<lambda>_. get_index_of_account_in_instruction (index_in_transaction (ias ! i)) caller)) (\<lambda>k.
      case (get_at metas i, get_at (ic_accounts caller) (unat k)) of
        (Some meta, Some ca) \<Rightarrow>
          if is_writable (ias ! i) \<and> \<not> is_writable ca then
            log_and_fail (rt_show_key rt (meta_pubkey meta) @ [CHR 0x27] @ ''s writable privilege escalated'') PrivilegeEscalation
          else if is_signer (ias ! i) \<and> \<not> (is_signer ca \<or> meta_pubkey meta \<in> set signers) then
            log_and_fail (rt_show_key rt (meta_pubkey meta) @ [CHR 0x27] @ ''s signer privilege escalated'') PrivilegeEscalation
          else check_privileges rt caller metas signers callee_map is ias
      | _ \<Rightarrow> throw Panic) c = (Ok ias', c')"
    using run i(1,2) mi by (simp add: get_at_def)
  then obtain k where "get_index_of_account_in_instruction (index_in_transaction (ias ! i)) caller = Ok k"
    "i < length metas" "unat k < length (ic_accounts caller)"
    "is_writable (ias ! i) \<longrightarrow> is_writable (ic_accounts caller ! unat k)"
    "is_signer (ias ! i) \<longrightarrow> is_signer (ic_accounts caller ! unat k) \<or> meta_pubkey (metas ! i) \<in> set signers"
    "check_privileges rt caller metas signers callee_map is ias c = (Ok ias', c')"
    by (auto simp: bindM_def liftR_def log_and_fail_def seqM_def modifyM_def fail_with_def throw_def get_at_def
        split: result.splits if_splits option.splits)
  then show ?thesis by (auto simp: granted_def)
qed

lemma check_privileges_ok:
  assumes "check_privileges rt caller metas signers callee_map is ias c = (Ok ias', c')"
    "firsts_ok callee_map ias" "\<forall>i \<in> set is. i < length ias"
  shows "c' = c \<and> same_firsts callee_map ias ias' \<and> (\<forall>i \<in> set is. checked caller metas signers callee_map ias ias' i)"
  using assms
proof (induction "is" arbitrary: ias)
  case Nil
  then show ?case by (simp add: ret_def same_firsts_refl)
next
  case (Cons i "is")
  let ?r = "first_use callee_map (ias ! i)"
  have i: "i < length ias" using Cons.prems(3) by simp
  then have in_map: "unat (index_in_transaction (ias ! i)) < length callee_map" "?r < length ias"
    using Cons.prems(2) by (simp_all add: firsts_ok_def)
  show ?case
  proof (cases "?r = i")
    case False
    define ia where "ia = set_is_writable (is_writable (ias ! i) \<or> is_writable (ias ! ?r))
      (set_is_signer (is_signer (ias ! i) \<or> is_signer (ias ! ?r)) (ias ! i))"
    let ?ias = "ias[i := ia]"
    have step: "same_firsts callee_map ias ?ias"
      using Cons.prems(2) i in_map False ia_def by (intro same_firsts_step) (auto simp: firsts_ok_def)
    have ok: "firsts_ok callee_map ?ias" using same_firsts_ok [OF Cons.prems(2) step] .
    have "check_privileges rt caller metas signers callee_map is ?ias c = (Ok ias', c')"
      using Cons.prems(1) i in_map False by (simp add: get_at_def first_use_def ia_def Let_def)
    from Cons.IH [OF this ok] Cons.prems(3)
    have IH: "c' = c" "same_firsts callee_map ?ias ias'" "\<forall>j \<in> set is. checked caller metas signers callee_map ?ias ias' j"
      by simp_all
    have "checked caller metas signers callee_map ias ias' j" if "j \<in> set is" for j
    proof -
      have j: "j < length ias" using Cons.prems(3) that by simp
      show ?thesis
        using IH(3) that same_firsts_use [OF step j] same_firsts_at_first [OF Cons.prems(2) step j]
        by (auto simp: checked_def Let_def)
    qed
    moreover have "checked caller metas signers callee_map ias ias' i"
      using IH(2) i False by (auto simp: checked_def Let_def same_firsts_def ia_def)
    ultimately show ?thesis using IH(1) same_firsts_trans [OF Cons.prems(2) step IH(2)] by simp
  next
    case True
    from check_privileges_first [OF Cons.prems(1) i in_map(1) this]
    have first: "i < length metas" "granted caller signers (meta_pubkey (metas ! i)) (ias ! i)"
      "check_privileges rt caller metas signers callee_map is ias c = (Ok ias', c')" by simp_all
    moreover have IH: "c' = c \<and> same_firsts callee_map ias ias' \<and> (\<forall>j \<in> set is. checked caller metas signers callee_map ias ias' j)"
      using Cons.IH [OF first(3) Cons.prems(2)] Cons.prems(3) by simp
    moreover have "ias' ! i = ias ! i" using IH i True by (auto simp: same_firsts_def Let_def)
    ultimately show ?thesis using True first(1,2) by (auto simp: checked_def Let_def)
  qed
qed

lemma position_Some: "position P xs = Some n \<Longrightarrow> n < length xs \<and> P (xs ! n)"
  by (induction xs arbitrary: n) (auto split: if_splits)

lemma find_index_key:
  assumes "find_index_of_account pk tc = Some index" "accounts_len (accounts tc) \<le> MAX_ACCOUNTS_PER_TRANSACTION"
  shows "account_key index (accounts tc) = Some pk"
proof -
  obtain n where n: "position (\<lambda>key. key = pk) (account_keys (accounts tc)) = Some n" "index = word_of_nat n"
    using assms(1) by (auto simp: find_index_of_account_def)
  have "n < accounts_len (accounts tc)" "account_keys (accounts tc) ! n = pk"
    using position_Some [OF n(1)] by (simp_all add: account_keys_def accounts_len_def)
  moreover from this have "unat (word_of_nat n :: u16) = n" using assms(2) by (simp add: unat_of_nat MAX_ACCOUNTS_PER_TRANSACTION_def)
  ultimately show ?thesis using n(2) by (simp add: account_key_def account_keys_def accounts_len_def get_at_def)
qed

lemma contexts_ok_at:
  assumes "contexts_ok tc" "get_instruction_context_at_index_in_trace n tc = Ok ic"
  shows "dedup_ok (ic_dedup_map ic) (ic_accounts ic)"
  using assms by (auto simp: contexts_ok_def get_instruction_context_at_index_in_trace_def get_or_empty_def get_at_def dedup_ok_def
      split: option.splits if_splits)

lemma granted_account:
  assumes "granted caller signers key ia" "dedup_ok (ic_dedup_map caller) (ic_accounts caller)"
  shows "\<exists>ca \<in> set (ic_accounts caller). index_in_transaction ca = index_in_transaction ia
    \<and> (is_writable ia \<longrightarrow> is_writable ca) \<and> (is_signer ia \<longrightarrow> is_signer ca \<or> key \<in> set signers)"
proof -
  obtain k where k: "get_index_of_account_in_instruction (index_in_transaction ia) caller = Ok k"
    "unat k < length (ic_accounts caller)"
    "is_writable ia \<longrightarrow> is_writable (ic_accounts caller ! unat k)"
    "is_signer ia \<longrightarrow> is_signer (ic_accounts caller ! unat k) \<or> key \<in> set signers"
    using assms(1) by (auto simp: granted_def)
  then have "index_in_transaction (ic_accounts caller ! unat k) = index_in_transaction ia"
    using assms(2) by (auto simp: get_index_of_account_in_instruction_def dedup_ok_def ok_or_def word_unat_eq_iff split: option.splits if_splits)
  then show ?thesis using k(2-) nth_mem by blast
qed

lemma merged_firsts: "merged tc metas callee_map ias \<Longrightarrow> firsts_ok callee_map ias"
  by (fastforce simp: merged_def firsts_ok_def merged_at_def Let_def)

lemma privileges_kept_at:
  assumes m: "merged tc metas callee_map ias" and same: "same_firsts callee_map ias ias'"
    and chk: "\<forall>i < length ias. checked caller metas signers callee_map ias ias' i"
    and caller: "dedup_ok (ic_dedup_map caller) (ic_accounts caller)"
    and few: "accounts_len (accounts tc) \<le> MAX_ACCOUNTS_PER_TRANSACTION" and i: "i < length metas"
  shows "privileges_kept caller signers tc (metas ! i) (ias' ! i)"
proof -
  let ?r = "first_use callee_map (ias ! i)"
  have len: "length ias = length metas" and at: "merged_at tc metas callee_map ias i" using m i by (auto simp: merged_def)
  have r: "?r < length ias" "first_use callee_map (ias ! ?r) = ?r" "index_in_transaction (ias ! ?r) = index_in_transaction (ias ! i)"
    using merged_firsts [OF m] first_use_first [of callee_map ias "ias ! i"] i len by (auto simp: firsts_ok_def)
  have same_i: "index_in_transaction (ias' ! i) = index_in_transaction (ias ! i)"
    "is_writable (ias' ! i) \<longrightarrow> is_writable (ias ! ?r)" "is_signer (ias' ! i) \<longrightarrow> is_signer (ias ! ?r)"
    using same at i len by (auto simp: same_firsts_def merged_at_def Let_def)
  have keys: "account_key (index_in_transaction (ias ! j)) (accounts tc) = Some (meta_pubkey (metas ! j))" if "j < length metas" for j
    using m that len find_index_key [OF _ few] by (auto simp: merged_def merged_at_def Let_def)
  have "granted caller signers (meta_pubkey (metas ! ?r)) (ias ! ?r)" using chk r by (auto simp: checked_def Let_def)
  moreover have "meta_pubkey (metas ! ?r) = meta_pubkey (metas ! i)" using keys [OF i] keys [of ?r] r len by simp
  ultimately obtain ca where "ca \<in> set (ic_accounts caller)" "index_in_transaction ca = index_in_transaction (ias ! i)"
    "is_writable (ias ! ?r) \<longrightarrow> is_writable ca" "is_signer (ias ! ?r) \<longrightarrow> is_signer ca \<or> meta_pubkey (metas ! i) \<in> set signers"
    using granted_account [OF _ caller] r(3) by fastforce
  moreover have "checked caller metas signers callee_map ias ias' i" using chk i len by simp
  ultimately show ?thesis
    using keys [OF i] same_i at by (auto simp: privileges_kept_def checked_def merged_at_def Let_def)
qed

lemma find_callee_program_state: "find_callee_program rt caller pk c = (Ok index, c') \<Longrightarrow> c' = c"
  by (auto simp: find_callee_program_def monad_defs log_and_fail_def fail_with_def split: option.splits result.splits)

lemma prepare_next_cpi_runs:
  assumes "prepare_next_cpi_instruction rt ix signers c = (Ok (), c')" "length (account_metas ix) \<le> 0xffff"
  obtains caller callee_map ias ias' program_index caller_index tc' where
    "get_current_instruction_context (transaction_context c) = Ok caller"
    "merged (transaction_context c) (account_metas ix) callee_map ias"
    "same_firsts callee_map ias ias'" "\<forall>i < length ias. checked caller (account_metas ix) signers callee_map ias ias' i"
    "configure_instruction_at_index (get_instruction_trace_length (transaction_context c)) program_index ias' callee_map
      (instruction_bytes ix) (Some (word_of_nat caller_index)) (transaction_context c) = (Ok (), tc')"
    "c' = c\<lparr>transaction_context := tc'\<rparr>"
proof -
  obtain caller where caller: "get_current_instruction_context (transaction_context c) = Ok caller"
    using assms(1) by (cases "get_current_instruction_context (transaction_context c)")
      (auto simp: prepare_next_cpi_instruction_def bindM_def liftR_def)
  obtain callee_map ias c1 where m: "merge_metas rt (account_metas ix) (replicate MAX_ACCOUNTS_PER_TRANSACTION 0xffff) [] c = (Ok (callee_map, ias), c1)"
    using assms(1) caller by (auto simp: prepare_next_cpi_instruction_def bindM_def liftR_def split: prod.splits result.splits)
  have merged: "c1 = c" "merged (transaction_context c) (account_metas ix) callee_map ias"
    using merge_metas_merged [OF m merged_nil] assms(2) by simp_all
  obtain ias' c2 where p: "check_privileges rt caller (account_metas ix) signers callee_map [0..<length ias] ias c = (Ok ias', c2)"
    using assms(1) caller m merged(1) by (auto simp: prepare_next_cpi_instruction_def bindM_def liftR_def split: prod.splits result.splits)
  have chk: "c2 = c" "same_firsts callee_map ias ias'" "\<forall>i < length ias. checked caller (account_metas ix) signers callee_map ias ias' i"
    using check_privileges_ok [OF p merged_firsts [OF merged(2)]] by auto
  obtain program_index c3 where f: "find_callee_program rt caller (program_id ix) c = (Ok program_index, c3)"
    using assms(1) caller m merged(1) p chk(1)
    by (auto simp: prepare_next_cpi_instruction_def bindM_def liftR_def split: prod.splits result.splits)
  have "c3 = c" using find_callee_program_state [OF f] .
  then show thesis
    using assms(1) caller m merged p chk f that
    by (auto simp: prepare_next_cpi_instruction_def bindM_def liftR_def getsM_def on_transaction_def split: prod.splits result.splits)
qed

lemma configure_contexts:
  assumes "configure_instruction_at_index k p ias callee_map bs caller tc = (Ok (), tc')"
  shows "instruction_accounts tc' = instruction_accounts tc @ [ias]" "deduplication_maps tc' = deduplication_maps tc @ [callee_map]"
    "accounts tc' = accounts tc"
  using assms by (auto simp: configure_instruction_at_index_def Let_def split: option.splits prod.splits)

lemma contexts_ok_append:
  assumes "contexts_ok tc" "dedup_ok callee_map ias"
    "instruction_accounts tc' = instruction_accounts tc @ [ias]" "deduplication_maps tc' = deduplication_maps tc @ [callee_map]"
  shows "contexts_ok tc'"
  using assms by (auto simp: contexts_ok_def nth_append less_Suc_eq)

lemma top_level_accounts_spec:
  assumes "top_level_accounts message indices callee_map ias = Some (callee_map', ias')"
    "length ias + length indices \<le> 0xffff" "dedup_ok callee_map ias"
    "\<forall>t < length callee_map. unat (callee_map ! t) < length ias \<or> callee_map ! t = 0xffff"
  shows "ias' = ias @ map (top_level_account message) indices \<and> dedup_ok callee_map' ias'"
  using assms
proof (induction indices arbitrary: callee_map ias)
  case (Cons index indices)
  let ?ia = "top_level_account message index" and ?n = "length ias"
  let ?ias = "ias @ [?ia]"
  define m where "m = (if unat (callee_map ! unat index) > ?n then callee_map[unat index := word_of_nat ?n] else callee_map)"
  have inside: "unat index < length callee_map" using Cons.prems(1) by (auto simp: get_at_def split: if_splits)
  have n: "unat (word_of_nat ?n :: u16) = ?n" using Cons.prems(2) by (simp add: unat_of_nat)
  have less: "?n < 0xffff" using Cons.prems(2) by simp
  have run: "top_level_accounts message indices m ?ias = Some (callee_map', ias')"
    using Cons.prems(1) inside by (simp add: get_at_def m_def Let_def top_level_account_def split: if_splits)
  have len: "length m = length callee_map" by (simp add: m_def)
  have entry: "if t = unat index \<and> callee_map ! t = 0xffff then m ! t = word_of_nat ?n else m ! t = callee_map ! t"
    if "t < length callee_map" for t
    using that less Cons.prems(4) inside by (fastforce simp: m_def nth_update_in)
  have new: "\<forall>t < length m. unat (m ! t) < length ?ias \<or> m ! t = 0xffff"
    using Cons.prems(4) entry len n by (metis One_nat_def Suc_eq_plus1 length_append_singleton less_Suc_eq)
  have "dedup_ok m ?ias"
    unfolding dedup_ok_def
  proof (intro allI impI)
    fix t
    assume t: "t < length m" "unat (m ! t) < length ?ias"
    show "unat (index_in_transaction (?ias ! unat (m ! t))) = t"
    proof (cases "t = unat index \<and> callee_map ! t = 0xffff")
      case True
      then have "m ! t = word_of_nat ?n" using entry [of t] t(1) len by auto
      then show ?thesis using True n by (simp add: top_level_account_def unat_ucast_up)
    next
      case False
      then have eq: "m ! t = callee_map ! t" using entry [of t] t(1) len by auto
      then have "unat (callee_map ! t) < ?n" using Cons.prems(4) t len less by auto
      then show ?thesis using Cons.prems(3) eq t(1) len by (simp add: dedup_ok_def nth_append)
    qed
  qed
  then show ?case using Cons.IH [OF run _ _ new] Cons.prems(2) by auto
qed auto

lemma top_level_accounts_start:
  assumes "top_level_accounts message indices (replicate MAX_ACCOUNTS_PER_TRANSACTION 0xffff) [] = Some (callee_map, ias)"
    "length indices \<le> 0xffff"
  shows "ias = map (top_level_account message) indices" "dedup_ok callee_map ias"
proof -
  have "dedup_ok (replicate MAX_ACCOUNTS_PER_TRANSACTION 0xffff) []" by (simp add: dedup_ok_def)
  from top_level_accounts_spec [OF assms(1) _ this] assms(2)
  show "ias = map (top_level_account message) indices" "dedup_ok callee_map ias" by auto
qed

lemma prepare_from_spec:
  assumes "prepare_from message k ixs c = (Ok (), c')" "\<forall>(p, indices, bs) \<in> set ixs. length indices \<le> 0xffff"
    "contexts_ok (transaction_context c)"
  shows "instruction_accounts (transaction_context c')
      = instruction_accounts (transaction_context c) @ map (\<lambda>(p, indices, bs). map (top_level_account message) indices) ixs
    \<and> contexts_ok (transaction_context c')"
  using assms
proof (induction ixs arbitrary: k c)
  case (Cons ix ixs)
  obtain p indices bs where ix: "ix = (p, indices, bs)" by (cases ix) auto
  obtain callee_map ias where t: "top_level_accounts message indices (replicate MAX_ACCOUNTS_PER_TRANSACTION 0xffff) [] = Some (callee_map, ias)"
    using Cons.prems(1) ix by (auto split: option.splits)
  obtain tc where cfg: "configure_instruction_at_index k (ucast p) ias callee_map bs None (transaction_context c) = (Ok (), tc)"
    and run: "prepare_from message (Suc k) ixs (c\<lparr>transaction_context := tc\<rparr>) = (Ok (), c')"
    using Cons.prems(1) ix t by (auto simp: on_transaction_def split: prod.splits result.splits failure.splits)
  have start: "ias = map (top_level_account message) indices" "dedup_ok callee_map ias"
    using top_level_accounts_start [OF t] Cons.prems(2) ix by auto
  have "contexts_ok tc" using contexts_ok_append [OF Cons.prems(3) start(2) configure_contexts(1,2) [OF cfg]] .
  then show ?case using Cons.IH [OF run] Cons.prems(2) ix start(1) configure_contexts(1) [OF cfg] by simp
qed simp

lemma unat_align_offset:
  assumes "0 < align" "align < 2 ^ 64"
  shows "unat (align_offset pos align) = (align - unat pos mod align) mod align"
proof -
  have "(align - unat pos mod align) mod align < align" using assms(1) by simp
  then have "(align - unat pos mod align) mod align < 2 ^ 64" using assms(2) by (rule less_trans)
  then show ?thesis by (simp add: align_offset_def unat_of_nat)
qed

lemma align_up: "0 < align \<Longrightarrow> (n + (align - n mod align) mod align) mod align = (0 :: nat)"
  by (metis add.commute le_add_diff_inverse2 less_or_eq_imp_le mod_add_left_eq mod_add_right_eq mod_less_divisor mod_self)

lemmas context_eval = wallet_accounts_def wallet_message_def wallet_context_def invoke_context_new_def context_new_def accounts_new_def
  new_shared_fields_def new_private_fields_def on_transaction_def configure_instruction_at_index_def configure_vm_slices_def
  prepare_top_level_instructions_def MAX_ACCOUNTS_PER_TRANSACTION_def

lemma wallet_prepares: "fst (prepare_top_level_instructions wallet_message wallet_context) = Ok ()"
  by (simp add: context_eval get_at_def Let_def)

lemmas context_queries = get_next_instruction_context_def get_instruction_context_at_index_in_trace_def get_or_empty_def get_program_key_def
  get_index_of_program_account_in_transaction_def get_key_of_account_at_index_def account_key_def account_keys_def find_index_of_account_def
  get_instruction_stack_height_def get_current_instruction_context_def get_current_instruction_index_def get_instruction_trace_length_def
  get_index_of_account_in_instruction_def get_at_def ok_or_def


lemmas push_eval = wallet_running_def invoke_push_def wallet_prepared_def context_eval context_queries Let_def
     push_def wallet_runtime_def number_of_called_instructions_in_trace_def store_sysvar_index_def


lemma wallet_tc:
  "account_keys (accounts (transaction_context wallet_running)) = [[1], [2], [8], [9]]"
  "instruction_stack (transaction_context wallet_running) = [0]"
  "length (instruction_trace (transaction_context wallet_running)) = 2"
  "instruction_accounts (transaction_context wallet_running) =
     [[instruction_account_new 0 True True, instruction_account_new 1 False True, instruction_account_new 3 False False]]"
  "deduplication_maps (transaction_context wallet_running) = [(replicate 256 0xffff)[0 := 0, 1 := 1, 3 := 2]]"
  by (simp_all add: push_eval)

lemma wallet_merges:
  "merge_metas rt (account_metas wallet_call) (replicate MAX_ACCOUNTS_PER_TRANSACTION 0xffff) [] wallet_running
    = (Ok ((replicate 256 0xffff)[0 := 0, 1 := 1],
        [instruction_account_new 0 True True, instruction_account_new 1 True True, instruction_account_new 0 True True]), wallet_running)"
  by (simp add: wallet_call_def monad_defs find_index_of_account_def wallet_tc get_at_def MAX_ACCOUNTS_PER_TRANSACTION_def Let_def
      instruction_account_new_def set_is_signer_def set_is_writable_def is_signer_def is_writable_def bool_as_u8_def)

lemma wallet_caller:
  "\<exists>caller. get_current_instruction_context (transaction_context wallet_running) = Ok caller
    \<and> ic_accounts caller = [instruction_account_new 0 True True, instruction_account_new 1 False True, instruction_account_new 3 False False]
    \<and> ic_dedup_map caller = (replicate 256 0xffff)[0 := 0, 1 := 1, 3 := 2]"
  by (simp add: get_current_instruction_context_def get_current_instruction_index_def wallet_tc
      get_instruction_context_at_index_in_trace_def get_at_def get_or_empty_def)

lemma wallet_calls:
  "\<exists>c. prepare_next_cpi_instruction wallet_runtime wallet_call [[2]] wallet_running = (Ok (), c)
    \<and> last (instruction_accounts (transaction_context c))
      = [instruction_account_new 0 True True, instruction_account_new 1 True True, instruction_account_new 0 True True]"
proof -
  obtain caller where caller: "get_current_instruction_context (transaction_context wallet_running) = Ok caller"
    "ic_accounts caller = [instruction_account_new 0 True True, instruction_account_new 1 False True, instruction_account_new 3 False False]"
    "ic_dedup_map caller = (replicate 256 0xffff)[0 := 0, 1 := 1, 3 := 2]"
    using wallet_caller by blast
  let ?ias = "[instruction_account_new 0 True True, instruction_account_new 1 True True, instruction_account_new 0 True True]"
  have upt: "[0..<length ?ias] = [0, 1, 2]" by (simp add: upt_rec)
  have chk: "check_privileges wallet_runtime caller (account_metas wallet_call) [[2]] ((replicate 256 0xffff)[0 := 0, 1 := 1]) [0, 1, 2] ?ias wallet_running
    = (Ok ?ias, wallet_running)"
    by (simp add: wallet_call_def caller(2,3) monad_defs get_at_def get_index_of_account_in_instruction_def Let_def numeral_2_eq_2)
      (simp add: instruction_account_new_def set_is_signer_def set_is_writable_def bool_as_u8_def)
  have prog: "find_callee_program wallet_runtime caller (program_id wallet_call) wallet_running = (Ok 3, wallet_running)"
    by (simp add: find_callee_program_def wallet_call_def caller(2,3) monad_defs get_at_def find_index_of_account_def wallet_tc
        get_index_of_account_in_instruction_def)
  show ?thesis
    using caller(1) wallet_merges [of wallet_runtime] chk upt prog wallet_tc
    by (simp add: prepare_next_cpi_instruction_def bindM_def liftR_def getsM_def on_transaction_def configure_instruction_at_index_def
        get_current_instruction_index_def get_instruction_trace_length_def get_at_def Let_def numeral_2_eq_2
        del: check_privileges.simps merge_metas.simps)
qed

lemma wallet_contexts: "contexts_ok (transaction_context wallet_running)"
proof -
  have "top_level_accounts wallet_message [0, 1, 3] (replicate MAX_ACCOUNTS_PER_TRANSACTION 0xffff) []
    = Some ((replicate 256 0xffff)[0 := 0, 1 := 1, 3 := 2],
        [instruction_account_new 0 True True, instruction_account_new 1 False True, instruction_account_new 3 False False])"
    by (simp add: wallet_message_def get_at_def Let_def MAX_ACCOUNTS_PER_TRANSACTION_def)
  from top_level_accounts_start(2) [OF this] show ?thesis by (simp add: contexts_ok_def wallet_tc)
qed

section \<open>Properties\<close>

text \<open>C10. A cross-program invocation cannot escalate privileges. When \<^verbatim>\<open>prepare_next_cpi_instruction\<close> accepts an instruction, the
  instruction accounts it configures are those the instruction names, with at least the privileges it asks for, and each of
  them is an account of the calling instruction that is writable there if it is writable in the callee, and that signed there,
  or is the address of one of the program's signers, if it signs in the callee. The invariant that lets an account be found
  by its index in the transaction is kept, so the same holds for the invocations of the callee.\<close>

theorem no_privilege_escalation:
  assumes "prepare_next_cpi_instruction rt ix signers c = (Ok (), c')" "contexts_ok (transaction_context c)"
    "length (account_metas ix) \<le> 0xffff" "accounts_len (accounts (transaction_context c)) \<le> MAX_ACCOUNTS_PER_TRANSACTION"
  shows "\<exists>caller ias. get_current_instruction_context (transaction_context c) = Ok caller
    \<and> instruction_accounts (transaction_context c') = instruction_accounts (transaction_context c) @ [ias]
    \<and> list_all2 (privileges_kept caller signers (transaction_context c)) (account_metas ix) ias
    \<and> contexts_ok (transaction_context c')"
proof -
  from assms(1,3) obtain caller callee_map ias ias' program_index caller_index tc' where r:
    "get_current_instruction_context (transaction_context c) = Ok caller"
    "merged (transaction_context c) (account_metas ix) callee_map ias"
    "same_firsts callee_map ias ias'" "\<forall>i < length ias. checked caller (account_metas ix) signers callee_map ias ias' i"
    "configure_instruction_at_index (get_instruction_trace_length (transaction_context c)) program_index ias' callee_map
      (instruction_bytes ix) (Some (word_of_nat caller_index)) (transaction_context c) = (Ok (), tc')"
    "c' = c\<lparr>transaction_context := tc'\<rparr>"
    by (rule prepare_next_cpi_runs)
  have "dedup_ok (ic_dedup_map caller) (ic_accounts caller)"
    using contexts_ok_at [OF assms(2)] r(1) by (auto simp: get_current_instruction_context_def bindR_eq_Ok_iff)
  then have "list_all2 (privileges_kept caller signers (transaction_context c)) (account_metas ix) ias'"
    using privileges_kept_at [OF r(2-4) _ assms(4)] r(2,3) by (auto simp: list_all2_conv_all_nth merged_def same_firsts_def)
  moreover have "dedup_ok callee_map ias'" using same_firsts_ok [OF merged_firsts [OF r(2)] r(3)] by (simp add: firsts_ok_def)
  ultimately show ?thesis
    using r(1,6) configure_contexts [OF r(5)] contexts_ok_append [OF assms(2)] by auto
qed

theorem no_privilege_escalation_witness:
  "\<exists>c. prepare_next_cpi_instruction wallet_runtime wallet_call [[2]] wallet_running = (Ok (), c)
    \<and> map is_writable (last (instruction_accounts (transaction_context c))) = [True, True, True]
    \<and> contexts_ok (transaction_context c)"
proof -
  obtain c where run: "prepare_next_cpi_instruction wallet_runtime wallet_call [[2]] wallet_running = (Ok (), c)"
    and ias: "map is_writable (last (instruction_accounts (transaction_context c))) = [True, True, True]"
    using wallet_calls by fastforce
  have "length (account_metas wallet_call) \<le> 0xffff" by (simp add: wallet_call_def)
  moreover have "accounts_len (accounts (transaction_context wallet_running)) \<le> MAX_ACCOUNTS_PER_TRANSACTION"
    using arg_cong [OF wallet_tc(1), of length] by (simp add: account_keys_def accounts_len_def MAX_ACCOUNTS_PER_TRANSACTION_def)
  ultimately have "contexts_ok (transaction_context c)"
    using no_privilege_escalation [OF run wallet_contexts] by blast
  then show ?thesis using run ias by (intro exI [of _ c] conjI)
qed

text \<open>C39. Top-level instructions get exactly the privileges of the message: the accounts configured by
  \<^verbatim>\<open>prepare_top_level_instructions\<close> are, instruction by instruction and in order, the accounts the message lists with the signer
  and writable flags of the message, and the invariant of the deduplication maps holds for them.\<close>

theorem top_level_privileges:
  assumes "prepare_top_level_instructions message c = (Ok (), c')" "contexts_ok (transaction_context c)"
    "list_all (\<lambda>(p, indices, bs). length indices \<le> 0xffff) (message_instructions message)"
  shows "instruction_accounts (transaction_context c') = instruction_accounts (transaction_context c)
      @ map (\<lambda>(p, indices, bs). map (top_level_account message) indices) (message_instructions message)
    \<and> contexts_ok (transaction_context c')"
  using prepare_from_spec [of message 0 "message_instructions message" c c'] assms
  by (auto simp: prepare_top_level_instructions_def list_all_iff)

theorem top_level_privileges_witness:
  "map (map is_signer) (instruction_accounts (transaction_context wallet_prepared)) = [[True, False, False]]"
proof -
  have "contexts_ok (transaction_context wallet_context)" by (simp add: contexts_ok_def context_eval)
  moreover have "prepare_top_level_instructions wallet_message wallet_context = (Ok (), wallet_prepared)"
    using wallet_prepares by (simp add: wallet_prepared_def prod_eq_iff)
  ultimately show ?thesis
    using top_level_privileges [of wallet_message wallet_context wallet_prepared]
    by (simp add: wallet_message_def top_level_account_def) (simp add: context_eval)
qed

text \<open>C40. The heap allocator hands out aligned addresses inside the heap and never the same bytes twice: an allocation
  starts at or after the end of the previous one, is a multiple of its alignment, and ends where the next one may start,
  which is within the length of the heap.\<close>

theorem alloc_within_heap:
  assumes "alloc len align a = (Some addr, a')" "0 < align" "align dvd 2 ^ 32" "len < 2 ^ 64" "unat (alloc_len a) < 2 ^ 32"
  shows "unat MM_HEAP_START + unat (alloc_pos a) \<le> unat addr \<and> unat addr mod align = 0
    \<and> unat addr + len = unat MM_HEAP_START + unat (alloc_pos a')
    \<and> alloc_pos a' \<le> alloc_len a' \<and> alloc_len a' = alloc_len a"
proof -
  define off where "off = (align - unat (alloc_pos a) mod align) mod align"
  define pos where "pos = saturating_add (alloc_pos a) (align_offset (alloc_pos a) align)"
  have al: "align \<le> 2 ^ 32" using assms(3) dvd_imp_le by fastforce
  have off: "unat (align_offset (alloc_pos a) align) = off" using unat_align_offset assms(2) al by (simp add: off_def)
  have len: "unat (word_of_nat len :: u64) = len" using assms(4) by (simp add: unat_of_nat)
  have run: "saturating_add pos (word_of_nat len) \<le> alloc_len a" "addr = saturating_add MM_HEAP_START pos"
    "a' = a\<lparr>alloc_pos := saturating_add pos (word_of_nat len)\<rparr>"
    using assms(1) by (auto simp: alloc_def Let_def pos_def split: if_splits)
  from run(1) have fits: "unat (alloc_pos a) + off + len \<le> unat (alloc_len a)"
    using assms(5) by (simp add: word_le_nat_alt pos_def unat_saturating_add off len)
  then have pos: "unat pos = unat (alloc_pos a) + off" "unat (saturating_add pos (word_of_nat len)) = unat pos + len"
    using assms(5) by (simp_all add: pos_def unat_saturating_add off len)
  have heap: "unat MM_HEAP_START = 3 * 2 ^ 32" by (simp add: MM_HEAP_START_def MM_REGION_SIZE_def VIRTUAL_ADDRESS_BITS_def)
  have addr: "unat addr = 3 * 2 ^ 32 + unat pos" using run(2) pos fits assms(5) heap by (simp add: unat_saturating_add)
  moreover have "unat addr mod align = 0"
    using align_up [OF assms(2), of "unat (alloc_pos a)"] assms(3) addr pos(1)
    by (metis dvd_add dvd_mult mod_0_imp_dvd mod_eq_0_iff_dvd off_def)
  ultimately show ?thesis using pos fits run(3) heap by (simp add: word_le_nat_alt)
qed

theorem alloc_within_heap_witness:
  "fst (alloc 16 8 \<lparr>alloc_len = 64, alloc_pos = 3\<rparr>) = Some 0x300000008 \<and> unat (0x300000008 :: u64) mod 8 = 0"
proof -
  have "alloc 16 8 \<lparr>alloc_len = 64, alloc_pos = 3\<rparr> = (Some 0x300000008, \<lparr>alloc_len = 64, alloc_pos = 24\<rparr>)"
    by (simp add: alloc_def align_offset_def saturating_add_def MM_HEAP_START_def MM_REGION_SIZE_def VIRTUAL_ADDRESS_BITS_def)
  moreover from alloc_within_heap [OF this] have "unat (0x300000008 :: u64) mod 8 = 0" by simp
  ultimately show ?thesis by simp
qed

end
