(* ===== verification/Tx_Effects.thy ===== *)
theory Tx_Effects
  imports Tx_Borrowed
begin

text \<open>
  What the operations on a borrowed instruction account do to the transaction context. Every mutator of
  \<^verbatim>\<open>BorrowedInstructionAccount\<close> either leaves the context alone, marks the account as touched, or makes one of
  four writes to that one account under the guards of the source (\<open>op_effect\<close>). Borrowing, configuring,
  pushing and popping instructions are quiet: they keep all balances, payload lengths and deltas.
\<close>

section \<open>Well-formed contexts and effects\<close>

definition accounts_wf :: "transaction_accounts \<Rightarrow> bool" where
  "accounts_wf ta \<longleftrightarrow>
     length (private_account_fields ta) = accounts_len ta \<and> length (borrow_counters ta) = accounts_len ta
     \<and> length (touched_flags ta) = accounts_len ta
     \<and> (\<forall>n < accounts_len ta.
          slice_len (acc_slice (shared_account_fields ta ! n)) = word_of_nat (payload_len ta n))"

definition borrowed_ok :: "borrowed_account \<Rightarrow> transaction_context \<Rightarrow> bool" where
  "borrowed_ok b tc \<longleftrightarrow> ba_guard b = unat (index_in_transaction (ba_account b))
     \<and> ba_guard b < accounts_len (accounts tc)"

definition account_write ::
  "borrowed_account \<Rightarrow> account_shared_fields \<Rightarrow> account_private_fields \<Rightarrow> int \<Rightarrow> int \<Rightarrow> transaction_context \<Rightarrow> transaction_context" where
  "account_write b a p lam res tc =
    (let ta = accounts tc; n = ba_guard b in
     tc\<lparr>accounts := ta\<lparr>shared_account_fields := (shared_account_fields ta)[n := a],
        private_account_fields := (private_account_fields ta)[n := p],
        touched_flags := (touched_flags ta)[n := True], lamports_delta := lam, resize_delta := res\<rparr>\<rparr>)"

inductive account_op :: "borrowed_account \<Rightarrow> transaction_context \<Rightarrow> transaction_context \<Rightarrow> bool" for b where
  "set_owner b pk tc = (r, tc') \<Longrightarrow> account_op b tc tc'"
| "set_lamports b x tc = (r, tc') \<Longrightarrow> account_op b tc tc'"
| "checked_add_lamports b x tc = (r, tc') \<Longrightarrow> account_op b tc tc'"
| "checked_sub_lamports b x tc = (r, tc') \<Longrightarrow> account_op b tc tc'"
| "get_data_mut b f tc = (r, tc') \<Longrightarrow> (\<And>d. length (f d) = length d) \<Longrightarrow> account_op b tc tc'"
| "set_data_from_slice b bs tc = (r, tc') \<Longrightarrow> account_op b tc tc'"
| "set_data_length b n tc = (r, tc') \<Longrightarrow> account_op b tc tc'"
| "extend_from_slice b bs tc = (r, tc') \<Longrightarrow> account_op b tc tc'"
| "set_state (\<lambda>_ :: unit. bytes_of_state) b () tc = (r, tc') \<Longrightarrow> account_op b tc tc'"
| "set_executable b e tc = (r, tc') \<Longrightarrow> account_op b tc tc'"

text \<open>What an operation can do to a context.\<close>

inductive op_effect :: "borrowed_account \<Rightarrow> transaction_context \<Rightarrow> transaction_context \<Rightarrow> bool" for b tc where
  unchanged: "op_effect b tc tc"
| touched: "op_effect b tc (account_write b (shared_of b tc) (private_of b tc)
     (lamports_delta (accounts tc)) (resize_delta (accounts tc)) tc)"
| owner_set: "is_owned_by_current_program b tc \<Longrightarrow> is_writable (ba_account b) \<Longrightarrow> is_zeroed (get_data b tc) \<Longrightarrow>
   op_effect b tc (account_write b ((shared_of b tc)\<lparr>acc_owner := pk\<rparr>) (private_of b tc)
     (lamports_delta (accounts tc)) (resize_delta (accounts tc)) tc)"
| lamports_set: "is_owned_by_current_program b tc \<or> get_lamports b tc \<le> x \<Longrightarrow> is_writable (ba_account b) \<Longrightarrow>
   op_effect b tc (account_write b ((shared_of b tc)\<lparr>acc_lamports := x\<rparr>) (private_of b tc)
     (lamports_delta (accounts tc) + (uint x - uint (get_lamports b tc))) (resize_delta (accounts tc)) tc)"
| data_set: "is_owned_by_current_program b tc \<Longrightarrow> is_writable (ba_account b) \<Longrightarrow>
   length d = length (get_data b tc)
     \<and> res = resize_delta (accounts tc)
   \<or> can_data_be_resized (length (get_data b tc)) (length d) (accounts tc) = Ok ()
     \<and> res = saturate_i64 (resize_delta (accounts tc)
               + saturate_i64 (usize_as_i64 (length d) - usize_as_i64 (length (get_data b tc)))) \<Longrightarrow>
   op_effect b tc (account_write b
     ((shared_of b tc)\<lparr>acc_slice := (acc_slice (shared_of b tc))\<lparr>slice_len := word_of_nat (length d)\<rparr>\<rparr>)
     ((private_of b tc)\<lparr>acc_payload := d, acc_payload_shared := False\<rparr>)
     (lamports_delta (accounts tc)) res tc)"
| executable_set: "is_owned_by_current_program b tc \<Longrightarrow> is_writable (ba_account b) \<Longrightarrow>
   op_effect b tc (account_write b (shared_of b tc) ((private_of b tc)\<lparr>acc_executable := e\<rparr>)
     (lamports_delta (accounts tc)) (resize_delta (accounts tc)) tc)"

definition lamports_total :: "transaction_accounts \<Rightarrow> int" where
  "lamports_total ta = (\<Sum>a\<leftarrow>shared_account_fields ta. uint (acc_lamports a))"

definition data_total :: "transaction_accounts \<Rightarrow> int" where
  "data_total ta = (\<Sum>p\<leftarrow>private_account_fields ta. int (length (acc_payload p)))"

definition data_bounded :: "transaction_accounts \<Rightarrow> bool" where
  "data_bounded ta \<longleftrightarrow> accounts_len ta \<le> 2 ^ 16
     \<and> (\<forall>k \<in> set (map (length \<circ> acc_payload) (private_account_fields ta)). k \<le> MAX_ACCOUNT_DATA_LEN)"

definition resize_inv :: "int \<Rightarrow> transaction_accounts \<Rightarrow> bool" where
  "resize_inv s ta \<longleftrightarrow> data_bounded ta \<and> 0 \<le> s \<and> s \<le> 2 ^ 16 * int MAX_ACCOUNT_DATA_LEN
     \<and> resize_delta ta = data_total ta - s \<and> resize_delta ta \<le> MAX_ACCOUNT_DATA_GROWTH_PER_TRANSACTION"

definition quiet :: "transaction_accounts \<Rightarrow> transaction_accounts \<Rightarrow> bool" where
  "quiet ta ta' \<longleftrightarrow> map acc_key (shared_account_fields ta') = map acc_key (shared_account_fields ta)
     \<and> map acc_lamports (shared_account_fields ta') = map acc_lamports (shared_account_fields ta)
     \<and> map (length \<circ> acc_payload) (private_account_fields ta') = map (length \<circ> acc_payload) (private_account_fields ta)
     \<and> lamports_delta ta' = lamports_delta ta \<and> resize_delta ta' = resize_delta ta
     \<and> (accounts_wf ta \<longrightarrow> accounts_wf ta')"

definition sysvar_keeps_length :: "sysvar_interface \<Rightarrow> bool" where
  "sysvar_keeps_length sysvar \<longleftrightarrow>
    (\<forall>i d d'. store_current_index_checked sysvar i d = Ok d' \<longrightarrow> length d' = length d)"

section \<open>Lemmas\<close>

lemma touch_borrowed_ok:
  assumes "accounts_wf (accounts tc)" "borrowed_ok b tc"
  shows "touch_borrowed b tc = (Ok (), account_write b (shared_of b tc) (private_of b tc)
     (lamports_delta (accounts tc)) (resize_delta (accounts tc)) tc)"
  using assms by (simp add: touch_borrowed_def on_accounts_def touch_def accounts_wf_def borrowed_ok_def
      account_write_def shared_of_def private_of_def Let_def)

lemma account_write_get [simp]:
  assumes "accounts_wf (accounts tc)" "borrowed_ok b tc"
  shows "shared_of b (account_write b a p lam res tc) = a" "private_of b (account_write b a p lam res tc) = p"
    "lamports_delta (accounts (account_write b a p lam res tc)) = lam"
    "resize_delta (accounts (account_write b a p lam res tc)) = res"
  using assms by (simp_all add: account_write_def shared_of_def private_of_def borrowed_ok_def accounts_wf_def accounts_len_def Let_def)

lemma account_write_twice [simp]:
  "account_write b a' p' lam' res' (account_write b a p lam res tc) = account_write b a' p' lam' res' tc"
  by (simp add: account_write_def Let_def)

lemmas view_defs = view_set_lamports_def view_set_executable_def view_write_data_def view_reserve_def view_resize_def
  view_set_data_from_slice_def view_extend_from_slice_def set_slice_len_def update_shared_def update_private_def
  view_set_owner_def view_copy_into_owner_from_slice_def payload_len_def view_is_shared_def

lemmas write_defs = account_write_def modify_accounts_def on_accounts_def accounts_wf_def borrowed_ok_def accounts_len_def Let_def

lemma unshared_update: "\<not> acc_payload_shared p \<Longrightarrow> p\<lparr>acc_payload_shared := False\<rparr> = p"
  by (cases p) simp

lemma write_views:
  assumes "accounts_wf (accounts tc)" "borrowed_ok b tc"
  shows
    "modify_accounts (view_set_lamports (ba_guard b) x) (account_write b a p lam res tc)
       = account_write b (a\<lparr>acc_lamports := x\<rparr>) p lam res tc"
    "modify_accounts (view_set_executable (ba_guard b) e) (account_write b a p lam res tc)
       = account_write b a (p\<lparr>acc_executable := e\<rparr>) lam res tc"
    "modify_accounts (view_write_data (ba_guard b) f) (account_write b a p lam res tc)
       = account_write b a (p\<lparr>acc_payload := f (acc_payload p), acc_payload_shared := False\<rparr>) lam res tc"
    "modify_accounts (view_resize (ba_guard b) n v) (account_write b a p lam res tc)
       = account_write b (a\<lparr>acc_slice := (acc_slice a)\<lparr>slice_len := word_of_nat n\<rparr>\<rparr>)
           (p\<lparr>acc_payload := vec_resize (acc_payload p) n v, acc_payload_shared := False\<rparr>) lam res tc"
    "modify_accounts (view_set_data_from_slice (ba_guard b) bs) (account_write b a p lam res tc)
       = account_write b (a\<lparr>acc_slice := (acc_slice a)\<lparr>slice_len := word_of_nat (length bs)\<rparr>\<rparr>)
           (p\<lparr>acc_payload := bs, acc_payload_shared := False\<rparr>) lam res tc"
    "modify_accounts (view_extend_from_slice (ba_guard b) bs) (account_write b a p lam res tc)
       = account_write b (a\<lparr>acc_slice := (acc_slice a)\<lparr>slice_len := word_of_nat (length (acc_payload p) + length bs)\<rparr>\<rparr>)
           (p\<lparr>acc_payload := acc_payload p @ bs, acc_payload_shared := False\<rparr>) lam res tc"
    "make_data_mut b (account_write b a p lam res tc) = account_write b a (p\<lparr>acc_payload_shared := False\<rparr>) lam res tc"
    "change_resize_delta b n (account_write b a p lam res tc)
       = (Ok (), account_write b a p lam (saturate_i64 (res
            + saturate_i64 (usize_as_i64 n - usize_as_i64 (length (acc_payload p))))) tc)"
    "on_accounts (view_copy_into_owner_from_slice (ba_guard b) pk) (account_write b a p lam res tc)
       = (if length pk = length (acc_owner a)
          then (Ok (), account_write b (a\<lparr>acc_owner := pk\<rparr>) p lam res tc)
          else (Err Panic, account_write b a p lam res tc))"
  using assms
  by (simp_all add: view_defs write_defs make_data_mut_def change_resize_delta_def get_data_def private_of_def
      update_accounts_resize_delta_def unshared_update)

lemma delta_touch_commute: "ta\<lparr>lamports_delta := d, touched_flags := f\<rparr> = ta\<lparr>touched_flags := f, lamports_delta := d\<rparr>"
  by simp

lemma add_delta_touch:
  assumes "accounts_wf (accounts tc)" "borrowed_ok b tc"
  shows "seqM (on_accounts (add_lamports_delta k)) (seqM (touch_borrowed b) m) tc =
    (case checked_i128 (lamports_delta (accounts tc) + k) of
       None \<Rightarrow> (Err (Fail ArithmeticOverflow), tc)
     | Some d \<Rightarrow> m (account_write b (shared_of b tc) (private_of b tc) d (resize_delta (accounts tc)) tc))"
  using assms
  by (simp add: seqM_def bindM_def add_lamports_delta_def touch_borrowed_def touch_def write_defs shared_of_def private_of_def
      delta_touch_commute split: option.split)

lemma touch_then:
  assumes "accounts_wf (accounts tc)" "borrowed_ok b tc"
  shows "seqM (touch_borrowed b) m tc = m (account_write b (shared_of b tc) (private_of b tc)
     (lamports_delta (accounts tc)) (resize_delta (accounts tc)) tc)"
  using touch_borrowed_ok [OF assms] by (simp add: seqM_def bindM_def)

lemma can_data_be_changed_iff:
  "can_data_be_changed b tc = Ok () \<longleftrightarrow> is_writable (ba_account b) \<and> is_owned_by_current_program b tc"
  by (simp add: can_data_be_changed_def)

lemma can_borrowed_be_resized_iff:
  "can_borrowed_be_resized b n tc = Ok () \<longleftrightarrow>
     can_data_be_resized (length (get_data b tc)) n (accounts tc) = Ok ()
     \<and> is_writable (ba_account b) \<and> is_owned_by_current_program b tc"
  by (auto simp: can_borrowed_be_resized_def can_data_be_changed_iff Let_def bindR_eq_Ok_iff)

lemma set_lamports_effect:
  assumes wf: "accounts_wf (accounts tc)" "borrowed_ok b tc" and "set_lamports b x tc = (r, tc')"
  shows "op_effect b tc tc'"
proof (cases "(is_owned_by_current_program b tc \<or> get_lamports b tc \<le> x) \<and> is_writable (ba_account b) \<and> get_lamports b tc \<noteq> x")
  case True
  then show ?thesis
    using assms(3) unchanged [of b tc] lamports_set [of b tc x]
    by (auto simp: set_lamports_def add_delta_touch [OF wf] modifyM_def write_views [OF wf] checked_i128_def
        not_less Let_def split: if_splits)
next
  case False
  then show ?thesis using assms(3) unchanged by (auto simp: set_lamports_def Let_def not_less split: if_splits)
qed

lemma set_owner_effect:
  assumes wf: "accounts_wf (accounts tc)" "borrowed_ok b tc" and "set_owner b pk tc = (r, tc')"
  shows "op_effect b tc tc'"
  using assms(3) op_effect.intros(1-3) [of b tc]
  by (auto simp: set_owner_def touch_then [OF wf] write_views [OF wf] split: if_splits)

lemma set_executable_effect:
  assumes wf: "accounts_wf (accounts tc)" "borrowed_ok b tc" and "set_executable b e tc = (r, tc')"
  shows "op_effect b tc tc'"
  using assms(3) unchanged [of b tc] executable_set [of b tc]
  by (auto simp: set_executable_def touch_then [OF wf] modifyM_def write_views [OF wf] split: if_splits)

lemma synced_slice:
  assumes "accounts_wf (accounts tc)" "borrowed_ok b tc" "length d = length (get_data b tc)"
  shows "(shared_of b tc)\<lparr>acc_slice := (acc_slice (shared_of b tc))\<lparr>slice_len := word_of_nat (length d)\<rparr>\<rparr> = shared_of b tc"
proof -
  have "slice_len (acc_slice (shared_of b tc)) = word_of_nat (length (get_data b tc))"
    using assms by (simp add: accounts_wf_def borrowed_ok_def shared_of_def get_data_def private_of_def payload_len_def)
  then show ?thesis by (simp add: assms(3))
qed

lemma same_length_effect:
  assumes wf: "accounts_wf (accounts tc)" "borrowed_ok b tc" and len: "length d = length (get_data b tc)"
    and ok: "can_data_be_changed b tc = Ok ()"
  shows "op_effect b tc (account_write b (shared_of b tc) ((private_of b tc)\<lparr>acc_payload := d, acc_payload_shared := False\<rparr>)
     (lamports_delta (accounts tc)) (resize_delta (accounts tc)) tc)"
  using data_set [of b tc d "resize_delta (accounts tc)"] synced_slice [OF wf len] ok len
  by (simp add: can_data_be_changed_iff)

lemma get_data_mut_eq:
  assumes wf: "accounts_wf (accounts tc)" "borrowed_ok b tc"
  shows "get_data_mut b f tc = (case can_data_be_changed b tc of
      Ok _ \<Rightarrow> (Ok (), account_write b (shared_of b tc)
        ((private_of b tc)\<lparr>acc_payload := f (get_data b tc), acc_payload_shared := False\<rparr>)
        (lamports_delta (accounts tc)) (resize_delta (accounts tc)) tc)
    | Err e \<Rightarrow> (Err e, tc))"
  by (simp add: get_data_mut_def seqM_liftR touch_then [OF wf] modifyM_def write_views [OF wf] get_data_def split: result.split)

lemma get_data_mut_effect:
  assumes wf: "accounts_wf (accounts tc)" "borrowed_ok b tc" and "get_data_mut b f tc = (r, tc')"
    and len: "\<And>d. length (f d) = length d"
  shows "op_effect b tc tc'"
  using assms(3) unchanged [of b tc] same_length_effect [OF wf len]
  by (auto simp: get_data_mut_eq [OF wf] split: result.splits)

lemma set_state_effect:
  assumes wf: "accounts_wf (accounts tc)" "borrowed_ok b tc" and op: "set_state encode b st tc = (r, tc')"
  shows "op_effect b tc tc'"
proof (cases "can_data_be_changed b tc")
  case (Ok u)
  have "op_effect b tc (account_write b (shared_of b tc) ((private_of b tc)\<lparr>acc_payload := d, acc_payload_shared := False\<rparr>)
     (lamports_delta (accounts tc)) (resize_delta (accounts tc)) tc)" if "length d = length (get_data b tc)" for d
    using same_length_effect [OF wf that] Ok by simp
  note eff = this this [of "get_data b tc"]
  show ?thesis
    using op Ok eff
    by (auto simp: set_state_def seqM_def bindM_def get_data_mut_eq [OF wf] write_views [OF wf] account_write_get [OF wf] get_data_def
        split: option.splits if_splits)
next
  case (Err e)
  then show ?thesis using op unchanged by (simp add: set_state_def seqM_def bindM_def get_data_mut_eq [OF wf])
qed

lemma resize_effect:
  assumes wf: "accounts_wf (accounts tc)" "borrowed_ok b tc"
    and ok: "can_borrowed_be_resized b (length d) tc = Ok ()"
  shows "op_effect b tc (account_write b
     ((shared_of b tc)\<lparr>acc_slice := (acc_slice (shared_of b tc))\<lparr>slice_len := word_of_nat (length d)\<rparr>\<rparr>)
     ((private_of b tc)\<lparr>acc_payload := d, acc_payload_shared := False\<rparr>)
     (lamports_delta (accounts tc))
     (saturate_i64 (resize_delta (accounts tc)
               + saturate_i64 (usize_as_i64 (length d) - usize_as_i64 (length (get_data b tc))))) tc)"
  using ok by (intro data_set) (auto simp: can_borrowed_be_resized_iff)

lemma touch_and_resize:
  assumes wf: "accounts_wf (accounts tc)" "borrowed_ok b tc"
  shows "seqM (touch_borrowed b) (seqM (change_resize_delta b n) m) tc
    = m (account_write b (shared_of b tc) (private_of b tc) (lamports_delta (accounts tc))
        (saturate_i64 (resize_delta (accounts tc)
           + saturate_i64 (usize_as_i64 n - usize_as_i64 (length (get_data b tc))))) tc)"
  by (simp add: touch_then [OF wf]) (simp add: seqM_def bindM_def write_views [OF wf] get_data_def)

lemma set_data_from_slice_effect:
  assumes wf: "accounts_wf (accounts tc)" "borrowed_ok b tc" and op: "set_data_from_slice b bs tc = (r, tc')"
  shows "op_effect b tc tc'"
proof (cases "can_borrowed_be_resized b (length bs) tc")
  case (Ok u)
  then show ?thesis using op resize_effect [OF wf, of bs]
    by (simp add: set_data_from_slice_def seqM_liftR touch_and_resize [OF wf] modifyM_def write_views [OF wf])
next
  case (Err e)
  then show ?thesis using op unchanged by (simp add: set_data_from_slice_def seqM_liftR)
qed

lemma set_data_length_effect:
  assumes wf: "accounts_wf (accounts tc)" "borrowed_ok b tc" and op: "set_data_length b n tc = (r, tc')"
  shows "op_effect b tc tc'"
proof (cases "can_borrowed_be_resized b n tc")
  case (Ok u)
  then show ?thesis
    using op unchanged resize_effect [OF wf, of "vec_resize (get_data b tc) n 0"]
    by (cases "length (get_data b tc) = n")
      (auto simp: set_data_length_def seqM_liftR touch_and_resize [OF wf] modifyM_def write_views [OF wf] get_data_def)
next
  case (Err e)
  then show ?thesis using op unchanged by (simp add: set_data_length_def seqM_liftR)
qed

lemma extend_from_slice_effect:
  assumes wf: "accounts_wf (accounts tc)" "borrowed_ok b tc" and op: "extend_from_slice b bs tc = (r, tc')"
  shows "op_effect b tc tc'"
proof (cases "can_borrowed_be_resized b (length (get_data b tc) + length bs) tc")
  case (Ok u)
  then show ?thesis
    using op unchanged resize_effect [OF wf, of "get_data b tc @ bs"]
    by (cases "bs = []")
      (auto simp: extend_from_slice_def seqM_liftR touch_and_resize [OF wf] modifyM_def write_views [OF wf] get_data_def
        Let_def ret_def)
next
  case (Err e)
  then show ?thesis using op unchanged by (simp add: extend_from_slice_def seqM_liftR Let_def)
qed

lemma account_op_effect:
  assumes wf: "accounts_wf (accounts tc)" "borrowed_ok b tc" and "account_op b tc tc'"
  shows "op_effect b tc tc'"
  using assms(3)
proof cases
  case (3 x r)
  then show ?thesis
    using unchanged set_lamports_effect [OF wf] by (auto simp: checked_add_lamports_def split: option.splits)
next
  case (4 x r)
  then show ?thesis
    using unchanged set_lamports_effect [OF wf] by (auto simp: checked_sub_lamports_def split: option.splits)
next
  case (5 f r)
  then show ?thesis by (rule get_data_mut_effect [OF wf])
qed (erule set_owner_effect [OF wf] set_lamports_effect [OF wf] set_data_from_slice_effect [OF wf]
      set_data_length_effect [OF wf] extend_from_slice_effect [OF wf] set_state_effect [OF wf] set_executable_effect [OF wf])+

lemma is_zeroed_iff: "is_zeroed buf \<longleftrightarrow> (\<forall>x \<in> set buf. x = 0)"
proof (induction buf rule: is_zeroed.induct)
  case (1 buf)
  have "set buf = set (take 1024 buf) \<union> set (drop 1024 buf)" by (metis append_take_drop_id set_append)
  then show ?case
    using 1 unfolding is_zeroed.simps [of buf] eq_replicate_iff by (cases "length buf < 1024") auto
qed

lemma write_accounts:
  assumes "accounts_wf (accounts tc)" "borrowed_ok b tc"
  shows "shared_account_fields (accounts (account_write b a p lam res tc)) = (shared_account_fields (accounts tc))[ba_guard b := a]"
    "private_account_fields (accounts (account_write b a p lam res tc)) = (private_account_fields (accounts tc))[ba_guard b := p]"
    "accounts_len (accounts (account_write b a p lam res tc)) = accounts_len (accounts tc)"
    "borrow_counters (accounts (account_write b a p lam res tc)) = borrow_counters (accounts tc)"
  by (simp_all add: account_write_def accounts_len_def Let_def)

lemma write_wf:
  assumes "accounts_wf (accounts tc)" "borrowed_ok b tc"
    and "slice_len (acc_slice a) = word_of_nat (length (acc_payload p))"
  shows "accounts_wf (accounts (account_write b a p lam res tc))"
  using assms by (auto simp: write_defs payload_len_def nth_list_update)

lemma op_effect_wf:
  assumes wf: "accounts_wf (accounts tc)" "borrowed_ok b tc" and "op_effect b tc tc'"
  shows "accounts_wf (accounts tc')"
proof -
  have "slice_len (acc_slice (shared_of b tc)) = word_of_nat (length (acc_payload (private_of b tc)))"
    using wf by (simp add: accounts_wf_def borrowed_ok_def shared_of_def private_of_def payload_len_def)
  with assms(3) wf show ?thesis by cases (auto intro!: write_wf)
qed

lemma op_effect_lamports:
  assumes wf: "accounts_wf (accounts tc)" "borrowed_ok b tc" and "op_effect b tc tc'"
  shows "lamports_delta (accounts tc') - lamports_total (accounts tc')
    = lamports_delta (accounts tc) - lamports_total (accounts tc)"
proof -
  have sum: "lamports_total (accounts (account_write b a p lam res tc))
      = lamports_total (accounts tc) + uint (acc_lamports a) - uint (get_lamports b tc)" for a p lam res
    using wf by (simp add: lamports_total_def write_accounts [OF wf] sum_list_update_int borrowed_ok_def accounts_len_def
        get_lamports_def shared_of_def)
  from assms(3) wf show ?thesis by cases (simp_all add: sum get_lamports_def)
qed

lemmas limit_defs = MAX_ACCOUNT_DATA_LEN_def MAX_ACCOUNT_DATA_GROWTH_PER_TRANSACTION_def

lemma data_total_bounds:
  assumes "data_bounded ta" "accounts_wf ta"
  shows "0 \<le> data_total ta" "data_total ta \<le> 2 ^ 16 * int MAX_ACCOUNT_DATA_LEN"
proof -
  have b: "\<forall>p \<in> set (private_account_fields ta). length (acc_payload p) \<le> MAX_ACCOUNT_DATA_LEN"
    using assms(1) by (simp add: data_bounded_def)
  have "int (length (private_account_fields ta)) * int MAX_ACCOUNT_DATA_LEN \<le> 2 ^ 16 * int MAX_ACCOUNT_DATA_LEN"
    using assms by (simp add: data_bounded_def accounts_wf_def mult_right_mono)
  then show "0 \<le> data_total ta" "data_total ta \<le> 2 ^ 16 * int MAX_ACCOUNT_DATA_LEN"
    using sum_list_bounds [OF b] by (simp_all add: data_total_def)
qed

lemma can_data_be_resized_iff:
  assumes "old \<le> MAX_ACCOUNT_DATA_LEN" "\<bar>resize_delta ta\<bar> \<le> 2 ^ 16 * int MAX_ACCOUNT_DATA_LEN"
  shows "can_data_be_resized old new ta = Ok () \<longleftrightarrow> new \<le> MAX_ACCOUNT_DATA_LEN
     \<and> resize_delta ta + (int new - int old) \<le> MAX_ACCOUNT_DATA_GROWTH_PER_TRANSACTION"
proof (cases "new \<le> MAX_ACCOUNT_DATA_LEN")
  case True
  then show ?thesis using assms by (simp add: can_data_be_resized_def limit_defs)
qed (simp add: can_data_be_resized_def)

lemma op_effect_resize:
  assumes wf: "accounts_wf (accounts tc)" "borrowed_ok b tc" and eff: "op_effect b tc tc'"
    and inv: "resize_inv s (accounts tc)"
  shows "resize_inv s (accounts tc')"
proof -
  let ?ta = "accounts tc"
  have len: "length (get_data b tc) \<le> MAX_ACCOUNT_DATA_LEN"
    using wf inv by (auto simp: resize_inv_def data_bounded_def get_data_def private_of_def borrowed_ok_def accounts_wf_def)
  have delta: "\<bar>resize_delta ?ta\<bar> \<le> 2 ^ 16 * int MAX_ACCOUNT_DATA_LEN"
    using inv data_total_bounds [of ?ta] wf(1) by (auto simp: resize_inv_def)
  have sum: "data_total (accounts (account_write b a p lam res tc))
      = data_total ?ta + int (length (acc_payload p)) - int (length (get_data b tc))" for a p lam res
    using wf by (simp add: data_total_def write_accounts [OF wf] sum_list_update_int borrowed_ok_def accounts_wf_def
        get_data_def private_of_def)
  have bounded: "data_bounded (accounts (account_write b a p lam res tc))"
    if "length (acc_payload p) \<le> MAX_ACCOUNT_DATA_LEN" for a p lam res
    using inv that set_update_subset_insert [of "private_account_fields ?ta" "ba_guard b" p]
    by (auto simp: resize_inv_def data_bounded_def write_accounts [OF wf])
  have same: "resize_inv s (accounts (account_write b a p lam (resize_delta ?ta) tc))"
    if "length (acc_payload p) = length (get_data b tc)" for a p lam
    using that inv len bounded wf by (simp add: resize_inv_def sum)
  show ?thesis using eff
  proof cases
    case (data_set d res)
    show ?thesis using data_set(4)
    proof
      assume "length d = length (get_data b tc) \<and> res = resize_delta (accounts tc)"
      then show ?thesis using data_set(1) same by simp
    next
      assume a: "can_data_be_resized (length (get_data b tc)) (length d) (accounts tc) = Ok ()
        \<and> res = saturate_i64 (resize_delta (accounts tc)
             + saturate_i64 (usize_as_i64 (length d) - usize_as_i64 (length (get_data b tc))))"
      then have d: "length d \<le> MAX_ACCOUNT_DATA_LEN" 
        "resize_delta ?ta + (int (length d) - int (length (get_data b tc))) \<le> MAX_ACCOUNT_DATA_GROWTH_PER_TRANSACTION"
        using can_data_be_resized_iff [OF len delta] by simp_all
      then have "res = resize_delta ?ta + (int (length d) - int (length (get_data b tc)))"
        using a len delta by (simp add: limit_defs)
      then show ?thesis using data_set(1) d inv wf bounded by (simp add: resize_inv_def sum)
    qed
  qed (use inv same in \<open>simp_all add: get_data_def\<close>)
qed

lemma quiet_refl [simp]: "quiet ta ta"
  by (simp add: quiet_def)

lemma quiet_trans: "quiet ta tb \<Longrightarrow> quiet tb tc \<Longrightarrow> quiet ta tc"
  by (simp add: quiet_def)

lemma quiet_totals:
  assumes "quiet ta ta'"
  shows "lamports_total ta' = lamports_total ta" "data_total ta' = data_total ta"
    "resize_inv s ta \<Longrightarrow> resize_inv s ta'"
proof -
  have "map (uint \<circ> acc_lamports) (shared_account_fields ta') = map (uint \<circ> acc_lamports) (shared_account_fields ta)"
    using assms by (simp add: quiet_def flip: map_map)
  then show "lamports_total ta' = lamports_total ta" by (simp add: lamports_total_def comp_def)
  have "map (int \<circ> (length \<circ> acc_payload)) (private_account_fields ta')
      = map (int \<circ> (length \<circ> acc_payload)) (private_account_fields ta)"
    using assms by (simp only: quiet_def flip: map_map)
  then show d: "data_total ta' = data_total ta" by (simp add: data_total_def comp_def)
  have "accounts_len ta' = accounts_len ta"
    using assms by (metis quiet_def accounts_len_def length_map)
  then show "resize_inv s ta \<Longrightarrow> resize_inv s ta'"
    using assms d unfolding resize_inv_def data_bounded_def quiet_def by simp
qed

lemma borrow_with_cases:
  assumes "borrow_with f i ta = (r, ta')"
  obtains "ta' = ta" | c where "ta' = ta\<lparr>borrow_counters := (borrow_counters ta)[unat i := c]\<rparr>"
  using assms by (auto simp: borrow_with_def Let_def split: option.splits result.splits if_splits)

lemma quiet_counters [simp]: "quiet ta (ta\<lparr>borrow_counters := (borrow_counters ta)[n := c]\<rparr>)"
  by (simp add: quiet_def accounts_wf_def accounts_len_def payload_len_def)

lemma quiet_borrow: "borrow_with f i ta = (r, ta') \<Longrightarrow> quiet ta ta'"
  by (erule borrow_with_cases) auto

lemma quiet_set_slice_len: "quiet ta (set_slice_len n (payload_len ta n) ta)"
  by (auto simp: quiet_def set_slice_len_def update_shared_def map_update_same accounts_wf_def accounts_len_def
      payload_len_def nth_update_in)

lemma quiet_drop_ref_mut: "quiet ta (drop_ref_mut n ta)"
  using quiet_trans [OF quiet_set_slice_len quiet_counters] by (simp add: drop_ref_mut_def Let_def)

lemma quiet_write_data:
  assumes "\<And>d. length (f d) = length d"
  shows "quiet ta (view_write_data n f ta)"
  using assms
  by (auto simp: quiet_def view_write_data_def update_private_def map_update_same accounts_wf_def accounts_len_def
      payload_len_def nth_update_in)

lemma quiet_set_data:
  assumes "length d = payload_len ta n"
  shows "quiet ta (view_write_data n (\<lambda>_. d) ta)"
  using assms
  by (auto simp: quiet_def view_write_data_def update_private_def map_update_same accounts_wf_def accounts_len_def
      payload_len_def nth_update_in)

lemma store_sysvar_index_quiet:
  assumes "sysvar_keeps_length sysvar" "store_sysvar_index sysvar k tc = (r, tc')"
  shows "quiet (accounts tc) (accounts tc') \<and> tc' = tc\<lparr>accounts := accounts tc'\<rparr>"
proof (cases "find_index_of_account (instructions_id sysvar) tc")
  case None
  then show ?thesis using assms(2) by (simp add: store_sysvar_index_def)
next
  case (Some i)
  obtain x ta where bor: "try_borrow_mut i (accounts tc) = (x, ta)" by (rule prod.exhaust)
  have q: "quiet (accounts tc) ta" using quiet_borrow bor by (simp add: try_borrow_mut_def)
  show ?thesis
  proof (cases x)
    case (Ok n)
    let ?d = "acc_payload (private_account_fields ta ! n)"
    have "quiet ta (drop_ref_mut n ta)" by (rule quiet_drop_ref_mut)
    moreover have "quiet ta (drop_ref_mut n (view_write_data n id ta))"
      by (rule quiet_trans [OF quiet_write_data quiet_drop_ref_mut]) simp
    moreover have "quiet ta (drop_ref_mut n (view_write_data n (\<lambda>_. d) ta))"
      if "store_current_index_checked sysvar (word_of_nat k) ?d = Ok d" for d
      using that assms(1) quiet_trans [OF quiet_set_data quiet_drop_ref_mut]
      by (simp add: sysvar_keeps_length_def payload_len_def)
    ultimately show ?thesis
      using assms(2) Some Ok bor quiet_trans [OF q]
      by (auto simp: store_sysvar_index_def bindM_def on_accounts_def modify_accounts_def split: if_splits result.splits)
  next
    case (Err e)
    then show ?thesis using assms(2) Some bor q by (auto simp: store_sysvar_index_def bindM_def on_accounts_def)
  qed
qed

lemma push_quiet:
  assumes "sysvar_keeps_length sysvar" "push sysvar tc = (r, tc')"
  shows "quiet (accounts tc) (accounts tc')"
  using assms(2)
  by (auto simp: push_def Let_def dest!: store_sysvar_index_quiet [OF assms(1)] split: if_splits)

lemma borrow_program_quiet: "borrow_program i tc = (r, tc') \<Longrightarrow> quiet (accounts tc) (accounts tc') \<and> tc' = tc\<lparr>accounts := accounts tc'\<rparr>"
  using quiet_borrow quiet_trans [OF _ quiet_drop_ref_mut]
  by (fastforce simp: borrow_program_def on_accounts_def modify_accounts_def try_borrow_mut_def split: prod.splits result.splits)

lemma get_program_owner_quiet:
  assumes "get_program_owner ic tc = (r, tc')"
  shows "quiet (accounts tc) (accounts tc') \<and> tc' = tc\<lparr>accounts := accounts tc'\<rparr>"
proof (cases "get_index_of_program_account_in_transaction ic")
  case (Ok i)
  obtain x ta where bor: "try_borrow i (accounts tc) = (x, ta)" by (rule prod.exhaust)
  have q: "quiet (accounts tc) ta" using quiet_borrow bor by (simp add: try_borrow_def)
  have "quiet (accounts tc) (drop_ref n ta)" for n
    using quiet_trans [OF q quiet_counters] by (simp add: drop_ref_def)
  then show ?thesis using assms Ok bor q
    by (cases x) (auto simp: get_program_owner_def bindM_def liftR_def on_accounts_def modify_accounts_def)
qed (use assms in \<open>simp add: get_program_owner_def bindM_def liftR_def\<close>)

lemma detect_unbalanced_quiet:
  assumes "detect_unbalanced tc = (r, tc')"
  shows "quiet (accounts tc) (accounts tc') \<and> tc' = tc\<lparr>accounts := accounts tc'\<rparr>
    \<and> (\<forall>b. r = Ok b \<longrightarrow> b = (lamports_delta (accounts tc') \<noteq> 0))"
  using assms borrow_program_quiet
  by (fastforce simp: detect_unbalanced_def bindM_def seqM_def liftR_def getsM_def split: prod.splits result.splits)

lemma pop_quiet:
  assumes "pop tc = (r, tc')"
  shows "quiet (accounts tc) (accounts tc')" "r = Ok () \<Longrightarrow> lamports_delta (accounts tc') = 0"
proof -
  obtain d t where det: "detect_unbalanced tc = (d, t)" by (rule prod.exhaust)
  then show "quiet (accounts tc) (accounts tc')" "r = Ok () \<Longrightarrow> lamports_delta (accounts tc') = 0"
    using assms detect_unbalanced_quiet [OF det]
    by (auto simp: pop_def Let_def split: if_splits result.splits)
qed

end
