(* ===== verification/Tx_Invariants.thy ===== *)
theory Tx_Invariants
  imports Tx_Effects
begin

text \<open>
  Invariants of a transaction context over all sequences of operations (\<open>tx_step\<close>): the recorded deltas are the
  differences of the balances and of the data sizes, hence lamports are conserved and data growth is bounded.
\<close>

section \<open>Steps of a transaction\<close>

inductive tx_step :: "sysvar_interface \<Rightarrow> transaction_context \<Rightarrow> transaction_context \<Rightarrow> bool" for sysvar where
  step_op: "borrowed_ok b tc \<Longrightarrow> account_op b tc tc' \<Longrightarrow> tx_step sysvar tc tc'"
| step_borrow: "try_borrow_instruction_account i ic tc = (r, tc') \<Longrightarrow> tx_step sysvar tc tc'"
| step_drop: "tx_step sysvar tc (drop_borrowed b tc)"
| step_configure: "configure_instruction_at_index k p ias dedup d caller tc = (r, tc') \<Longrightarrow> tx_step sysvar tc tc'"
| step_return_data: "set_return_data pk bs tc = (r, tc') \<Longrightarrow> tx_step sysvar tc tc'"
| step_program_owner: "get_program_owner ic tc = (r, tc') \<Longrightarrow> tx_step sysvar tc tc'"
| step_push: "push sysvar tc = (r, tc') \<Longrightarrow> tx_step sysvar tc tc'"
| step_pop: "pop tc = (r, tc') \<Longrightarrow> tx_step sysvar tc tc'"

inductive_cases tx_stepE: "tx_step sysvar tc tc'"

definition context_inv :: "int \<Rightarrow> transaction_accounts \<Rightarrow> bool" where
  "context_inv l ta \<longleftrightarrow> accounts_wf ta \<and> lamports_delta ta = lamports_total ta - l"

definition small_accounts :: "(pubkey \<times> account_shared_data) list \<Rightarrow> bool" where
  "small_accounts txa \<longleftrightarrow> length txa \<le> 2 ^ 16 \<and> list_all (\<lambda>(k, a). length (data a) \<le> MAX_ACCOUNT_DATA_LEN) txa"

text \<open>A transaction of three accounts whose program moves lamports.\<close>

definition sample_accounts :: "(pubkey \<times> account_shared_data) list" where
  "sample_accounts =
    [([0], \<lparr>lamports = 100, data = [], owner = [9], executable_flag = False, rent_epoch = 0\<rparr>),
     ([1], \<lparr>lamports = 50, data = [1, 2], owner = [9], executable_flag = False, rent_epoch = 0\<rparr>),
     ([9], \<lparr>lamports = 1, data = [], owner = [8], executable_flag = True, rent_epoch = 0\<rparr>)]"

definition sample_sysvar :: sysvar_interface where
  "sample_sysvar = \<lparr>instructions_id = [7], sysvar_id = [6], store_current_index_checked = (\<lambda>_ d. Ok d)\<rparr>"

definition sample_borrow :: "nat \<Rightarrow> borrowed_account" where
  "sample_borrow n = \<lparr>ba_guard = n, ba_account = instruction_account_new (word_of_nat n) False True, ba_program = 2\<rparr>"

definition sample_start :: transaction_context where
  "sample_start = context_new sample_accounts (\<lambda>_ _. True) 5 64 1"

definition sample_running :: transaction_context where
  "sample_running = snd (push sample_sysvar (snd (configure_instruction_at_index 0 2 [] [] [] None sample_start)))"

definition sample_moved :: transaction_context where
  "sample_moved = snd (checked_add_lamports (sample_borrow 1) 30 (snd (checked_sub_lamports (sample_borrow 0) 30 sample_running)))"

section \<open>Lemmas\<close>

lemma tx_step_cases:
  assumes "sysvar_keeps_length sysvar" "tx_step sysvar tc tc'"
  obtains b where "borrowed_ok b tc" "account_op b tc tc'" | "quiet (accounts tc) (accounts tc')"
  using assms(2)
proof cases
  case (step_borrow i ic r)
  then have "quiet (accounts tc) (accounts tc')"
    using quiet_borrow
    by (fastforce simp: try_borrow_instruction_account_def bindM_def liftR_def on_accounts_def ret_def try_borrow_mut_def
        split: result.splits prod.splits)
  then show thesis by (rule that(2))
next
  case (step_drop b)
  then show thesis using quiet_drop_ref_mut by (intro that(2)) (simp add: drop_borrowed_def modify_accounts_def)
next
  case (step_configure k p ias dedup d caller r)
  then show thesis
    by (intro that(2)) (auto simp: configure_instruction_at_index_def Let_def split: option.splits prod.splits)
next
  case (step_return_data pk bs r)
  then show thesis by (intro that(2)) (auto simp: set_return_data_def Let_def)
qed (use that push_quiet [OF assms(1)] pop_quiet get_program_owner_quiet in blast)+

lemma tx_step_inv:
  assumes "sysvar_keeps_length sysvar" "tx_step sysvar tc tc'"
  shows "context_inv l (accounts tc) \<Longrightarrow> context_inv l (accounts tc')"
    "context_inv l (accounts tc) \<Longrightarrow> resize_inv s (accounts tc) \<Longrightarrow> resize_inv s (accounts tc')"
proof -
  have "(context_inv l (accounts tc) \<longrightarrow> context_inv l (accounts tc'))
    \<and> (context_inv l (accounts tc) \<longrightarrow> resize_inv s (accounts tc) \<longrightarrow> resize_inv s (accounts tc'))"
    using assms
  proof (cases rule: tx_step_cases)
    case (1 b)
    show ?thesis
      using account_op_effect [OF _ 1] op_effect_wf [OF _ 1(1)] op_effect_lamports [OF _ 1(1)] op_effect_resize [OF _ 1(1)]
      by (force simp: context_inv_def)
  next
    case 2
    then show ?thesis using quiet_totals [OF 2] by (simp add: context_inv_def quiet_def)
  qed
  then show "context_inv l (accounts tc) \<Longrightarrow> context_inv l (accounts tc')"
    "context_inv l (accounts tc) \<Longrightarrow> resize_inv s (accounts tc) \<Longrightarrow> resize_inv s (accounts tc')" by blast+
qed

lemma accounts_new_wf: "accounts_wf (accounts_new txa)"
  by (simp add: accounts_wf_def accounts_new_def accounts_len_def payload_len_def new_shared_fields_def new_private_fields_def)

lemma lamports_total_new: "lamports_total (accounts_new txa) = (\<Sum>(k, a)\<leftarrow>txa. uint (lamports a))"
proof -
  have "map acc_lamports (shared_account_fields (accounts_new txa)) = map (lamports \<circ> snd) txa"
    by (intro nth_equalityI) (simp_all add: accounts_new_def new_shared_fields_def)
  then have "map (uint \<circ> acc_lamports) (shared_account_fields (accounts_new txa)) = map (uint \<circ> (lamports \<circ> snd)) txa"
    by (metis map_map)
  then show ?thesis by (simp add: lamports_total_def comp_def case_prod_unfold)
qed

lemma data_total_new: "data_total (accounts_new txa) = (\<Sum>(k, a)\<leftarrow>txa. int (length (data a)))"
  by (simp add: data_total_def accounts_new_def new_private_fields_def comp_def case_prod_unfold)

lemma resize_inv_new:
  assumes "small_accounts txa"
  shows "resize_inv (\<Sum>(k, a)\<leftarrow>txa. int (length (data a))) (accounts_new txa)"
proof -
  have b: "data_bounded (accounts_new txa)"
    using assms by (auto simp: small_accounts_def data_bounded_def accounts_new_def accounts_len_def new_private_fields_def list_all_iff)
  from data_total_bounds [OF b accounts_new_wf] b show ?thesis
    by (simp add: resize_inv_def data_total_new) (simp add: accounts_new_def limit_defs)
qed

lemma reachable_inv:
  assumes "sysvar_keeps_length sysvar" "(tx_step sysvar)\<^sup>*\<^sup>* (context_new txa rent sc trc n) tc"
  shows "context_inv (\<Sum>(k, a)\<leftarrow>txa. uint (lamports a)) (accounts tc)"
    "small_accounts txa \<Longrightarrow> resize_inv (\<Sum>(k, a)\<leftarrow>txa. int (length (data a))) (accounts tc)"
proof -
  let ?l = "\<Sum>(k, a)\<leftarrow>txa. uint (lamports a)" and ?s = "\<Sum>(k, a)\<leftarrow>txa. int (length (data a))"
  have new: "accounts (context_new txa rent sc trc n) = accounts_new txa" by (simp add: context_new_def Let_def)
  have start: "context_inv ?l (accounts_new txa)"
    by (simp add: context_inv_def accounts_new_wf lamports_total_new) (simp add: accounts_new_def)
  from assms(2) show l: "context_inv ?l (accounts tc)"
    by induction (use start new tx_step_inv(1) [OF assms(1)] in auto)
  from assms(2) show "resize_inv ?s (accounts tc)" if "small_accounts txa"
  proof induction
    case (step t u)
    have "context_inv ?l (accounts t)"
      using step.hyps(1) by induction (use start new tx_step_inv(1) [OF assms(1)] in auto)
    then show ?case using tx_step_inv(2) [OF assms(1) step.hyps(2)] step.IH by blast
  qed (use resize_inv_new [OF that] new in simp)
qed

lemma record_sums:
  assumes "accounts_wf (accounts tc)"
  shows "(\<Sum>(k, a)\<leftarrow>record_accounts (execution_record_from tc). uint (lamports a)) = lamports_total (accounts tc)"
    "(\<Sum>(k, a)\<leftarrow>record_accounts (execution_record_from tc). int (length (data a))) = data_total (accounts tc)"
proof -
  let ?r = "record_accounts (execution_record_from tc)"
  have lens: "length (private_account_fields (accounts tc)) = length (shared_account_fields (accounts tc))"
    using assms by (simp add: accounts_wf_def accounts_len_def)
  note defs = execution_record_from_def take_accounts_def deconstruct_into_keyed_account_shared_data_def deconstruct_account_def
  have "map (\<lambda>(k, a). uint (lamports a)) ?r = map (\<lambda>a. uint (acc_lamports a)) (shared_account_fields (accounts tc))"
    "map (\<lambda>(k, a). int (length (data a))) ?r = map (\<lambda>p. int (length (acc_payload p))) (private_account_fields (accounts tc))"
    by (intro nth_equalityI; simp add: defs lens)+
  then show "(\<Sum>(k, a)\<leftarrow>?r. uint (lamports a)) = lamports_total (accounts tc)"
    "(\<Sum>(k, a)\<leftarrow>?r. int (length (data a))) = data_total (accounts tc)"
    by (simp_all add: lamports_total_def data_total_def)
qed

lemmas sample_eval = sample_moved_def sample_running_def sample_start_def sample_borrow_def sample_sysvar_def sample_accounts_def
  context_new_def accounts_new_def new_shared_fields_def new_private_fields_def configure_instruction_at_index_def configure_vm_slices_def
  push_def store_sysvar_index_def find_index_of_account_def account_keys_def get_instruction_stack_height_def
  number_of_called_instructions_in_trace_def checked_add_lamports_def checked_sub_lamports_def set_lamports_def
  get_lamports_def shared_of_def is_owned_by_current_program_def get_key_of_account_at_index_def account_key_def get_owner_def
  instruction_account_new_def bool_as_u8_def is_writable_def on_accounts_def modify_accounts_def add_lamports_delta_def
  touch_borrowed_def touch_def view_set_lamports_def update_shared_def checked_i128_def checked_add_def checked_sub_def
  get_at_def monad_defs Let_def

lemma sample_keeps_length: "sysvar_keeps_length sample_sysvar"
  by (simp add: sysvar_keeps_length_def sample_sysvar_def)

lemma sample_reachable: "(tx_step sample_sysvar)\<^sup>*\<^sup>* sample_start sample_moved"
proof -
  let ?t1 = "snd (configure_instruction_at_index 0 2 [] [] [] None sample_start)"
  let ?t3 = "snd (checked_sub_lamports (sample_borrow 0) 30 sample_running)"
  have len: "accounts_len (accounts sample_running) = 3" "accounts_len (accounts ?t3) = 3"
    by (simp_all add: sample_eval accounts_len_def)
  have ok: "borrowed_ok (sample_borrow n) tc" if "n < 3" "accounts_len (accounts tc) = 3" for n tc
    using that by (auto simp: borrowed_ok_def sample_borrow_def instruction_account_new_def unat_of_nat)
  have "tx_step sample_sysvar sample_start ?t1" by (rule step_configure) (rule surjective_pairing)
  moreover have "tx_step sample_sysvar ?t1 sample_running"
    unfolding sample_running_def by (rule step_push) (rule surjective_pairing)
  moreover have "tx_step sample_sysvar sample_running ?t3"
    by (rule step_op [OF ok [OF _ len(1), of 0] account_op.intros(4)]) (simp, rule surjective_pairing)
  moreover have "tx_step sample_sysvar ?t3 sample_moved"
    unfolding sample_moved_def by (rule step_op [OF ok [OF _ len(2), of 1] account_op.intros(3)]) (simp, rule surjective_pairing)
  ultimately show ?thesis by (meson rtranclp.rtrancl_into_rtrancl rtranclp.rtrancl_refl)
qed

lemma sample_pop: "fst (pop sample_moved) = Ok ()"
  by (simp add: pop_def detect_unbalanced_def sample_eval get_current_instruction_context_def get_current_instruction_index_def
    get_instruction_context_at_index_in_trace_def get_index_of_program_account_in_transaction_def borrow_program_def
    try_borrow_mut_def borrow_with_def counter_try_borrow_mut_def is_writing_def is_reading_def drop_ref_mut_def set_slice_len_def payload_len_def)

section \<open>Properties\<close>

text \<open>C8. A transaction neither creates nor destroys lamports. Whatever sequence of instruction-account operations,
  borrows, instruction configurations, pushes and pops a transaction runs, and whatever of them fail, once
  \<^verbatim>\<open>TransactionContext::pop\<close> succeeds the balances in the execution record add up to the sum of the balances the
  transaction was loaded with. The only assumption is that writing the instructions sysvar keeps its length.\<close>

theorem lamports_conserved:
  assumes "sysvar_keeps_length sysvar" "(tx_step sysvar)\<^sup>*\<^sup>* (context_new txa rent sc trc n) tc" "pop tc = (Ok (), tc')"
  shows "(\<Sum>(k, a)\<leftarrow>record_accounts (execution_record_from tc'). uint (lamports a)) = (\<Sum>(k, a)\<leftarrow>txa. uint (lamports a))"
proof -
  have "(tx_step sysvar)\<^sup>*\<^sup>* (context_new txa rent sc trc n) tc'"
    using assms(2) step_pop [OF assms(3)] by (rule rtranclp.rtrancl_into_rtrancl)
  from reachable_inv(1) [OF assms(1) this] pop_quiet(2) [OF assms(3)] show ?thesis
    by (simp add: context_inv_def record_sums)
qed

theorem lamports_conserved_witness:
  "fst (pop sample_moved) = Ok ()
    \<and> (\<Sum>(k, a)\<leftarrow>record_accounts (execution_record_from (snd (pop sample_moved))). uint (lamports a)) = 151"
proof -
  have "pop sample_moved = (Ok (), snd (pop sample_moved))" using sample_pop by (metis surjective_pairing)
  from lamports_conserved [OF sample_keeps_length sample_reachable [unfolded sample_start_def] this]
  show ?thesis using sample_pop by (simp add: sample_accounts_def)
qed

text \<open>C23. The data of accounts grows within bounds. When a transaction loads at most 65536 accounts, each within the
  size limit, then after any sequence of operations the data of all accounts has
  grown by exactly the recorded resize delta, that delta is at most
  \<^verbatim>\<open>MAX_ACCOUNT_DATA_GROWTH_PER_TRANSACTION\<close>, and no account is larger than \<^verbatim>\<open>MAX_ACCOUNT_DATA_LEN\<close>.\<close>

theorem data_growth_bounded:
  assumes "sysvar_keeps_length sysvar" "(tx_step sysvar)\<^sup>*\<^sup>* (context_new txa rent sc trc n) tc" "small_accounts txa"
  shows "(\<Sum>(k, a)\<leftarrow>record_accounts (execution_record_from tc). int (length (data a)))
      = (\<Sum>(k, a)\<leftarrow>txa. int (length (data a))) + accounts_resize_delta (execution_record_from tc)
    \<and> accounts_resize_delta (execution_record_from tc) \<le> MAX_ACCOUNT_DATA_GROWTH_PER_TRANSACTION
    \<and> list_all (\<lambda>(k, a). length (data a) \<le> MAX_ACCOUNT_DATA_LEN) (record_accounts (execution_record_from tc))"
proof -
  let ?ta = "accounts tc"
  have wf: "accounts_wf ?ta" using reachable_inv(1) [OF assms(1,2)] by (simp add: context_inv_def)
  have inv: "resize_inv (\<Sum>(k, a)\<leftarrow>txa. int (length (data a))) ?ta" using reachable_inv(2) [OF assms] .
  have "length (acc_payload p) \<le> MAX_ACCOUNT_DATA_LEN" if "p \<in> set (private_account_fields ?ta)" for p
    using inv that by (auto simp: resize_inv_def data_bounded_def)
  then have "list_all (\<lambda>(k, a). length (data a) \<le> MAX_ACCOUNT_DATA_LEN) (record_accounts (execution_record_from tc))"
    by (auto simp: execution_record_from_def take_accounts_def deconstruct_into_keyed_account_shared_data_def
        deconstruct_account_def list_all_iff dest: set_zip_rightD)
  moreover have "accounts_resize_delta (execution_record_from tc) = resize_delta ?ta"
    by (simp add: execution_record_from_def take_accounts_def)
  ultimately show ?thesis using inv record_sums(2) [OF wf] by (simp add: resize_inv_def)
qed

theorem data_growth_bounded_witness:
  "accounts_resize_delta (execution_record_from sample_moved) \<le> MAX_ACCOUNT_DATA_GROWTH_PER_TRANSACTION"
  using data_growth_bounded [OF sample_keeps_length sample_reachable [unfolded sample_start_def]]
  by (simp add: small_accounts_def sample_accounts_def MAX_ACCOUNT_DATA_LEN_def)

text \<open>C9. The rules on who may change an account. Whatever operation a program calls on a borrowed account, and whether it
  succeeds or not: an account that is not writable keeps its view; an account the program does not own keeps
  its owner, data and executable flag and loses no lamports; the owner only changes when the data is all
  zeros; no other account of the transaction changes; and the account keys stay.\<close>

theorem account_permissions:
  assumes "accounts_wf (accounts tc)" "borrowed_ok b tc" "account_op b tc tc'"
  shows "(\<not> is_writable (ba_account b) \<longrightarrow>
        view_account (accounts tc') (ba_guard b) = view_account (accounts tc) (ba_guard b))
    \<and> (\<not> is_owned_by_current_program b tc \<longrightarrow>
        get_owner b tc' = get_owner b tc \<and> get_data b tc' = get_data b tc \<and> get_lamports b tc \<le> get_lamports b tc'
        \<and> acc_executable (private_of b tc') = acc_executable (private_of b tc))
    \<and> (get_owner b tc' \<noteq> get_owner b tc \<longrightarrow> (\<forall>x \<in> set (get_data b tc'). x = 0))
    \<and> (\<forall>n. n \<noteq> ba_guard b \<longrightarrow> view_account (accounts tc') n = view_account (accounts tc) n)
    \<and> account_keys (accounts tc') = account_keys (accounts tc)"
proof -
  note wf = assms(1,2)
  have g: "ba_guard b < length (shared_account_fields (accounts tc))" "ba_guard b < length (private_account_fields (accounts tc))"
    using wf by (simp_all add: borrowed_ok_def accounts_wf_def accounts_len_def)
  from account_op_effect [OF assms] wf show ?thesis
    by cases (auto simp: view_account_def Let_def write_accounts [OF wf] account_keys_def map_update_same g
        get_owner_def get_data_def get_lamports_def shared_of_def private_of_def is_zeroed_iff)
qed

theorem account_permissions_witness:
  "view_account (accounts (snd (checked_sub_lamports (sample_borrow 0) 30 sample_running))) 1 = view_account (accounts sample_running) 1"
proof -
  have "accounts_wf (accounts sample_running)" "borrowed_ok (sample_borrow 0) sample_running"
    by (simp_all add: accounts_wf_def borrowed_ok_def accounts_len_def payload_len_def sample_eval less_Suc_eq)
  from account_permissions [OF this account_op.intros(4) [OF surjective_pairing]] show ?thesis
    by (simp add: sample_borrow_def)
qed

end
