(* ===== verification/Rt_Process.thy ===== *)
theory Rt_Process
  imports Rt_Prepare Tx_Invariants
begin

text \<open>
  Running programs under the invoke context: the rule on reentrancy, and the contract of a built-in program. A program that acts on the
  transaction by the operations of borrowed accounts and by further invocations only is \<open>steady\<close>; the rules \<open>steady_rules\<close> show it by
  following the structure of the code. The locale \<open>builtin_runtime\<close> is the interface between the invoke context and the built-in
  programs it calls: when every entry point is steady, so is an instruction, and an instruction that succeeds leaves the stacks as they
  were and the lamports balanced.
\<close>

section \<open>Working with accounts\<close>

text \<open>
  Built-in programs borrow an instruction account in a block that ends by dropping the guard, on every way out of it.
\<close>

definition with_account ::
  "u16 \<Rightarrow> instruction_context \<Rightarrow> (borrowed_account \<Rightarrow> (invoke_context, 'a) ix) \<Rightarrow> (invoke_context, 'a) ix" where
  "with_account index ic body =
    bindM (on_transaction (try_borrow_instruction_account index ic)) (\<lambda>b c.
      case body b c of (r, c) \<Rightarrow> (r, c\<lparr>transaction_context := drop_borrowed b (transaction_context c)\<rparr>))"

definition on_account :: "(transaction_context \<Rightarrow> 'a) \<Rightarrow> (invoke_context, 'a) ix" where
  "on_account f = getsM (\<lambda>c. f (transaction_context c))"

definition try_account :: "(transaction_context \<Rightarrow> ('a, instruction_error failure) result) \<Rightarrow> (invoke_context, 'a) ix" where
  "try_account f = liftR (\<lambda>c. f (transaction_context c))"

section \<open>Programs on the stack\<close>

definition program_at :: "transaction_context \<Rightarrow> nat \<Rightarrow> pubkey option" where
  "program_at tc n =
    (case bindR (get_instruction_context_at_index_in_trace n tc) (\<lambda>ic. get_program_key ic tc) of Ok key \<Rightarrow> Some key | Err _ \<Rightarrow> None)"

definition programs_on_stack :: "transaction_context \<Rightarrow> pubkey option list" where
  "programs_on_stack tc = map (program_at tc) (instruction_stack tc)"

definition stack_in_trace :: "transaction_context \<Rightarrow> bool" where
  "stack_in_trace tc \<longleftrightarrow> (\<forall>n \<in> set (instruction_stack tc). n < length (instruction_trace tc))"

definition no_reentrancy :: "transaction_context \<Rightarrow> bool" where
  "no_reentrancy tc \<longleftrightarrow> distinct (remdups_adj (programs_on_stack tc))"

definition next_program_of :: "transaction_context \<Rightarrow> pubkey option" where
  "next_program_of tc = (case bindR (get_next_instruction_context tc) (\<lambda>ic. get_program_key ic tc) of Ok pid \<Rightarrow> Some pid | Err _ \<Rightarrow> None)"

definition pushed :: "transaction_context \<Rightarrow> nat \<Rightarrow> transaction_context \<Rightarrow> bool" where
  "pushed tc n tc' \<longleftrightarrow> map acc_key (shared_account_fields (accounts tc')) = map acc_key (shared_account_fields (accounts tc))
    \<and> (instruction_stack tc' = instruction_stack tc \<or> instruction_stack tc' = instruction_stack tc @ [n])
    \<and> length (instruction_trace tc) \<le> length (instruction_trace tc')
    \<and> (\<forall>m < length (instruction_trace tc).
         program_account_index_in_tx (instruction_trace tc' ! m) = program_account_index_in_tx (instruction_trace tc ! m))"

section \<open>The contract of a program\<close>

text \<open>
  What a run may do: any sequence of steps of the transaction, no increase of the compute meter, and when it returns it leaves the stack of
  instructions and the frames of its callers as they were.
\<close>

definition keeps_frame :: "invoke_context \<Rightarrow> invoke_context \<Rightarrow> bool" where
  "keeps_frame c c' \<longleftrightarrow> instruction_stack (transaction_context c') = instruction_stack (transaction_context c)
    \<and> length (syscall_contexts c') = length (syscall_contexts c) \<and> butlast (syscall_contexts c') = butlast (syscall_contexts c)"

definition runs :: "sysvar_interface \<Rightarrow> bool \<Rightarrow> invoke_context \<Rightarrow> invoke_context \<Rightarrow> bool" where
  "runs sysvar returned c c' \<longleftrightarrow> (tx_step sysvar)\<^sup>*\<^sup>* (transaction_context c) (transaction_context c')
    \<and> remaining_units c' \<le> remaining_units c \<and> (returned \<longrightarrow> keeps_frame c c')"

definition steady :: "sysvar_interface \<Rightarrow> borrowed_account set \<Rightarrow> (invoke_context, 'a, 'e failure) sm \<Rightarrow> bool" where
  "steady sysvar B m \<longleftrightarrow> (\<forall>c r c'. m c = (r, c') \<longrightarrow> r \<noteq> Err Panic \<longrightarrow> sysvar_keeps_length sysvar \<longrightarrow>
     accounts_wf (accounts (transaction_context c)) \<longrightarrow> (\<forall>b \<in> B. borrowed_ok b (transaction_context c)) \<longrightarrow> runs sysvar (is_ok r) c c')"

named_theorems steady_rules \<open>code that acts on the transaction by its operations only\<close>

locale builtin_runtime =
  fixes rt :: runtime
  assumes sysvar: "sysvar_keeps_length (rt_sysvar rt)"
    and entrypoint_steady: "find_entrypoint rt key = Ok f \<Longrightarrow> steady (rt_sysvar rt) {} f"

section \<open>Lemmas\<close>

lemma keeps_frame_refl [simp]: "keeps_frame c c"
  by (simp add: keeps_frame_def)

lemma keeps_frame_trans: "keeps_frame c d \<Longrightarrow> keeps_frame d e \<Longrightarrow> keeps_frame c e"
  by (auto simp: keeps_frame_def)

lemma runs_refl [simp]: "runs sysvar ok c c"
  by (simp add: runs_def)

lemma runs_trans: "runs sysvar True c d \<Longrightarrow> runs sysvar ok d e \<Longrightarrow> runs sysvar ok c e"
  by (auto simp: runs_def intro: keeps_frame_trans)

lemma runs_then: "runs sysvar ok c d \<Longrightarrow> runs sysvar ok d e \<Longrightarrow> runs sysvar ok c e"
  by (auto simp: runs_def intro: keeps_frame_trans)

lemma runs_log [simp]: "runs sysvar ok c (c\<lparr>log_collector := l\<rparr>)"
  by (simp add: runs_def keeps_frame_def remaining_units_def)

lemma runs_transaction:
  assumes "tx_step sysvar (transaction_context c) tc" "instruction_stack tc = instruction_stack (transaction_context c)"
  shows "runs sysvar ok c (c\<lparr>transaction_context := tc\<rparr>)"
  using assms by (auto simp: runs_def keeps_frame_def remaining_units_def)

lemma tx_step_keys:
  assumes "sysvar_keeps_length sysvar" "tx_step sysvar tc tc'" "accounts_wf (accounts tc)"
  shows "account_keys (accounts tc') = account_keys (accounts tc) \<and> accounts_wf (accounts tc')"
proof
  show "accounts_wf (accounts tc')"
    using tx_step_inv(1) [OF assms(1,2), of "lamports_total (accounts tc) - lamports_delta (accounts tc)"] assms(3)
    by (simp add: context_inv_def)
  from assms(1,2) show "account_keys (accounts tc') = account_keys (accounts tc)"
  proof (cases rule: tx_step_cases)
    case (1 b)
    have "ba_guard b < length (shared_account_fields (accounts tc))"
      using 1(1) by (simp add: borrowed_ok_def accounts_len_def)
    from account_op_effect [OF assms(3) 1] this show ?thesis
      by cases (auto simp: write_accounts [OF assms(3) 1(1)] account_keys_def map_update_same shared_of_def)
  qed (simp add: quiet_def account_keys_def)
qed

lemma steps_keys:
  assumes "sysvar_keeps_length sysvar" "(tx_step sysvar)\<^sup>*\<^sup>* tc tc'" "accounts_wf (accounts tc)"
  shows "account_keys (accounts tc') = account_keys (accounts tc)" "accounts_wf (accounts tc')"
proof -
  from assms(2) have "account_keys (accounts tc') = account_keys (accounts tc) \<and> accounts_wf (accounts tc')"
    by induction (use assms(3) tx_step_keys [OF assms(1)] in auto)
  then show "account_keys (accounts tc') = account_keys (accounts tc)" "accounts_wf (accounts tc')" by simp_all
qed

lemma runs_keep:
  assumes "sysvar_keeps_length sysvar" "runs sysvar ok c c'" "accounts_wf (accounts (transaction_context c))"
  shows "accounts_wf (accounts (transaction_context c'))"
    "borrowed_ok b (transaction_context c) \<Longrightarrow> borrowed_ok b (transaction_context c')"
proof -
  have steps: "(tx_step sysvar)\<^sup>*\<^sup>* (transaction_context c) (transaction_context c')" using assms(2) by (simp add: runs_def)
  show "accounts_wf (accounts (transaction_context c'))" using steps_keys(2) [OF assms(1) steps assms(3)] .
  have "accounts_len (accounts (transaction_context c')) = accounts_len (accounts (transaction_context c))"
    using arg_cong [OF steps_keys(1) [OF assms(1) steps assms(3)], of length] by (simp add: account_keys_def accounts_len_def)
  then show "borrowed_ok b (transaction_context c) \<Longrightarrow> borrowed_ok b (transaction_context c')" by (simp add: borrowed_ok_def)
qed

lemma steadyD:
  assumes "steady sysvar B m" "m c = (r, c')" "r \<noteq> Err Panic" "sysvar_keeps_length sysvar"
    "accounts_wf (accounts (transaction_context c))" "\<forall>b \<in> B. borrowed_ok b (transaction_context c)"
  shows "runs sysvar (is_ok r) c c'"
  using assms by (auto simp: steady_def)

lemma steady_same: "(\<And>c r c'. m c = (r, c') \<Longrightarrow> r \<noteq> Err Panic \<Longrightarrow> runs sysvar (is_ok r) c c') \<Longrightarrow> steady sysvar B m"
  by (auto simp: steady_def)

lemma steady_simple [steady_rules]:
  "steady sysvar B (ret a)" "steady sysvar B (throw e)" "steady sysvar B (fail_with i)"
  "steady sysvar B (getsM f)" "steady sysvar B (liftR g)" "steady sysvar B (on_account h)" "steady sysvar B (try_account k)"
  "steady sysvar B (log_and_fail message i)"
  by (intro steady_same; auto simp: monad_defs fail_with_def on_account_def try_account_def log_and_fail_def ic_msg_def)+

lemma steady_bind [steady_rules]:
  assumes "steady sysvar B m" "\<And>a. steady sysvar B (f a)"
  shows "steady sysvar B (bindM m f)"
  unfolding steady_def
proof (intro allI impI)
  fix c r c'
  assume run: "bindM m f c = (r, c')" "r \<noteq> Err Panic" and sv: "sysvar_keeps_length sysvar"
    and ok: "accounts_wf (accounts (transaction_context c))" "\<forall>b \<in> B. borrowed_ok b (transaction_context c)"
  obtain x d where m: "m c = (x, d)" by (rule prod.exhaust)
  have "x \<noteq> Err Panic" using run m by (auto simp: bindM_def split: result.splits)
  then have d: "runs sysvar (is_ok x) c d" using steadyD [OF assms(1) m _ sv ok] by blast
  show "runs sysvar (is_ok r) c c'"
  proof (cases x)
    case (Ok a)
    then have fa: "f a d = (r, c')" using run m by (simp add: bindM_def)
    have "runs sysvar (is_ok r) d c'"
      using steadyD [OF assms(2) fa run(2) sv] runs_keep [OF sv d ok(1)] ok(2) by blast
    then show ?thesis using runs_trans d Ok by (auto simp: is_ok_def)
  qed (use run m d in \<open>auto simp: bindM_def is_ok_def\<close>)
qed

lemma steady_seq [steady_rules]: "steady sysvar B m \<Longrightarrow> steady sysvar B n \<Longrightarrow> steady sysvar B (seqM m n)"
  using steady_bind [of sysvar B m "\<lambda>_. n"] by (simp add: seqM_def bindM_def)

lemma steady_cases [steady_rules]:
  "(p \<Longrightarrow> steady sysvar B m) \<Longrightarrow> (\<not> p \<Longrightarrow> steady sysvar B n) \<Longrightarrow> steady sysvar B (if p then m else n)"
  "steady sysvar B m \<Longrightarrow> (\<And>a. steady sysvar B (f a)) \<Longrightarrow> steady sysvar B (case x of None \<Rightarrow> m | Some a \<Rightarrow> f a)"
  "(\<And>a. steady sysvar B (g a)) \<Longrightarrow> (\<And>e. steady sysvar B (h e)) \<Longrightarrow> steady sysvar B (case y of Ok a \<Rightarrow> g a | Err e \<Rightarrow> h e)"
  "(\<And>a b. steady sysvar B (k a b)) \<Longrightarrow> steady sysvar B (case z of (a, b) \<Rightarrow> k a b)"
  by (auto split: option.split result.split prod.split)

lemma account_op_stack:
  assumes "accounts_wf (accounts tc)" "borrowed_ok b tc" "account_op b tc tc'"
  shows "instruction_stack tc' = instruction_stack tc"
  using account_op_effect [OF assms] by cases (simp_all add: account_write_def Let_def)

lemma steady_op:
  assumes "b \<in> B" "\<And>tc r tc'. f tc = (r, tc') \<Longrightarrow> account_op b tc tc'"
  shows "steady sysvar B (on_transaction f)"
  using assms runs_transaction [OF step_op] account_op_stack
  by (fastforce simp: steady_def on_transaction_def split: prod.splits)

lemma set_state_op: "set_state encode b v tc = (r, tc') \<Longrightarrow> account_op b tc tc'"
  using account_op.intros(9) [of "encode v" b tc r tc'] by (simp add: set_state_def)

lemma steady_ops [steady_rules]:
  assumes "b \<in> B"
  shows "steady sysvar B (on_transaction (set_owner b pk))" "steady sysvar B (on_transaction (set_lamports b x))"
    "steady sysvar B (on_transaction (checked_add_lamports b x))" "steady sysvar B (on_transaction (checked_sub_lamports b x))"
    "steady sysvar B (on_transaction (set_data_from_slice b bs))" "steady sysvar B (on_transaction (set_data_length b n))"
    "steady sysvar B (on_transaction (extend_from_slice b bs))" "steady sysvar B (on_transaction (set_executable b e))"
    "steady sysvar B (on_transaction (set_state encode b v))"
  by (rule steady_op [OF assms], erule account_op.intros set_state_op)+

lemma try_borrow_frame:
  assumes "try_borrow_instruction_account i ic tc = (r, tc')"
  shows "instruction_stack tc' = instruction_stack tc"
    "r = Ok b \<Longrightarrow> borrowed_ok b tc'"
  using assms by (auto simp: try_borrow_instruction_account_def bindM_def liftR_def on_accounts_def ret_def try_borrow_mut_def
      borrow_with_def borrowed_ok_def accounts_len_def Let_def split: result.splits option.splits if_splits)

lemma steady_with_account [steady_rules]:
  assumes "\<And>b. steady sysvar (insert b B) (body b)"
  shows "steady sysvar B (with_account index ic body)"
  unfolding steady_def
proof (intro allI impI)
  fix c r c'
  assume run: "with_account index ic body c = (r, c')" "r \<noteq> Err Panic" and sv: "sysvar_keeps_length sysvar"
    and ok: "accounts_wf (accounts (transaction_context c))" "\<forall>b \<in> B. borrowed_ok b (transaction_context c)"
  obtain x tc where bor: "try_borrow_instruction_account index ic (transaction_context c) = (x, tc)" by (rule prod.exhaust)
  let ?d = "c\<lparr>transaction_context := tc\<rparr>"
  have d: "runs sysvar True c ?d"
    using runs_transaction [OF step_borrow [OF bor]] try_borrow_frame(1) [OF bor] by simp
  show "runs sysvar (is_ok r) c c'"
  proof (cases x)
    case (Err e)
    then show ?thesis using run bor d by (auto simp: with_account_def bindM_def on_transaction_def runs_def)
  next
    case (Ok b)
    obtain y e where body: "body b ?d = (y, e)" by (rule prod.exhaust)
    have r: "r = y" "c' = e\<lparr>transaction_context := drop_borrowed b (transaction_context e)\<rparr>"
      using run bor Ok body by (auto simp: with_account_def bindM_def on_transaction_def)
    have "\<forall>b' \<in> insert b B. borrowed_ok b' (transaction_context ?d)"
      using try_borrow_frame(2) [OF bor Ok] runs_keep(2) [OF sv d ok(1)] ok(2) by simp
    then have "runs sysvar (is_ok y) ?d e"
      using steadyD [OF assms body _ sv] runs_keep(1) [OF sv d ok(1)] run(2) r(1) by blast
    moreover have "runs sysvar (is_ok y) e c'"
      unfolding r by (rule runs_transaction [OF step_drop]) (simp add: drop_borrowed_def modify_accounts_def)
    ultimately show ?thesis using runs_trans [OF d runs_then] r(1) by blast
  qed
qed

lemma remdups_adj_snoc:
  "remdups_adj (xs @ [x]) = (if xs \<noteq> [] \<and> last xs = x then remdups_adj xs else remdups_adj xs @ [x])"
  by (induction xs rule: remdups_adj.induct) auto

lemma distinct_remdups_adj_butlast:
  assumes "distinct (remdups_adj xs)"
  shows "distinct (remdups_adj (butlast xs))"
proof (cases xs rule: rev_cases)
  case (snoc ys y)
  then show ?thesis using assms by (auto simp: remdups_adj_snoc split: if_splits)
qed simp

lemma program_at_cong:
  assumes "map acc_key (shared_account_fields (accounts tc')) = map acc_key (shared_account_fields (accounts tc))"
    "n < length (instruction_trace tc)" "n < length (instruction_trace tc')"
    "program_account_index_in_tx (instruction_trace tc' ! n) = program_account_index_in_tx (instruction_trace tc ! n)"
  shows "program_at tc' n = program_at tc n"
proof -
  have len: "length (shared_account_fields (accounts tc')) = length (shared_account_fields (accounts tc))"
    using arg_cong [OF assms(1), of length] by simp
  have "account_key i (accounts tc') = account_key i (accounts tc)" for i
    using len arg_cong [OF assms(1), of "\<lambda>ks. ks ! unat i"] by (auto simp: account_key_def get_at_def)
  then show ?thesis
    using assms(2-) by (simp add: program_at_def get_instruction_context_at_index_in_trace_def get_at_def get_program_key_def
        get_index_of_program_account_in_transaction_def get_key_of_account_at_index_def)
qed

lemma push_pushed:
  assumes "sysvar_keeps_length sysvar" "push sysvar tc = (r, tc')"
    "n = (if instruction_stack tc = [] then next_top_level_instruction_index tc else length (instruction_trace tc) - 1)"
  shows "pushed tc n tc'"
proof -
  have store: "pushed tc n t'"
    if "store_sysvar_index sysvar k t = (r, t')" "pushed tc n t" for k t t'
  proof -
    have t': "quiet (accounts t) (accounts t')" "t' = t\<lparr>accounts := accounts t'\<rparr>"
      using store_sysvar_index_quiet [OF assms(1) that(1)] by simp_all
    have "instruction_stack t' = instruction_stack t" "instruction_trace t' = instruction_trace t"
      by (subst t'(2), simp)+
    then show ?thesis using that(2) t'(1) by (auto simp: pushed_def quiet_def)
  qed
  have "pushed tc n (tc\<lparr>instruction_trace := (instruction_trace tc)[k := (instruction_trace tc ! k)\<lparr>nesting_level := l\<rparr>]\<rparr>)" for k l
    by (auto simp: pushed_def nth_update_in)
  then show ?thesis
    using assms(2)
    by (auto simp: push_def Let_def get_instruction_trace_length_def assms(3) pushed_def nth_append nth_update_in
        split: if_splits dest!: store)
qed

lemma pop_frame:
  assumes "pop tc = (r, tc')"
  shows "instruction_trace tc' = instruction_trace tc" "instruction_stack tc' = butlast (instruction_stack tc)"
    "quiet (accounts tc) (accounts tc')"
proof -
  obtain d t where det: "detect_unbalanced tc = (d, t)" by (rule prod.exhaust)
  have t: "t = tc\<lparr>accounts := accounts t\<rparr>" using detect_unbalanced_quiet [OF det] by simp
  have "instruction_trace t = instruction_trace tc" "instruction_stack t = instruction_stack tc" by (subst t, simp)+
  then show "instruction_trace tc' = instruction_trace tc" "instruction_stack tc' = butlast (instruction_stack tc)"
    using assms det by (auto simp: pop_def Let_def split: if_splits result.splits)
  show "quiet (accounts tc) (accounts tc')" using pop_quiet(1) [OF assms] .
qed

lemma next_program:
  assumes "get_next_instruction_context tc = Ok ic" "get_program_key ic tc = Ok pid"
  defines "n \<equiv> if instruction_stack tc = [] then next_top_level_instruction_index tc else length (instruction_trace tc) - 1"
  shows "program_at tc n = Some pid" "n < length (instruction_trace tc)"
proof -
  have ic: "get_instruction_context_at_index_in_trace n tc = Ok ic"
    using assms(1) by (auto simp: get_next_instruction_context_def n_def split: if_splits)
  then show "program_at tc n = Some pid" using assms(2) by (simp add: program_at_def)
  show "n < length (instruction_trace tc)"
    using ic by (auto simp: get_instruction_context_at_index_in_trace_def split: option.splits)
qed

lemma program_key_is_at:
  "program_key_is pid tc (get_instruction_context_at_index_in_trace n tc) \<longleftrightarrow> program_at tc n = Some pid"
  by (auto simp: program_key_is_def program_at_def split: result.split)

lemma stack_contains:
  "list_ex (\<lambda>level. program_key_is pid tc (get_instruction_context_at_nesting_level level tc)) [0..<get_instruction_stack_height tc]
    \<longleftrightarrow> Some pid \<in> set (programs_on_stack tc)"
proof -
  have "program_key_is pid tc (get_instruction_context_at_nesting_level level tc) \<longleftrightarrow> program_at tc (instruction_stack tc ! level) = Some pid"
    if "level < length (instruction_stack tc)" for level
    using that by (simp add: get_instruction_context_at_nesting_level_def get_at_def ok_or_def program_key_is_at)
  then show ?thesis
    by (auto simp: list_ex_iff get_instruction_stack_height_def programs_on_stack_def in_set_conv_nth image_iff)
      (metis atLeastLessThan_iff le0 nth_mem)+
qed

lemma stack_top:
  assumes "instruction_stack tc \<noteq> []"
  shows "program_key_is pid tc (get_current_instruction_context tc) \<longleftrightarrow> last (programs_on_stack tc) = Some pid"
  using assms by (simp add: get_current_instruction_context_def get_current_instruction_index_def program_key_is_at
      programs_on_stack_def last_map)

lemma pushed_programs:
  assumes "pushed tc n tc'" "stack_in_trace tc" "n < length (instruction_trace tc)"
  shows "programs_on_stack tc' = programs_on_stack tc \<or> programs_on_stack tc' = programs_on_stack tc @ [program_at tc n]"
    "stack_in_trace tc'"
proof -
  have "program_at tc' m = program_at tc m" if "m < length (instruction_trace tc)" for m
    using assms(1) that by (intro program_at_cong) (auto simp: pushed_def)
  then show "programs_on_stack tc' = programs_on_stack tc \<or> programs_on_stack tc' = programs_on_stack tc @ [program_at tc n]"
    using assms by (auto simp: pushed_def programs_on_stack_def stack_in_trace_def)
  show "stack_in_trace tc'" using assms by (fastforce simp: pushed_def stack_in_trace_def)
qed

lemma steady_transaction:
  assumes "\<And>tc r tc'. f tc = (r, tc') \<Longrightarrow> tx_step sysvar tc tc' \<and> instruction_stack tc' = instruction_stack tc"
  shows "steady sysvar B (on_transaction f)"
  by (rule steady_same) (use assms runs_transaction in \<open>fastforce simp: on_transaction_def split: prod.splits\<close>)

lemma stack_of_accounts: "tc' = tc\<lparr>accounts := accounts tc'\<rparr> \<Longrightarrow> instruction_stack tc' = instruction_stack tc"
  by (drule arg_cong [of _ _ instruction_stack]) simp

lemma steady_context [steady_rules]:
  "steady sysvar B (on_transaction (get_program_owner ic))"
  "steady sysvar B (on_transaction (set_return_data pk bs))"
  "steady sysvar B (on_transaction (configure_instruction_at_index k p ias dedup d caller))"
proof -
  show "steady sysvar B (on_transaction (get_program_owner ic))"
    by (rule steady_transaction) (blast intro: step_program_owner stack_of_accounts dest: get_program_owner_quiet)
  show "steady sysvar B (on_transaction (set_return_data pk bs))"
    by (rule steady_transaction) (auto simp: set_return_data_def Let_def intro: step_return_data [unfolded set_return_data_def Let_def])
  have "instruction_stack tc' = instruction_stack tc"
    if "configure_instruction_at_index k p ias dedup d caller tc = (r, tc')" for tc r tc'
    using that by (auto simp: configure_instruction_at_index_def Let_def split: option.splits prod.splits)
  then show "steady sysvar B (on_transaction (configure_instruction_at_index k p ias dedup d caller))"
    by (intro steady_transaction conjI) (blast intro: step_configure)+
qed

lemma resolve_program_steady: "steady sysvar B (resolve_program rt)"
  unfolding resolve_program_def builtin_id_of_def by (intro steady_rules allI impI)

lemma resolve_program_meter: "resolve_program rt c = (r, c') \<Longrightarrow> remaining_units c' = remaining_units c"
  by (auto simp: resolve_program_def builtin_id_of_def monad_defs fail_with_def on_transaction_def remaining_units_def
      split: prod.splits result.splits if_splits)

lemma resolve_program_entry: "resolve_program rt c = (Ok (bid, f, pk), c') \<Longrightarrow> find_entrypoint rt bid = Ok f"
  by (auto simp: resolve_program_def bindM_def liftR_def seqM_def ret_def split: prod.splits result.splits)

lemma merge_metas_steady: "steady sysvar B (merge_metas rt metas callee_map ias)"
  by (induction metas arbitrary: callee_map ias) (auto simp: Let_def intro!: steady_rules)

lemma check_privileges_steady: "steady sysvar B (check_privileges rt caller metas signers callee_map is ias)"
  by (induction "is" arbitrary: ias) (auto simp: Let_def intro!: steady_rules split: option.split result.split)

lemma prepare_steady [steady_rules]: "steady sysvar B (prepare_next_cpi_instruction rt ix signers)"
  unfolding prepare_next_cpi_instruction_def find_callee_program_def
  by (intro steady_rules merge_metas_steady check_privileges_steady)

lemma push_stack:
  assumes "sysvar_keeps_length sysvar" "push sysvar tc = (Ok (), tc')"
  shows "\<exists>n. instruction_stack tc' = instruction_stack tc @ [n]"
proof -
  have "instruction_stack t' = instruction_stack t" if "store_sysvar_index sysvar k t = (r, t')" for k t t' r
    using store_sysvar_index_quiet [OF assms(1) that] stack_of_accounts by blast
  then show ?thesis
    using assms(2) by (auto simp: push_def Let_def get_instruction_trace_length_def split: if_splits)
qed

lemma invoke_push_runs:
  assumes "sysvar_keeps_length (rt_sysvar rt)" "invoke_push rt c = (r, c')"
  shows "runs (rt_sysvar rt) False c c'" "remaining_units c' = remaining_units c"
    "r = Ok () \<Longrightarrow> syscall_contexts c' = syscall_contexts c @ [None]
      \<and> (\<exists>n. instruction_stack (transaction_context c') = instruction_stack (transaction_context c) @ [n])"
proof -
  obtain x tc where p: "push (rt_sysvar rt) (transaction_context c) = (x, tc)" by (rule prod.exhaust)
  have c': "c' = c \<and> r \<noteq> Ok () \<or> r = x \<and> c' = c\<lparr>syscall_contexts := syscall_contexts c @ [None], transaction_context := tc\<rparr>"
    using assms(2) p
    by (auto simp: invoke_push_def Let_def on_transaction_def split: result.splits failure.splits if_splits)
  then show "runs (rt_sysvar rt) False c c'" "remaining_units c' = remaining_units c"
    using step_push [OF p] by (auto simp: runs_def remaining_units_def)
  show "syscall_contexts c' = syscall_contexts c @ [None]
      \<and> (\<exists>n. instruction_stack (transaction_context c') = instruction_stack (transaction_context c) @ [n])" if "r = Ok ()"
    using c' that push_stack [OF assms(1)] p by auto
qed

lemma invoke_pop_runs:
  assumes "invoke_pop c = (r, c')"
  shows "runs sysvar False c c'" "remaining_units c' = remaining_units c" "syscall_contexts c' = butlast (syscall_contexts c)"
    "instruction_stack (transaction_context c') = butlast (instruction_stack (transaction_context c))"
    "r = Ok () \<Longrightarrow> lamports_delta (accounts (transaction_context c')) = 0"
proof -
  obtain x tc where p: "pop (transaction_context c) = (x, tc)" by (rule prod.exhaust)
  have c': "r = x" "c' = c\<lparr>syscall_contexts := butlast (syscall_contexts c), transaction_context := tc\<rparr>"
    using assms p by (auto simp: invoke_pop_def on_transaction_def)
  then show "runs sysvar False c c'" "remaining_units c' = remaining_units c" "syscall_contexts c' = butlast (syscall_contexts c)"
    "instruction_stack (transaction_context c') = butlast (instruction_stack (transaction_context c))"
    "r = Ok () \<Longrightarrow> lamports_delta (accounts (transaction_context c')) = 0"
    using step_pop [OF p] pop_frame(2) [OF p] pop_quiet(2) [OF p] by (auto simp: runs_def remaining_units_def)
qed

lemma call_builtin_steady:
  assumes "steady sysvar B f"
  shows "steady sysvar B (call_builtin rt pk f)"
  unfolding steady_def
proof (intro allI impI)
  fix c r c'
  assume run: "call_builtin rt pk f c = (r, c')" "r \<noteq> Err Panic" and sv: "sysvar_keeps_length sysvar"
    and ok: "accounts_wf (accounts (transaction_context c))" "\<forall>b \<in> B. borrowed_ok b (transaction_context c)"
  obtain x d where f: "f c = (x, d)" by (rule prod.exhaust)
  have "x \<noteq> Err Panic" "is_ok r = is_ok x" using run f by (auto simp: call_builtin_def is_ok_def split: result.splits failure.splits)
  with steadyD [OF assms f _ sv ok] have "runs sysvar (is_ok r) c d" by simp
  then show "runs sysvar (is_ok r) c c'"
    using run f runs_then [OF _ runs_log] by (auto simp: call_builtin_def split: result.splits failure.splits)
qed

lemma consume_checked_steady [steady_rules]: "steady sysvar B (consume_checked amount)"
proof (rule steady_same)
  fix c r c'
  assume "consume_checked amount c = (r, c')"
  then have "c' = c\<lparr>compute_meter := saturating_sub (compute_meter c) amount\<rparr>" by (auto simp: consume_checked_def Let_def split: if_splits)
  then show "runs sysvar (is_ok r) c c'"
    by (simp add: runs_def keeps_frame_def remaining_units_def word_le_nat_alt unat_saturating_sub)
qed

lemma declare_steady:
  assumes "steady sysvar B m"
  shows "steady sysvar B (declare_process_instruction amount m)"
proof -
  let ?f = "if amount > 0 then seqM (consume_checked amount) m else m"
  have f: "steady sysvar B ?f" using assms by (intro steady_rules)
  show ?thesis
    unfolding steady_def
  proof (intro allI impI)
    fix c r c'
    assume run: "declare_process_instruction amount m c = (r, c')" "r \<noteq> Err Panic" and sv: "sysvar_keeps_length sysvar"
      and ok: "accounts_wf (accounts (transaction_context c))" "\<forall>b \<in> B. borrowed_ok b (transaction_context c)"
    obtain x d where x: "?f c = (x, d)" by (rule prod.exhaust)
    have "x \<noteq> Err Panic" "is_ok r = is_ok x" "c' = d"
      using run x by (auto simp: declare_process_instruction_def is_ok_def split: result.splits failure.splits if_splits)
    with steadyD [OF f x _ sv ok] show "runs sysvar (is_ok r) c c'" by simp
  qed
qed

lemma and_result_Ok [simp]: "and_result r s = Ok () \<longleftrightarrow> r = Ok () \<and> s = Ok ()"
  by (auto simp: and_result_def split: result.split)

context builtin_runtime
begin

lemma chain_runs:
  assumes "process_executable_chain rt (c, u) = (r, (c', consumed))" "r \<noteq> Err Panic"
    "accounts_wf (accounts (transaction_context c))"
  shows "runs (rt_sysvar rt) (is_ok r) c c'"
    "r = Ok () \<Longrightarrow> consumed = saturating_sub (remaining_units c) (remaining_units c')"
proof -
  obtain x c1 where res: "resolve_program rt c = (x, c1)" by (rule prod.exhaust)
  have x: "x \<noteq> Err Panic" using assms res by (auto simp: process_executable_chain_def)
  have c1: "runs (rt_sysvar rt) (is_ok x) c c1" "remaining_units c1 = remaining_units c"
    using steadyD [OF resolve_program_steady res x sysvar assms(3), of "{}"] resolve_program_meter [OF res] by simp_all
  have "runs (rt_sysvar rt) (is_ok r) c c' \<and> (r = Ok () \<longrightarrow> consumed = saturating_sub (remaining_units c) (remaining_units c'))"
  proof (cases x)
    case (Err e)
    then show ?thesis using assms(1) res c1 by (auto simp: process_executable_chain_def is_ok_def)
  next
    case (Ok y)
    obtain bid f pk where y: "y = (bid, f, pk)" by (cases y)
    let ?c2 = "c1\<lparr>log_collector := program_invoke (rt_show_key rt) pk
      (get_instruction_stack_height (transaction_context c1)) (log_collector c1)\<rparr>"
    obtain s c3 where call: "call_builtin rt pk f ?c2 = (s, c3)" by (rule prod.exhaust)
    have c': "c' = c3" "consumed = saturating_sub (remaining_units c) (remaining_units c3)" "s \<noteq> Err Panic" "is_ok r \<longrightarrow> is_ok s"
      using assms res Ok y call c1(2)
      by (auto simp: process_executable_chain_def Let_def remaining_units_def is_ok_def split: if_splits)
    have c2: "runs (rt_sysvar rt) True c ?c2" using runs_trans [OF _ runs_log] c1(1) Ok by (simp add: is_ok_def)
    have "steady (rt_sysvar rt) {} f" using entrypoint_steady resolve_program_entry res Ok y by blast
    from steadyD [OF call_builtin_steady [OF this] call c'(3) sysvar] runs_keep(1) [OF sysvar c2 assms(3)]
    have "runs (rt_sysvar rt) (is_ok s) ?c2 c3" by simp
    then have "runs (rt_sysvar rt) (is_ok s) c c3" using runs_trans [OF c2] by blast
    then show ?thesis using c' by (auto simp: runs_def)
  qed
  then show "runs (rt_sysvar rt) (is_ok r) c c'"
    "r = Ok () \<Longrightarrow> consumed = saturating_sub (remaining_units c) (remaining_units c')" by simp_all
qed

lemma instruction_runs:
  assumes "process_instruction rt (c, u) = (r, (c', consumed))" "r \<noteq> Err Panic" "accounts_wf (accounts (transaction_context c))"
  shows "runs (rt_sysvar rt) (is_ok r) c c'"
    "r = Ok () \<Longrightarrow> instruction_stack (transaction_context c') = instruction_stack (transaction_context c)
      \<and> syscall_contexts c' = syscall_contexts c \<and> lamports_delta (accounts (transaction_context c')) = 0
      \<and> consumed = saturating_sub (remaining_units c) (remaining_units c')"
proof -
  obtain x c1 where push: "invoke_push rt c = (x, c1)" by (rule prod.exhaust)
  note p = invoke_push_runs [OF sysvar push]
  have wf: "accounts_wf (accounts (transaction_context c1))" using runs_keep(1) [OF sysvar p(1) assms(3)] .
  have "runs (rt_sysvar rt) (is_ok r) c c'
    \<and> (r = Ok () \<longrightarrow> instruction_stack (transaction_context c') = instruction_stack (transaction_context c)
      \<and> syscall_contexts c' = syscall_contexts c \<and> lamports_delta (accounts (transaction_context c')) = 0
      \<and> consumed = saturating_sub (remaining_units c) (remaining_units c'))"
  proof (cases x)
    case (Err e)
    then show ?thesis using assms(1) push p(1) by (auto simp: process_instruction_def is_ok_def)
  next
    case (Ok _)
    then have x: "x = Ok ()" by simp
    obtain y c2 k where ch: "process_executable_chain rt (c1, 0) = (y, (c2, k))" by (metis surj_pair)
    obtain s c3 where pop: "invoke_pop c2 = (s, c3)" by (rule prod.exhaust)
    have y: "y \<noteq> Err Panic" "c' = c3" "consumed = k" "r = and_result y s"
      using assms push x ch pop by (auto simp: process_instruction_def split: if_splits)
    note q = invoke_pop_runs [OF pop] and e = chain_runs [OF ch y(1) wf]
    have steps: "runs (rt_sysvar rt) False c c'"
      using runs_then [OF runs_then [OF p(1)] q(1) [of "rt_sysvar rt"]] e(1) y(2) by (auto simp: runs_def)
    show ?thesis
    proof (cases "r = Ok ()")
      case True
      then have ok: "y = Ok ()" "s = Ok ()" using y(4) by simp_all
      have f: "keeps_frame c1 c2" using e(1) ok by (simp add: runs_def is_ok_def)
      have "syscall_contexts c' = syscall_contexts c" "instruction_stack (transaction_context c') = instruction_stack (transaction_context c)"
        using f p(3) [OF x] q(3,4) y(2) by (auto simp: keeps_frame_def)
      then show ?thesis
        using steps True q(5) [OF ok(2)] q(2) e(2) [OF ok(1)] p(2) y by (auto simp: runs_def keeps_frame_def)
    qed (use steps in \<open>auto simp: is_ok_def split: result.split\<close>)
  qed
  then show "runs (rt_sysvar rt) (is_ok r) c c'"
    "r = Ok () \<Longrightarrow> instruction_stack (transaction_context c') = instruction_stack (transaction_context c)
      \<and> syscall_contexts c' = syscall_contexts c \<and> lamports_delta (accounts (transaction_context c')) = 0
      \<and> consumed = saturating_sub (remaining_units c) (remaining_units c')" by simp_all
qed

lemma native_invoke_steady: "steady (rt_sysvar rt) B (native_invoke_signed rt ix seeds)"
proof -
  have "steady (rt_sysvar rt) B (\<lambda>c. let (r, (c, _)) = process_instruction rt (c, 0) in (r, c))"
    using instruction_runs(1) by (fastforce simp: steady_def Let_def split: prod.splits)
  then show ?thesis unfolding native_invoke_signed_def by (intro steady_rules)
qed

end

section \<open>Properties\<close>

text \<open>C21. A program may only call itself directly. When the next instruction is pushed, a program that is on the stack below another
  program is refused with \<^verbatim>\<open>ReentrancyNotAllowed\<close> and nothing changes; hence the programs on the stack, consecutive calls of the same program
  taken as one, are always different, and the entries of the stack are always entries of the trace.\<close>

theorem reentrancy_only_by_caller:
  assumes "invoke_push rt c = (r, c')" "sysvar_keeps_length (rt_sysvar rt)"
    "stack_in_trace (transaction_context c)" "no_reentrancy (transaction_context c)"
  shows "stack_in_trace (transaction_context c') \<and> no_reentrancy (transaction_context c')
    \<and> (\<forall>pid. next_program_of (transaction_context c) = Some pid \<and> Some pid \<in> set (programs_on_stack (transaction_context c))
        \<and> last (programs_on_stack (transaction_context c)) \<noteq> Some pid \<longrightarrow> r = Err (Fail ReentrancyNotAllowed) \<and> c' = c)"
proof (cases "bindR (get_next_instruction_context (transaction_context c)) (\<lambda>ic. get_program_key ic (transaction_context c))")
  case (Err e)
  then have "c' = c" using assms(1)
    by (auto simp: invoke_push_def Let_def bindR_eq_Err_iff split: result.splits failure.splits)
  then show ?thesis using assms(3,4) Err by (simp add: next_program_of_def)
next
  case (Ok pid)
  let ?tc = "transaction_context c" and ?ps = "programs_on_stack (transaction_context c)"
  from Ok obtain ic where ic: "get_next_instruction_context ?tc = Ok ic" "get_program_key ic ?tc = Ok pid"
    by (auto simp: bindR_eq_Ok_iff)
  define n where "n = (if instruction_stack ?tc = [] then next_top_level_instruction_index ?tc else length (instruction_trace ?tc) - 1)"
  have n: "program_at ?tc n = Some pid" "n < length (instruction_trace ?tc)" using next_program [OF ic] by (simp_all add: n_def)
  have empty: "?ps = [] \<longleftrightarrow> instruction_stack ?tc = []" by (simp add: programs_on_stack_def)
  show ?thesis
  proof (cases "Some pid \<in> set ?ps \<and> last ?ps \<noteq> Some pid")
    case True
    then have "instruction_stack ?tc \<noteq> []" using empty by auto
    then have "(r, c') = (Err (Fail ReentrancyNotAllowed), c)"
      using assms(1) ic True stack_contains [of pid ?tc] stack_top [of ?tc pid]
      by (simp add: invoke_push_def Let_def get_instruction_stack_height_def)
    then show ?thesis using assms(3,4) by simp
  next
    case False
    obtain r1 tc1 where p: "push (rt_sysvar rt) ?tc = (r1, tc1)" by (rule prod.exhaust)
    have tc': "transaction_context c' = tc1"
      using assms(1) ic False p stack_contains [of pid ?tc] stack_top [of ?tc pid] empty
      by (cases "instruction_stack ?tc = []") (auto simp: invoke_push_def Let_def get_instruction_stack_height_def on_transaction_def)
    have "pushed ?tc n tc1" using push_pushed [OF assms(2) p] by (simp add: n_def)
    from pushed_programs [OF this assms(3) n(2)] have "no_reentrancy tc1" "stack_in_trace tc1"
      using assms(4) False n(1) by (auto simp: no_reentrancy_def remdups_adj_snoc)
    then show ?thesis using tc' False Ok by (auto simp: next_program_of_def)
  qed
qed

theorem reentrancy_only_by_caller_witness:
  "length (programs_on_stack (transaction_context wallet_running)) = 1
    \<and> no_reentrancy (transaction_context (snd (invoke_push wallet_runtime wallet_running)))"
proof -
  have stack: "length (programs_on_stack (transaction_context wallet_running)) = 1" by (simp add: programs_on_stack_def wallet_tc)
  then have "stack_in_trace (transaction_context wallet_running)" "no_reentrancy (transaction_context wallet_running)"
    by (auto simp: stack_in_trace_def no_reentrancy_def wallet_tc length_Suc_conv)
  moreover have "sysvar_keeps_length (rt_sysvar wallet_runtime)" by (simp add: sysvar_keeps_length_def wallet_runtime_def)
  ultimately show ?thesis using reentrancy_only_by_caller [OF surjective_pairing] stack by blast
qed

end
