(* ===== verification/Prog_System.thy ===== *)
theory Prog_System
  imports Rt_Sysvars Rt_Process
begin

text \<open>
  The System program, \<^verbatim>\<open>src/programs/system/src/system_processor.rs\<close> and \<^verbatim>\<open>system_instruction.rs\<close>: creating, allocating and
  assigning accounts, transfers, and the four operations on nonce accounts. The encoding of instructions and of nonce accounts, the
  derivation of addresses from seeds and the rent formula belong to other packages; they are the parameter
  \<open>system_interface\<close>, whose type variable \<open>'v\<close> is the type of a stored nonce account (\<open>nonce::versions::Versions\<close>).
\<close>

section \<open>Data of the System program\<close>

datatype system_error =
    AccountAlreadyInUse | ResultWithNegativeLamports | InvalidAccountDataLength | AddressWithSeedMismatch
  | NonceNoRecentBlockhashes | NonceBlockhashNotExpired

record nonce_data =
  nonce_authority :: pubkey
  durable_nonce :: bytes
  nonce_lamports_per_signature :: u64

datatype nonce_state = Uninitialized | Initialized nonce_data

datatype authorize_nonce_error = Nonce_uninitialized | Nonce_missing_signature pubkey

datatype system_instruction =
    CreateAccount u64 u64 pubkey
  | Assign pubkey
  | Transfer u64
  | CreateAccountWithSeed pubkey string u64 u64 pubkey
  | AdvanceNonceAccount
  | WithdrawNonceAccount u64
  | InitializeNonceAccount pubkey
  | AuthorizeNonceAccount pubkey
  | Allocate u64
  | AllocateWithSeed pubkey string u64 pubkey
  | AssignWithSeed pubkey string pubkey
  | TransferWithSeed u64 string pubkey
  | UpgradeNonceAccount
  | CreateAccountAllowPrefund u64 u64 pubkey

record ('v, 'rent, 'rb) system_interface =
  system_program_id :: pubkey
  max_permitted_data_length :: u64
  debug_key :: "pubkey \<Rightarrow> string"
  create_with_seed :: "pubkey \<Rightarrow> string \<Rightarrow> pubkey \<Rightarrow> (pubkey, u64) result"
  decode_instruction :: "bytes \<Rightarrow> (system_instruction, instruction_error) result"
  instruction_error_of_system :: "system_error \<Rightarrow> instruction_error"
  decode_versions :: "bytes \<Rightarrow> 'v option"
  encode_versions :: "'v \<Rightarrow> bytes option"
  versions_new :: "nonce_state \<Rightarrow> 'v"
  versions_state :: "'v \<Rightarrow> nonce_state"
  versions_upgrade :: "'v \<Rightarrow> 'v option"
  versions_authorize :: "'v \<Rightarrow> pubkey set \<Rightarrow> pubkey \<Rightarrow> ('v, authorize_nonce_error) result"
  durable_nonce_from_blockhash :: "bytes \<Rightarrow> bytes"
  minimum_balance :: "'rent \<Rightarrow> nat \<Rightarrow> u64"
  blockhashes_is_empty :: "'rb \<Rightarrow> bool"

record address =
  adr_address :: pubkey
  adr_base :: "pubkey option"

definition show_address :: "('v, 'rent, 'rb) system_interface \<Rightarrow> address \<Rightarrow> string" where
  "show_address sys a =
    ''Address { address: '' @ debug_key sys (adr_address a) @ '', base: ''
      @ (case adr_base a of None \<Rightarrow> ''None'' | Some base \<Rightarrow> ''Some('' @ debug_key sys base @ '')'') @ '' }''"

definition fail_system :: "('v, 'rent, 'rb) system_interface \<Rightarrow> string \<Rightarrow> system_error \<Rightarrow> (invoke_context, 'a) ix" where
  "fail_system sys message e = log_and_fail message (instruction_error_of_system sys e)"

text \<open>A message that names an instruction account: its key is only looked up when there is a log to write to.\<close>

definition log_key_and_fail ::
  "string \<Rightarrow> (pubkey \<Rightarrow> string) \<Rightarrow> u16 \<Rightarrow> instruction_context \<Rightarrow> string \<Rightarrow> instruction_error \<Rightarrow> (invoke_context, 'a) ix" where
  "log_key_and_fail before show_key index ic after e =
    bindM (getsM log_collector) (\<lambda>log.
      if log = None then fail_with e
      else bindM (try_account (get_key_of_instruction_account index ic)) (\<lambda>key.
        log_and_fail (before @ show_key key @ after) e))"

definition quoted :: "string \<Rightarrow> string" where
  "quoted s = [CHR 0x27] @ s @ [CHR 0x27]"

section \<open>Accounts\<close>

definition address_is_signer :: "address \<Rightarrow> pubkey set \<Rightarrow> bool" where
  "address_is_signer a signers =
    (case adr_base a of Some base \<Rightarrow> base \<in> signers | None \<Rightarrow> adr_address a \<in> signers)"

definition address_create ::
  "('v, 'rent, 'rb) system_interface \<Rightarrow> runtime \<Rightarrow> pubkey \<Rightarrow> (pubkey \<times> string \<times> pubkey) option \<Rightarrow> (invoke_context, address) ix" where
  "address_create sys rt address with_seed =
    (case with_seed of
       Some (base, seed, new_owner) \<Rightarrow>
         (case create_with_seed sys base seed new_owner of
            Err e \<Rightarrow> fail_with (instruction_error_of_u64 rt e)
          | Ok address_with_seed \<Rightarrow>
              if address \<noteq> address_with_seed then
                fail_system sys
                  (''Create: address '' @ rt_show_key rt address @ '' does not match derived address '' @ rt_show_key rt address_with_seed)
                  AddressWithSeedMismatch
              else ret \<lparr>adr_address = address, adr_base = Some base\<rparr>)
     | None \<Rightarrow> ret \<lparr>adr_address = address, adr_base = None\<rparr>)"

definition allocate ::
  "('v, 'rent, 'rb) system_interface \<Rightarrow> borrowed_account \<Rightarrow> address \<Rightarrow> u64 \<Rightarrow> pubkey set \<Rightarrow> (invoke_context, unit) ix" where
  "allocate sys account address requested signers =
    (if \<not> address_is_signer address signers then
       log_and_fail (''Allocate: '' @ quoted ''to'' @ '' account '' @ show_address sys address @ '' must sign'') MissingRequiredSignature
     else bindM (on_account (\<lambda>tc. get_data account tc \<noteq> [] \<or> get_owner account tc \<noteq> system_program_id sys)) (\<lambda>in_use.
       if in_use then
         fail_system sys (''Allocate: account '' @ show_address sys address @ '' already in use'') AccountAlreadyInUse
       else if requested > max_permitted_data_length sys then
         fail_system sys (''Allocate: requested '' @ show_nat (unat requested) @ '', max allowed '' @ show_nat (unat (max_permitted_data_length sys)))
           InvalidAccountDataLength
       else on_transaction (set_data_length account (unat requested))))"

definition assign :: "('v, 'rent, 'rb) system_interface \<Rightarrow> borrowed_account \<Rightarrow> address \<Rightarrow> pubkey \<Rightarrow> pubkey set \<Rightarrow> (invoke_context, unit) ix" where
  "assign sys account address new_owner signers =
    bindM (on_account (get_owner account)) (\<lambda>current.
      if current = new_owner then ret ()
      else if \<not> address_is_signer address signers then
        log_and_fail (''Assign: account '' @ show_address sys address @ '' must sign'') MissingRequiredSignature
      else on_transaction (set_owner account new_owner))"

definition allocate_and_assign ::
  "('v, 'rent, 'rb) system_interface \<Rightarrow> borrowed_account \<Rightarrow> address \<Rightarrow> u64 \<Rightarrow> pubkey \<Rightarrow> pubkey set \<Rightarrow> (invoke_context, unit) ix" where
  "allocate_and_assign sys to to_address requested new_owner signers =
    seqM (allocate sys to to_address requested signers) (assign sys to to_address new_owner signers)"

definition transfer_verified ::
  "('v, 'rent, 'rb) system_interface \<Rightarrow> u16 \<Rightarrow> u16 \<Rightarrow> u64 \<Rightarrow> instruction_context \<Rightarrow> (invoke_context, unit) ix" where
  "transfer_verified sys from_account_index to_account_index amount ic =
    seqM
      (with_account from_account_index ic (\<lambda>from.
        bindM (on_account (get_data from)) (\<lambda>from_data.
          if from_data \<noteq> [] then log_and_fail ''Transfer: `from` must not carry data'' InvalidArgument
          else bindM (on_account (get_lamports from)) (\<lambda>balance.
            if amount > balance then
              fail_system sys (''Transfer: insufficient lamports '' @ show_nat (unat balance) @ '', need '' @ show_nat (unat amount))
                ResultWithNegativeLamports
            else on_transaction (checked_sub_lamports from amount)))))
      (with_account to_account_index ic (\<lambda>to. on_transaction (checked_add_lamports to amount)))"

definition transfer ::
  "('v, 'rent, 'rb) system_interface \<Rightarrow> runtime \<Rightarrow> u16 \<Rightarrow> u16 \<Rightarrow> u64 \<Rightarrow> instruction_context \<Rightarrow> (invoke_context, unit) ix" where
  "transfer sys rt from_account_index to_account_index amount ic =
    bindM (try_account (\<lambda>_. is_instruction_account_signer from_account_index ic)) (\<lambda>signed.
      if \<not> signed then
        log_key_and_fail ''Transfer: `from` account '' (rt_show_key rt) from_account_index ic '' must sign'' MissingRequiredSignature
      else transfer_verified sys from_account_index to_account_index amount ic)"

definition create_account ::
  "('v, 'rent, 'rb) system_interface \<Rightarrow> runtime \<Rightarrow> u16 \<Rightarrow> u16 \<Rightarrow> address \<Rightarrow> u64 \<Rightarrow> u64 \<Rightarrow> pubkey \<Rightarrow> pubkey set
    \<Rightarrow> instruction_context \<Rightarrow> (invoke_context, unit) ix" where
  "create_account sys rt from_account_index to_account_index to_address amount requested new_owner signers ic =
    seqM
      (with_account to_account_index ic (\<lambda>to.
        bindM (on_account (get_lamports to)) (\<lambda>balance.
          if balance > 0 then
            fail_system sys (''Create Account: account '' @ show_address sys to_address @ '' already in use'') AccountAlreadyInUse
          else allocate_and_assign sys to to_address requested new_owner signers)))
      (transfer sys rt from_account_index to_account_index amount ic)"

definition create_account_allow_prefund_fn ::
  "('v, 'rent, 'rb) system_interface \<Rightarrow> runtime \<Rightarrow> u16 \<Rightarrow> address \<Rightarrow> (u16 \<times> u64) option \<Rightarrow> u64 \<Rightarrow> pubkey \<Rightarrow> pubkey set
    \<Rightarrow> instruction_context \<Rightarrow> (invoke_context, unit) ix" where
  "create_account_allow_prefund_fn sys rt to_account_index to_address from_and_lamports requested new_owner signers ic =
    seqM (with_account to_account_index ic (\<lambda>to. allocate_and_assign sys to to_address requested new_owner signers))
      (case from_and_lamports of
         Some (from_account_index, amount) \<Rightarrow>
           if amount > 0 then transfer sys rt from_account_index to_account_index amount ic else ret ()
       | None \<Rightarrow> ret ())"

definition transfer_with_seed ::
  "('v, 'rent, 'rb) system_interface \<Rightarrow> runtime \<Rightarrow> u16 \<Rightarrow> u16 \<Rightarrow> string \<Rightarrow> pubkey \<Rightarrow> u16 \<Rightarrow> u64 \<Rightarrow> instruction_context
    \<Rightarrow> (invoke_context, unit) ix" where
  "transfer_with_seed sys rt from_account_index from_base_account_index from_seed from_owner to_account_index amount ic =
    bindM (try_account (\<lambda>_. is_instruction_account_signer from_base_account_index ic)) (\<lambda>signed.
      if \<not> signed then
        log_key_and_fail (''Transfer: '' @ quoted ''from'' @ '' account '') (debug_key sys) from_base_account_index ic '' must sign''
          MissingRequiredSignature
      else bindM (try_account (get_key_of_instruction_account from_base_account_index ic)) (\<lambda>base.
        case create_with_seed sys base from_seed from_owner of
          Err e \<Rightarrow> fail_with (instruction_error_of_u64 rt e)
        | Ok address_from_seed \<Rightarrow>
            bindM (try_account (get_key_of_instruction_account from_account_index ic)) (\<lambda>from_key.
              if from_key \<noteq> address_from_seed then
                fail_system sys (''Transfer: '' @ quoted ''from'' @ '' address '' @ rt_show_key rt from_key
                    @ '' does not match derived address '' @ rt_show_key rt address_from_seed) AddressWithSeedMismatch
              else transfer_verified sys from_account_index to_account_index amount ic)))"

section \<open>Nonce accounts\<close>

definition nonce_checked_add :: "u64 \<Rightarrow> u64 \<Rightarrow> (u64, instruction_error failure) result" where
  "nonce_checked_add a b = ok_or (Fail InsufficientFunds) (checked_add a b)"

text \<open>A message that names the borrowed account.\<close>

definition log_account_and_fail ::
  "string \<Rightarrow> runtime \<Rightarrow> borrowed_account \<Rightarrow> string \<Rightarrow> instruction_error \<Rightarrow> (invoke_context, 'a) ix" where
  "log_account_and_fail before rt account after e =
    bindM (getsM log_collector) (\<lambda>log.
      if log = None then fail_with e
      else bindM (try_account (get_key account)) (\<lambda>key. log_and_fail (before @ rt_show_key rt key @ after) e))"

definition next_nonce_data ::
  "('v, 'rent, 'rb) system_interface \<Rightarrow> ('sh, 'st, 'fees, 'rb) environment_config \<Rightarrow> pubkey \<Rightarrow> nonce_data" where
  "next_nonce_data sys env authority =
    \<lparr>nonce_authority = authority, durable_nonce = durable_nonce_from_blockhash sys (blockhash env),
     nonce_lamports_per_signature = blockhash_lamports_per_signature env\<rparr>"

definition advance_nonce_account ::
  "('v, 'rent, 'rb) system_interface \<Rightarrow> runtime \<Rightarrow> ('sh, 'st, 'fees, 'rb) environment_config \<Rightarrow> borrowed_account \<Rightarrow> pubkey set
    \<Rightarrow> (invoke_context, unit) ix" where
  "advance_nonce_account sys rt env account signers =
    (if \<not> is_writable (ba_account account) then
       log_account_and_fail ''Advance nonce account: Account '' rt account '' must be writeable'' InvalidArgument
     else bindM (try_account (get_state (decode_versions sys) account)) (\<lambda>state.
       case versions_state sys state of
         Initialized d \<Rightarrow>
           if nonce_authority d \<notin> signers then
             log_and_fail (''Advance nonce account: Account '' @ rt_show_key rt (nonce_authority d) @ '' must be a signer'')
               MissingRequiredSignature
           else if durable_nonce d = durable_nonce_from_blockhash sys (blockhash env) then
             fail_system sys ''Advance nonce account: nonce can only advance once per slot'' NonceBlockhashNotExpired
           else on_transaction (set_state (encode_versions sys) account
             (versions_new sys (Initialized (next_nonce_data sys env (nonce_authority d)))))
       | Uninitialized \<Rightarrow>
           log_account_and_fail ''Advance nonce account: Account '' rt account '' state is invalid'' InvalidAccountData))"

definition withdraw_signer ::
  "('v, 'rent, 'rb) system_interface \<Rightarrow> ('sh, 'st, 'fees, 'rb) environment_config \<Rightarrow> 'rent \<Rightarrow> borrowed_account \<Rightarrow> u64 \<Rightarrow> nonce_state
    \<Rightarrow> (invoke_context, pubkey) ix" where
  "withdraw_signer sys env rent from amount state =
    bindM (on_account (get_lamports from)) (\<lambda>balance.
      case state of
        Uninitialized \<Rightarrow>
          if amount > balance then
            log_and_fail (''Withdraw nonce account: insufficient lamports '' @ show_nat (unat balance) @ '', need '' @ show_nat (unat amount))
              InsufficientFunds
          else try_account (get_key from)
      | Initialized d \<Rightarrow>
          seqM
            (if amount = balance then
               if durable_nonce d = durable_nonce_from_blockhash sys (blockhash env) then
                 fail_system sys ''Withdraw nonce account: nonce can only advance once per slot'' NonceBlockhashNotExpired
               else on_transaction (set_state (encode_versions sys) from (versions_new sys Uninitialized))
             else
               bindM (on_account (\<lambda>tc. minimum_balance sys rent (length (get_data from tc)))) (\<lambda>min_balance.
                 bindM (try_account (\<lambda>_. nonce_checked_add amount min_balance)) (\<lambda>needed.
                   if needed > balance then
                     log_and_fail (''Withdraw nonce account: insufficient lamports '' @ show_nat (unat balance)
                         @ '', need '' @ show_nat (unat needed)) InsufficientFunds
                   else ret ())))
            (ret (nonce_authority d)))"

definition withdraw_nonce_account ::
  "('v, 'rent, 'rb) system_interface \<Rightarrow> runtime \<Rightarrow> ('sh, 'st, 'fees, 'rb) environment_config \<Rightarrow> u16 \<Rightarrow> u64 \<Rightarrow> u16 \<Rightarrow> 'rent
    \<Rightarrow> pubkey set \<Rightarrow> instruction_context \<Rightarrow> (invoke_context, unit) ix" where
  "withdraw_nonce_account sys rt env from_account_index amount to_account_index rent signers ic =
    seqM
      (with_account from_account_index ic (\<lambda>from.
        if \<not> is_writable (ba_account from) then
          log_account_and_fail ''Withdraw nonce account: Account '' rt from '' must be writeable'' InvalidArgument
        else bindM (try_account (get_state (decode_versions sys) from)) (\<lambda>state.
          bindM (withdraw_signer sys env rent from amount (versions_state sys state)) (\<lambda>signer.
            if signer \<notin> signers then
              log_and_fail (''Withdraw nonce account: Account '' @ rt_show_key rt signer @ '' must sign'') MissingRequiredSignature
            else on_transaction (checked_sub_lamports from amount)))))
      (with_account to_account_index ic (\<lambda>to. on_transaction (checked_add_lamports to amount)))"

definition initialize_nonce_account ::
  "('v, 'rent, 'rb) system_interface \<Rightarrow> runtime \<Rightarrow> ('sh, 'st, 'fees, 'rb) environment_config \<Rightarrow> borrowed_account \<Rightarrow> pubkey \<Rightarrow> 'rent
    \<Rightarrow> (invoke_context, unit) ix" where
  "initialize_nonce_account sys rt env account authority rent =
    (if \<not> is_writable (ba_account account) then
       log_account_and_fail ''Initialize nonce account: Account '' rt account '' must be writeable'' InvalidArgument
     else bindM (try_account (get_state (decode_versions sys) account)) (\<lambda>state.
       case versions_state sys state of
         Uninitialized \<Rightarrow>
           bindM (on_account (\<lambda>tc. minimum_balance sys rent (length (get_data account tc)))) (\<lambda>min_balance.
             bindM (on_account (get_lamports account)) (\<lambda>balance.
               if balance < min_balance then
                 log_and_fail (''Initialize nonce account: insufficient lamports '' @ show_nat (unat balance)
                     @ '', need '' @ show_nat (unat min_balance)) InsufficientFunds
               else on_transaction (set_state (encode_versions sys) account
                 (versions_new sys (Initialized (next_nonce_data sys env authority))))))
       | Initialized _ \<Rightarrow>
           log_account_and_fail ''Initialize nonce account: Account '' rt account '' state is invalid'' InvalidAccountData))"

definition authorize_nonce_account ::
  "('v, 'rent, 'rb) system_interface \<Rightarrow> runtime \<Rightarrow> borrowed_account \<Rightarrow> pubkey \<Rightarrow> pubkey set \<Rightarrow> (invoke_context, unit) ix" where
  "authorize_nonce_account sys rt account authority signers =
    (if \<not> is_writable (ba_account account) then
       log_account_and_fail ''Authorize nonce account: Account '' rt account '' must be writeable'' InvalidArgument
     else bindM (try_account (get_state (decode_versions sys) account)) (\<lambda>state.
       case versions_authorize sys state signers authority of
         Ok versions \<Rightarrow> on_transaction (set_state (encode_versions sys) account versions)
       | Err Nonce_uninitialized \<Rightarrow>
           log_account_and_fail ''Authorize nonce account: Account '' rt account '' state is invalid'' InvalidAccountData
       | Err (Nonce_missing_signature account_authority) \<Rightarrow>
           log_and_fail (''Authorize nonce account: Account '' @ rt_show_key rt account_authority @ '' must sign'')
             MissingRequiredSignature))"

definition upgrade_nonce_account :: "('v, 'rent, 'rb) system_interface \<Rightarrow> borrowed_account \<Rightarrow> (invoke_context, unit) ix" where
  "upgrade_nonce_account sys account =
    bindM (on_account (get_owner account)) (\<lambda>current.
      if current \<noteq> system_program_id sys then fail_with InvalidAccountOwner
      else if \<not> is_writable (ba_account account) then fail_with InvalidArgument
      else bindM (try_account (get_state (decode_versions sys) account)) (\<lambda>state.
        case versions_upgrade sys state of
          None \<Rightarrow> fail_with InvalidArgument
        | Some versions \<Rightarrow> on_transaction (set_state (encode_versions sys) account versions)))"

section \<open>The entry point\<close>

text \<open>The arms of the entry point that take an account, with the address it was given or derived from a seed.\<close>

definition with_address ::
  "('v, 'rent, 'rb) system_interface \<Rightarrow> runtime \<Rightarrow> u16 \<Rightarrow> (pubkey \<times> string \<times> pubkey) option \<Rightarrow> instruction_context
    \<Rightarrow> (address \<Rightarrow> (invoke_context, 'a) ix) \<Rightarrow> (invoke_context, 'a) ix" where
  "with_address sys rt index with_seed ic body =
    bindM (try_account (get_key_of_instruction_account index ic)) (\<lambda>key. bindM (address_create sys rt key with_seed) body)"

definition check_accounts :: "u16 \<Rightarrow> instruction_context \<Rightarrow> (invoke_context, unit) ix" where
  "check_accounts n ic = try_account (\<lambda>_. check_number_of_instruction_accounts n ic)"

definition process_create_account where
  "process_create_account sys rt with_seed amount requested new_owner signers ic =
    seqM (check_accounts 2 ic)
      (with_address sys rt 1 with_seed ic (\<lambda>to_address.
        create_account sys rt 0 1 to_address amount requested new_owner signers ic))"

definition process_assign where
  "process_assign sys rt with_seed new_owner signers ic =
    seqM (check_accounts 1 ic)
      (with_account 0 ic (\<lambda>account.
        with_address sys rt 0 with_seed ic (\<lambda>address. assign sys account address new_owner signers)))"

definition process_allocate where
  "process_allocate sys rt requested signers ic =
    seqM (check_accounts 1 ic)
      (with_account 0 ic (\<lambda>account.
        with_address sys rt 0 None ic (\<lambda>address. allocate sys account address requested signers)))"

definition process_allocate_with_seed where
  "process_allocate_with_seed sys rt base seed requested new_owner signers ic =
    seqM (check_accounts 1 ic)
      (with_account 0 ic (\<lambda>account.
        with_address sys rt 0 (Some (base, seed, new_owner)) ic (\<lambda>address.
          allocate_and_assign sys account address requested new_owner signers)))"

definition process_create_account_allow_prefund where
  "process_create_account_allow_prefund sys rt env amount requested new_owner signers ic =
    (if \<not> create_account_allow_prefund (env_features env) then fail_with InvalidInstructionData
     else bindM (if amount > 0 then seqM (check_accounts 2 ic) (ret (Some (1, amount)))
                 else seqM (check_accounts 1 ic) (ret None)) (\<lambda>from_and_lamports.
       with_address sys rt 0 None ic (\<lambda>to_address.
         create_account_allow_prefund_fn sys rt 0 to_address from_and_lamports requested new_owner signers ic)))"

definition process_advance_nonce where
  "process_advance_nonce sys sv rt env signers ic =
    seqM (check_accounts 1 ic)
      (with_account 0 ic (\<lambda>me.
        bindM (try_account (checked_recent_blockhashes sv env ic 1)) (\<lambda>recent_blockhashes.
          if blockhashes_is_empty sys recent_blockhashes then
            fail_system sys ''Advance nonce account: recent blockhash list is empty'' NonceNoRecentBlockhashes
          else advance_nonce_account sys rt env me signers)))"

definition process_withdraw_nonce where
  "process_withdraw_nonce sys sv rt env amount signers ic =
    seqM (check_accounts 2 ic)
      (seqM (try_account (checked_recent_blockhashes sv env ic 2))
        (bindM (try_account (checked_rent sv env ic 3)) (\<lambda>rent.
          withdraw_nonce_account sys rt env 0 amount 1 rent signers ic)))"

definition process_initialize_nonce where
  "process_initialize_nonce sys sv rt env authorized ic =
    seqM (check_accounts 1 ic)
      (with_account 0 ic (\<lambda>me.
        bindM (try_account (checked_recent_blockhashes sv env ic 1)) (\<lambda>recent_blockhashes.
          if blockhashes_is_empty sys recent_blockhashes then
            fail_system sys ''Initialize nonce account: recent blockhash list is empty'' NonceNoRecentBlockhashes
          else bindM (try_account (checked_rent sv env ic 2)) (\<lambda>rent.
            initialize_nonce_account sys rt env me authorized rent))))"

definition process_system_instruction where
  "process_system_instruction sys sv rt env instruction signers ic =
    (case instruction of
       CreateAccount amount requested new_owner \<Rightarrow> process_create_account sys rt None amount requested new_owner signers ic
     | CreateAccountWithSeed base seed amount requested new_owner \<Rightarrow>
         process_create_account sys rt (Some (base, seed, new_owner)) amount requested new_owner signers ic
     | Assign new_owner \<Rightarrow> process_assign sys rt None new_owner signers ic
     | Transfer amount \<Rightarrow> seqM (check_accounts 2 ic) (transfer sys rt 0 1 amount ic)
     | TransferWithSeed amount from_seed from_owner \<Rightarrow>
         seqM (check_accounts 3 ic) (transfer_with_seed sys rt 0 1 from_seed from_owner 2 amount ic)
     | AdvanceNonceAccount \<Rightarrow> process_advance_nonce sys sv rt env signers ic
     | WithdrawNonceAccount amount \<Rightarrow> process_withdraw_nonce sys sv rt env amount signers ic
     | InitializeNonceAccount authorized \<Rightarrow> process_initialize_nonce sys sv rt env authorized ic
     | AuthorizeNonceAccount authority \<Rightarrow>
         seqM (check_accounts 1 ic) (with_account 0 ic (\<lambda>me. authorize_nonce_account sys rt me authority signers))
     | UpgradeNonceAccount \<Rightarrow> seqM (check_accounts 1 ic) (with_account 0 ic (upgrade_nonce_account sys))
     | Allocate requested \<Rightarrow> process_allocate sys rt requested signers ic
     | AllocateWithSeed base seed requested new_owner \<Rightarrow> process_allocate_with_seed sys rt base seed requested new_owner signers ic
     | AssignWithSeed base seed new_owner \<Rightarrow> process_assign sys rt (Some (base, seed, new_owner)) new_owner signers ic
     | CreateAccountAllowPrefund amount requested new_owner \<Rightarrow>
         process_create_account_allow_prefund sys rt env amount requested new_owner signers ic)"

definition DEFAULT_COMPUTE_UNITS :: u64 where
  "DEFAULT_COMPUTE_UNITS = 150"

definition system_process where
  "system_process sys sv rt env =
    bindM (try_account get_current_instruction_context) (\<lambda>ic.
      bindM (liftR (\<lambda>_. case decode_instruction sys (ic_data ic) of Ok i \<Rightarrow> Ok i | Err e \<Rightarrow> Err (Fail e))) (\<lambda>instruction.
        bindM (try_account (get_signers ic)) (\<lambda>signers.
          process_system_instruction sys sv rt env instruction signers ic)))"

definition system_entrypoint where
  "system_entrypoint sys sv rt env = declare_process_instruction DEFAULT_COMPUTE_UNITS (system_process sys sv rt env)"

section \<open>Lemmas\<close>

lemma messages_steady [steady_rules]:
  "steady sysvar B (fail_system sys message e)"
  "steady sysvar B (log_key_and_fail before show_key index ic after i)"
  "steady sysvar B (log_account_and_fail before rt account after i)"
  "steady sysvar B (address_create sys rt key with_seed)"
  "steady sysvar B (check_accounts n ic)"
  unfolding fail_system_def log_key_and_fail_def log_account_and_fail_def address_create_def check_accounts_def
  by (intro steady_rules)+

lemma with_address_steady [steady_rules]:
  "(\<And>a. steady sysvar B (body a)) \<Longrightarrow> steady sysvar B (with_address sys rt index with_seed ic body)"
  unfolding with_address_def by (intro steady_rules)

lemma accounts_steady [steady_rules]:
  "b \<in> B \<Longrightarrow> steady sysvar B (allocate sys b address requested signers)"
  "b \<in> B \<Longrightarrow> steady sysvar B (assign sys b address new_owner signers)"
  "b \<in> B \<Longrightarrow> steady sysvar B (allocate_and_assign sys b address requested new_owner signers)"
  "steady sysvar B (transfer_verified sys from to amount ic)"
  "steady sysvar B (transfer sys rt from to amount ic)"
  unfolding allocate_def assign_def allocate_and_assign_def transfer_def transfer_verified_def
  by (intro steady_rules; simp)+

lemma creation_steady [steady_rules]:
  "steady sysvar B (create_account sys rt from to address amount requested new_owner signers ic)"
  "steady sysvar B (create_account_allow_prefund_fn sys rt to address from_and_lamports requested new_owner signers ic)"
  "steady sysvar B (transfer_with_seed sys rt from base seed from_owner to amount ic)"
  unfolding create_account_def create_account_allow_prefund_fn_def transfer_with_seed_def
  by (intro steady_rules; simp)+

lemma steady_nonce_state [steady_rules]:
  "(\<And>d. steady sysvar B (f d)) \<Longrightarrow> steady sysvar B m \<Longrightarrow> steady sysvar B (case s of Uninitialized \<Rightarrow> m | Initialized d \<Rightarrow> f d)"
  "steady sysvar B n \<Longrightarrow> (\<And>k. steady sysvar B (g k)) \<Longrightarrow>
    steady sysvar B (case e of Nonce_uninitialized \<Rightarrow> n | Nonce_missing_signature k \<Rightarrow> g k)"
  by (auto split: nonce_state.split authorize_nonce_error.split)

lemma nonce_steady [steady_rules]:
  "b \<in> B \<Longrightarrow> steady sysvar B (advance_nonce_account sys rt env b signers)"
  "b \<in> B \<Longrightarrow> steady sysvar B (initialize_nonce_account sys rt env b authority rent)"
  "b \<in> B \<Longrightarrow> steady sysvar B (authorize_nonce_account sys rt b authority signers)"
  "b \<in> B \<Longrightarrow> steady sysvar B (upgrade_nonce_account sys b)"
  "b \<in> B \<Longrightarrow> steady sysvar B (withdraw_signer sys env rent b amount state)"
  unfolding advance_nonce_account_def initialize_nonce_account_def authorize_nonce_account_def upgrade_nonce_account_def withdraw_signer_def
  by (intro steady_rules; simp)+

lemma withdraw_steady [steady_rules]:
  "steady sysvar B (withdraw_nonce_account sys rt env from amount to rent signers ic)"
  unfolding withdraw_nonce_account_def by (intro steady_rules; simp)

lemma arms_steady [steady_rules]:
  "steady sysvar B (process_create_account sys rt with_seed amount requested new_owner signers ic)"
  "steady sysvar B (process_assign sys rt with_seed new_owner signers ic)"
  "steady sysvar B (process_allocate sys rt requested signers ic)"
  "steady sysvar B (process_allocate_with_seed sys rt base seed requested new_owner signers ic)"
  "steady sysvar B (process_create_account_allow_prefund sys rt env amount requested new_owner signers ic)"
  "steady sysvar B (process_advance_nonce sys sv rt env signers ic)"
  "steady sysvar B (process_withdraw_nonce sys sv rt env amount signers ic)"
  "steady sysvar B (process_initialize_nonce sys sv rt env authority ic)"
  unfolding process_create_account_def process_assign_def process_allocate_def process_allocate_with_seed_def
    process_create_account_allow_prefund_def process_advance_nonce_def process_withdraw_nonce_def process_initialize_nonce_def
  by (intro steady_rules; simp)+

lemma system_process_steady: "steady sysvar B (system_process sys sv rt env)"
  unfolding system_process_def process_system_instruction_def
  by (auto intro!: steady_rules split: system_instruction.split)

lemma system_entrypoint_steady: "steady sysvar B (system_entrypoint sys sv rt env)"
  unfolding system_entrypoint_def by (intro declare_steady system_process_steady)

end
