(* ===== verification/Svm_Loader.thy ===== *)
theory Svm_Loader
  imports Svm_Transaction Rt_Budget Prog_System
begin

text \<open>
  Loading the accounts of a transaction: \<^verbatim>\<open>rent_calculator.rs\<close>, \<^verbatim>\<open>account_overrides.rs\<close>, \<^verbatim>\<open>nonce_info.rs\<close>,
  \<^verbatim>\<open>rollback_accounts.rs\<close> and \<^verbatim>\<open>account_loader.rs\<close> of \<^verbatim>\<open>src/svm/src\<close>. The accounts database is the callback
  \<open>get_account_shared_data\<close> of the record \<open>loader_interface\<close>, which also has the decoders, well-known keys and the rent of other packages.
  Inspections of accounts by the callback are kept as a trace; counters of error metrics are left out.
\<close>

section \<open>Definitions\<close>

subsection \<open>Interface to other packages\<close>

datatype system_account_kind = System_kind | Nonce_kind

record loader_interface =
  get_account_shared_data :: "pubkey \<Rightarrow> (account_shared_data \<times> u64) option"
  get_system_account_kind :: "account_shared_data \<Rightarrow> system_account_kind option"
  is_exempt :: "u64 \<Rightarrow> nat \<Rightarrow> bool"
  rent_minimum_balance :: "nat \<Rightarrow> u64"
  nonce_size :: nat
  incinerator_id :: pubkey
  slot_history_id :: pubkey
  instructions_sysvar_id :: pubkey
  sysvar_owner_id :: pubkey
  upgradeable_loader_key :: pubkey
  native_loader_key :: pubkey
  PROGRAM_OWNERS :: "pubkey list"
  programdata_address_of :: "bytes \<Rightarrow> pubkey option"
  construct_instructions_data :: "(pubkey \<times> (pubkey \<times> bool \<times> bool) list \<times> bytes) list \<Rightarrow> bytes"

definition default_account :: account_shared_data where
  "default_account = \<lparr>lamports = 0, data = [], owner = replicate 32 0, executable_flag = False, rent_epoch = 0\<rparr>"

definition usize_saturating :: "nat \<Rightarrow> nat" where
  "usize_saturating n = min n (2 ^ 64 - 1)"

subsection \<open>Rent states\<close>

definition RENT_EXEMPT_RENT_EPOCH :: u64 where
  "RENT_EXEMPT_RENT_EPOCH = - 1"

datatype rent_state = RentUninitialized | RentPaying u64 nat | RentExempt

definition transition_allowed :: "rent_state \<Rightarrow> rent_state \<Rightarrow> bool" where
  "transition_allowed pre post =
    (case post of
       RentUninitialized \<Rightarrow> True
     | RentExempt \<Rightarrow> True
     | RentPaying post_lamports post_data_size \<Rightarrow>
         (case pre of
            RentUninitialized \<Rightarrow> False
          | RentExempt \<Rightarrow> False
          | RentPaying pre_lamports pre_data_size \<Rightarrow> post_data_size = pre_data_size \<and> post_lamports \<le> pre_lamports))"

definition get_account_rent_state :: "loader_interface \<Rightarrow> u64 \<Rightarrow> nat \<Rightarrow> rent_state" where
  "get_account_rent_state li account_lamports account_size =
    (if account_lamports = 0 then RentUninitialized
     else if is_exempt li account_lamports account_size then RentExempt
     else RentPaying account_lamports account_size)"

definition check_rent_state_with_account ::
  "loader_interface \<Rightarrow> rent_state \<Rightarrow> rent_state \<Rightarrow> pubkey \<Rightarrow> u16 \<Rightarrow> (unit, transaction_error failure) result" where
  "check_rent_state_with_account li pre post key account_index =
    (if key \<noteq> incinerator_id li \<and> \<not> transition_allowed pre post then Err (Fail (InsufficientFundsForRent (ucast account_index)))
     else Ok ())"

definition check_rent_state ::
  "loader_interface \<Rightarrow> rent_state option \<Rightarrow> rent_state option \<Rightarrow> transaction_context \<Rightarrow> u16 \<Rightarrow> (unit, transaction_error failure) result" where
  "check_rent_state li pre post tc index =
    (case (pre, post) of
       (Some pre, Some post) \<Rightarrow>
         (case get_key_of_account_at_index index tc of
            Ok key \<Rightarrow> check_rent_state_with_account li pre post key index
          | Err _ \<Rightarrow> Err Panic)
     | _ \<Rightarrow> Ok ())"

subsection \<open>Account overrides\<close>

type_synonym account_overrides = "pubkey \<rightharpoonup> account_shared_data"

definition set_account_override :: "pubkey \<Rightarrow> account_shared_data option \<Rightarrow> account_overrides \<Rightarrow> account_overrides" where
  "set_account_override pubkey account ovr = ovr(pubkey := account)"

definition set_slot_history :: "loader_interface \<Rightarrow> account_shared_data option \<Rightarrow> account_overrides \<Rightarrow> account_overrides" where
  "set_slot_history li slot_history = set_account_override (slot_history_id li) slot_history"

definition override_get :: "account_overrides \<Rightarrow> pubkey \<Rightarrow> account_shared_data option" where
  "override_get ovr pubkey = ovr pubkey"

subsection \<open>Nonce information and rollback accounts\<close>

record nonce_info =
  ni_address :: pubkey
  ni_account :: account_shared_data

datatype advance_nonce_error = AdvanceInvalid | AdvanceUninitialized

text \<open>\<open>nonce_state_of\<close> and \<open>nonce_set_state\<close> stand for the codec of nonce accounts.\<close>

definition try_advance_nonce ::
  "(bytes \<Rightarrow> nonce_state option) \<Rightarrow> (nonce_state \<Rightarrow> account_shared_data \<Rightarrow> account_shared_data option) \<Rightarrow> bytes \<Rightarrow> u64 \<Rightarrow>
     (nonce_info, unit, advance_nonce_error failure) sm" where
  "try_advance_nonce nonce_state_of nonce_set_state nonce fee_rate =
    bindM (getsM (\<lambda>ni. nonce_state_of (data (ni_account ni)))) (\<lambda>versions.
      case versions of
        None \<Rightarrow> throw (Fail AdvanceInvalid)
      | Some (Initialized nd) \<Rightarrow>
          bindM (liftR (\<lambda>ni. unwrap (nonce_set_state
                   (Initialized \<lparr>nonce_authority = nonce_authority nd, durable_nonce = nonce, nonce_lamports_per_signature = fee_rate\<rparr>)
                   (ni_account ni))))
            (\<lambda>acc. modifyM (\<lambda>ni. ni\<lparr>ni_account := acc\<rparr>))
      | Some Uninitialized \<Rightarrow> throw (Fail AdvanceUninitialized))"

type_synonym keyed_account = "pubkey \<times> account_shared_data"

datatype rollback_accounts =
    FeePayerOnly keyed_account
  | SameNonceAndFeePayer keyed_account
  | SeparateNonceAndFeePayer keyed_account keyed_account

definition rollback_accounts_new :: "nonce_info option \<Rightarrow> pubkey \<Rightarrow> account_shared_data \<Rightarrow> u64 \<Rightarrow> rollback_accounts" where
  "rollback_accounts_new nonce payer_address payer_account payer_loaded_rent_epoch =
    (case nonce of
       Some nonce \<Rightarrow>
         if payer_address = ni_address nonce then
           SameNonceAndFeePayer (payer_address, payer_account\<lparr>data := data (ni_account nonce)\<rparr>)
         else SeparateNonceAndFeePayer (ni_address nonce, ni_account nonce) (payer_address, payer_account)
     | None \<Rightarrow> FeePayerOnly (payer_address, payer_account\<lparr>rent_epoch := payer_loaded_rent_epoch\<rparr>))"

definition rollback_fee_payer :: "rollback_accounts \<Rightarrow> keyed_account" where
  "rollback_fee_payer self =
    (case self of FeePayerOnly fp \<Rightarrow> fp | SameNonceAndFeePayer nonce \<Rightarrow> nonce | SeparateNonceAndFeePayer _ fp \<Rightarrow> fp)"

definition rollback_count :: "rollback_accounts \<Rightarrow> nat" where
  "rollback_count self = (case self of FeePayerOnly _ \<Rightarrow> 1 | SameNonceAndFeePayer _ \<Rightarrow> 1 | SeparateNonceAndFeePayer _ _ \<Rightarrow> 2)"

record rollback_accounts_iter =
  it_fee_payer :: "keyed_account option"
  it_nonce :: "keyed_account option"

definition rollback_iter :: "rollback_accounts \<Rightarrow> rollback_accounts_iter" where
  "rollback_iter self =
    (case self of
       FeePayerOnly fp \<Rightarrow> \<lparr>it_fee_payer = Some fp, it_nonce = None\<rparr>
     | SameNonceAndFeePayer nonce \<Rightarrow> \<lparr>it_fee_payer = None, it_nonce = Some nonce\<rparr>
     | SeparateNonceAndFeePayer nonce fp \<Rightarrow> \<lparr>it_fee_payer = Some fp, it_nonce = Some nonce\<rparr>)"

definition iter_next :: "rollback_accounts_iter \<Rightarrow> keyed_account option \<times> rollback_accounts_iter" where
  "iter_next self =
    (case it_fee_payer self of
       Some fp \<Rightarrow> (Some fp, self\<lparr>it_fee_payer := None\<rparr>)
     | None \<Rightarrow> (case it_nonce self of
         Some nonce \<Rightarrow> (Some nonce, self\<lparr>it_nonce := None\<rparr>)
       | None \<Rightarrow> (None, self)))"

text \<open>What a loop over the iterator sees: the items until \<open>iter_next\<close> gives none.\<close>

function iter_items :: "rollback_accounts_iter \<Rightarrow> keyed_account list" where
  "iter_items it = (case iter_next it of (Some item, rest) \<Rightarrow> item # iter_items rest | (None, _) \<Rightarrow> [])"
  by pat_completeness auto
termination
  by (relation "measure (\<lambda>it. (if it_fee_payer it = None then 0 else 1) + (if it_nonce it = None then 0 else (1 :: nat)))")
    (auto simp: iter_next_def split: option.splits)

declare iter_items.simps [simp del]

definition rollback_data_size :: "rollback_accounts \<Rightarrow> nat" where
  "rollback_data_size self =
    foldl (\<lambda>total (_, acc). usize_saturating (total + length (data acc))) 0 (iter_items (rollback_iter self))"

subsection \<open>The account loader\<close>

definition TRANSACTION_ACCOUNT_BASE_SIZE :: nat where
  "TRANSACTION_ACCOUNT_BASE_SIZE = 64"

definition ADDRESS_LOOKUP_TABLE_BASE_SIZE :: nat where
  "ADDRESS_LOOKUP_TABLE_BASE_SIZE = 8248"

record account_loader =
  loaded_accounts :: "pubkey \<rightharpoonup> account_shared_data \<times> u64"
  inspected :: "(pubkey \<times> account_shared_data option \<times> bool) list"

record loaded_transaction_account =
  lta_account :: account_shared_data
  lta_loaded_size :: nat

definition loader_insert :: "pubkey \<Rightarrow> account_shared_data \<times> u64 \<Rightarrow> account_loader \<Rightarrow> account_loader" where
  "loader_insert key entry l = l\<lparr>loaded_accounts := (loaded_accounts l)(key \<mapsto> entry)\<rparr>"

definition new_with_loaded_accounts_capacity :: "loader_interface \<Rightarrow> account_overrides option \<Rightarrow> account_loader" where
  "new_with_loaded_accounts_capacity li overrides =
    (let l = \<lparr>loaded_accounts = Map.empty, inspected = []\<rparr>
     in case Option.bind overrides (\<lambda>ovr. override_get ovr (slot_history_id li)) of
          Some slot_history \<Rightarrow> loader_insert (slot_history_id li) (slot_history, 0) l
        | None \<Rightarrow> l)"

definition do_load :: "loader_interface \<Rightarrow> account_loader \<Rightarrow> pubkey \<Rightarrow> (account_shared_data \<times> u64) option \<times> bool" where
  "do_load li l key =
    (case loaded_accounts l key of
       Some (acc, slot) \<Rightarrow> (if lamports acc = 0 then None else Some (acc, slot), False)
     | None \<Rightarrow> (case get_account_shared_data li key of
         Some (acc, slot) \<Rightarrow> (Some (acc, slot), True)
       | None \<Rightarrow> (None, True)))"

definition load_account :: "loader_interface \<Rightarrow> pubkey \<Rightarrow> account_loader \<Rightarrow> account_shared_data option \<times> account_loader" where
  "load_account li key l =
    (case do_load li l key of
       (Some (acc, _), False) \<Rightarrow> (Some acc, l)
     | (None, False) \<Rightarrow> (None, l)
     | (Some (acc, slot), True) \<Rightarrow> (Some acc, loader_insert key (acc, slot) l)
     | (None, True) \<Rightarrow> (None, loader_insert key (default_account, 0) l))"

text \<open>\<open>AccountLoader::load_transaction_account\<close>; the free function of that name is \<open>load_transaction_account\<close> below.\<close>

definition loader_load_transaction_account ::
  "loader_interface \<Rightarrow> pubkey \<Rightarrow> bool \<Rightarrow> account_loader \<Rightarrow> loaded_transaction_account option \<times> account_loader" where
  "loader_load_transaction_account li key for_writing l =
    (let (acc, l) = load_account li key l; l = l\<lparr>inspected := inspected l @ [(key, acc, for_writing)]\<rparr>
     in (map_option (\<lambda>acc. \<lparr>lta_account = acc,
           lta_loaded_size = usize_saturating (TRANSACTION_ACCOUNT_BASE_SIZE + length (data acc))\<rparr>) acc, l))"

definition update_accounts_for_failed_tx :: "rollback_accounts \<Rightarrow> u64 \<Rightarrow> account_loader \<Rightarrow> account_loader" where
  "update_accounts_for_failed_tx rollback current_slot =
    fold (\<lambda>(key, acc). loader_insert key (acc, current_slot)) (iter_items (rollback_iter rollback))"

definition update_accounts_for_successful_tx ::
  "svm_transaction \<Rightarrow> keyed_account list \<Rightarrow> u64 \<Rightarrow> account_loader \<Rightarrow> account_loader" where
  "update_accounts_for_successful_tx tx transaction_accounts current_slot =
    fold (\<lambda>(i, key, acc) l.
        if \<not> message_is_writable tx i then l
        else if tx_is_invoked tx i \<and> \<not> is_instruction_account tx i then l
        else loader_insert key (acc, current_slot) l)
      (zip [0..<length (tx_account_keys tx)] transaction_accounts)"

definition update_rent_exempt_status_for_account :: "loader_interface \<Rightarrow> account_shared_data \<Rightarrow> account_shared_data" where
  "update_rent_exempt_status_for_account li acc =
    (if rent_epoch acc \<noteq> RENT_EXEMPT_RENT_EPOCH \<and> is_exempt li (lamports acc) (length (data acc))
     then acc\<lparr>rent_epoch := RENT_EXEMPT_RENT_EPOCH\<rparr> else acc)"

subsection \<open>The fee payer\<close>

definition fee_payer_min_balance :: "loader_interface \<Rightarrow> system_account_kind \<Rightarrow> u64" where
  "fee_payer_min_balance li kind = (case kind of System_kind \<Rightarrow> 0 | Nonce_kind \<Rightarrow> rent_minimum_balance li (nonce_size li))"

definition validate_fee_payer ::
  "loader_interface \<Rightarrow> pubkey \<Rightarrow> u16 \<Rightarrow> u64 \<Rightarrow> (account_shared_data, unit, transaction_error failure) sm" where
  "validate_fee_payer li payer_address payer_index fee =
    bindM (getsM lamports) (\<lambda>balance. seqM (failIf (balance = 0) (Fail AccountNotFound)) (
    bindM (liftR (\<lambda>acc. ok_or (Fail InvalidAccountForFee) (get_system_account_kind li acc))) (\<lambda>kind.
    bindM (liftR (\<lambda>acc. ok_or (Fail InsufficientFundsForFee)
      (Option.bind (checked_sub (lamports acc) (fee_payer_min_balance li kind)) (\<lambda>v. checked_sub v fee)))) (\<lambda>_.
    bindM (getsM (\<lambda>acc. get_account_rent_state li (lamports acc) (length (data acc)))) (\<lambda>pre.
    bindM (liftR (\<lambda>acc. ok_or (Fail InsufficientFundsForFee) (checked_sub (lamports acc) fee))) (\<lambda>rest.
    seqM (modifyM (\<lambda>acc. acc\<lparr>lamports := rest\<rparr>)) (
    bindM (getsM (\<lambda>acc. get_account_rent_state li (lamports acc) (length (data acc)))) (\<lambda>post.
      liftR (\<lambda>_. check_rent_state_with_account li pre post payer_address payer_index)))))))))"

subsection \<open>Loading the accounts of a transaction\<close>

record loaded_transaction_accounts =
  lts_accounts :: "keyed_account list"
  loaded_accounts_data_size :: u32

text \<open>The state of \<open>load_transaction_accounts\<close>: the loader and the two local collections.\<close>

record loading =
  ld_loader :: account_loader
  ld_loaded :: loaded_transaction_accounts
  additional_loaded_accounts :: "pubkey list"

type_synonym 'a load = "(loading, 'a, transaction_error failure) sm"

definition increase_calculated_data_size :: "nat \<Rightarrow> u32 \<Rightarrow> unit load" where
  "increase_calculated_data_size data_size_delta limit =
    seqM (failIf (2 ^ 32 \<le> data_size_delta) (Fail MaxLoadedAccountsDataSizeExceeded)) (
    seqM (modifyM (\<lambda>s. s\<lparr>ld_loaded := ld_loaded s\<lparr>loaded_accounts_data_size :=
            saturating_add (loaded_accounts_data_size (ld_loaded s)) (word_of_nat data_size_delta)\<rparr>\<rparr>)) (
    bindM (getsM (\<lambda>s. loaded_accounts_data_size (ld_loaded s))) (\<lambda>total.
      failIf (limit < total) (Fail MaxLoadedAccountsDataSizeExceeded))))"

definition on_loader :: "(account_loader \<Rightarrow> 'a \<times> account_loader) \<Rightarrow> 'a load" where
  "on_loader f s = (let (a, l) = f (ld_loader s) in (Ok a, s\<lparr>ld_loader := l\<rparr>))"

definition count_programdata :: "loader_interface \<Rightarrow> pubkey list \<Rightarrow> u32 \<Rightarrow> account_shared_data \<Rightarrow> unit load" where
  "count_programdata li keys limit acc =
    (if owner acc = upgradeable_loader_key li then
       (case programdata_address_of li (data acc) of
          None \<Rightarrow> ret ()
        | Some programdata_address \<Rightarrow>
            bindM (getsM additional_loaded_accounts) (\<lambda>additional.
              if programdata_address \<notin> set keys \<and> programdata_address \<notin> set additional then
                bindM (on_loader (load_account li programdata_address)) (\<lambda>found.
                  case found of
                    None \<Rightarrow> ret ()
                  | Some programdata_account \<Rightarrow>
                      seqM (increase_calculated_data_size
                              (usize_saturating (TRANSACTION_ACCOUNT_BASE_SIZE + length (data programdata_account))) limit)
                        (modifyM (\<lambda>s. s\<lparr>additional_loaded_accounts := programdata_address # additional_loaded_accounts s\<rparr>)))
              else ret ()))
     else ret ())"

definition collect_loaded_account ::
  "loader_interface \<Rightarrow> pubkey list \<Rightarrow> u32 \<Rightarrow> pubkey \<Rightarrow> loaded_transaction_account \<Rightarrow> unit load" where
  "collect_loaded_account li keys limit key loaded =
    seqM (increase_calculated_data_size (lta_loaded_size loaded) limit) (
    seqM (count_programdata li keys limit (lta_account loaded))
      (modifyM (\<lambda>s. s\<lparr>ld_loaded := ld_loaded s\<lparr>lts_accounts := lts_accounts (ld_loaded s) @ [(key, lta_account loaded)]\<rparr>\<rparr>)))"

definition program_instructions_iter :: "svm_transaction \<Rightarrow> (pubkey \<times> u8 \<times> u8 list \<times> bytes) list" where
  "program_instructions_iter tx = map (\<lambda>ix. (message_program_id tx (ix_program_index ix), ix)) (message_instructions tx)"

fun decompile_accounts :: "svm_transaction \<Rightarrow> u8 list \<Rightarrow> ((pubkey \<times> bool \<times> bool) list, transaction_error failure) result" where
  "decompile_accounts tx [] = Ok []"
| "decompile_accounts tx (index # rest) =
    bindR (unwrap (get_at (tx_account_keys tx) (unat index))) (\<lambda>key.
    bindR (decompile_accounts tx rest) (\<lambda>metas.
      Ok ((key, message_is_signer tx (unat index), message_is_writable tx (unat index)) # metas)))"

fun decompile_instructions ::
  "svm_transaction \<Rightarrow> (pubkey \<times> u8 \<times> u8 list \<times> bytes) list \<Rightarrow>
     ((pubkey \<times> (pubkey \<times> bool \<times> bool) list \<times> bytes) list, transaction_error failure) result" where
  "decompile_instructions tx [] = Ok []"
| "decompile_instructions tx ((pid, ix) # rest) =
    bindR (decompile_accounts tx (ix_accounts ix)) (\<lambda>metas.
    bindR (decompile_instructions tx rest) (\<lambda>decompiled. Ok ((pid, metas, ix_data ix) # decompiled)))"

definition construct_instructions_account ::
  "loader_interface \<Rightarrow> svm_transaction \<Rightarrow> (account_shared_data, transaction_error failure) result" where
  "construct_instructions_account li tx =
    bindR (decompile_instructions tx (program_instructions_iter tx)) (\<lambda>decompiled.
      Ok (default_account\<lparr>data := construct_instructions_data li decompiled, owner := sysvar_owner_id li\<rparr>))"

definition load_transaction_account ::
  "loader_interface \<Rightarrow> svm_transaction \<Rightarrow> pubkey \<Rightarrow> nat \<Rightarrow> loaded_transaction_account load" where
  "load_transaction_account li tx key account_index =
    (let for_writing = message_is_writable tx account_index in
     if key = instructions_sysvar_id li then
       bindM (liftR (\<lambda>_. construct_instructions_account li tx)) (\<lambda>acc. ret \<lparr>lta_account = acc, lta_loaded_size = 0\<rparr>)
     else
       bindM (on_loader (loader_load_transaction_account li key for_writing)) (\<lambda>found.
         case found of
           Some loaded \<Rightarrow>
             ret (if for_writing then loaded\<lparr>lta_account := update_rent_exempt_status_for_account li (lta_account loaded)\<rparr> else loaded)
         | None \<Rightarrow>
             ret \<lparr>lta_account = default_account\<lparr>rent_epoch := RENT_EXEMPT_RENT_EPOCH\<rparr>,
                  lta_loaded_size = length (data default_account)\<rparr>))"

fun load_remaining_accounts ::
  "loader_interface \<Rightarrow> svm_transaction \<Rightarrow> u32 \<Rightarrow> (nat \<times> pubkey) list \<Rightarrow> unit load" where
  "load_remaining_accounts li tx limit [] = ret ()"
| "load_remaining_accounts li tx limit ((account_index, key) # rest) =
    bindM (load_transaction_account li tx key account_index) (\<lambda>loaded.
    seqM (collect_loaded_account li (tx_account_keys tx) limit key loaded)
      (load_remaining_accounts li tx limit rest))"

fun check_program_accounts :: "loader_interface \<Rightarrow> (pubkey \<times> u8 \<times> u8 list \<times> bytes) list \<Rightarrow> unit load" where
  "check_program_accounts li [] = ret ()"
| "check_program_accounts li ((pid, _) # rest) =
    bindM (on_loader (load_account li pid)) (\<lambda>found.
      case found of
        None \<Rightarrow> throw (Fail ProgramAccountNotFound)
      | Some program_account \<Rightarrow>
          seqM (failIf (owner program_account \<noteq> native_loader_key li \<and> owner program_account \<notin> set (PROGRAM_OWNERS li))
                  (Fail InvalidProgramForExecution))
            (check_program_accounts li rest))"

definition load_transaction_accounts ::
  "loader_interface \<Rightarrow> svm_transaction \<Rightarrow> loaded_transaction_account \<Rightarrow> u32 \<Rightarrow>
     (account_loader, loaded_transaction_accounts, transaction_error failure) sm" where
  "load_transaction_accounts li tx loaded_fee_payer_account limit l =
    (let keys = tx_account_keys tx;
         s = \<lparr>ld_loader = l, ld_loaded = \<lparr>lts_accounts = [], loaded_accounts_data_size = 0\<rparr>, additional_loaded_accounts = []\<rparr>;
         (r, s) =
           seqM (increase_calculated_data_size (usize_saturating (tx_num_lookup_tables tx * ADDRESS_LOOKUP_TABLE_BASE_SIZE)) limit) (
           seqM (collect_loaded_account li keys limit (tx_fee_payer tx) loaded_fee_payer_account) (
           seqM (load_remaining_accounts li tx limit (drop 1 (enumerate 0 keys))) (
           seqM (check_program_accounts li (program_instructions_iter tx))
             (getsM ld_loaded)))) s
     in (r, ld_loader s))"

record 'f checked_transaction_details =
  ctd_nonce_address :: "pubkey option"
  ctd_compute_budget_and_limits :: "'f budget_and_limits"

record 'f validated_transaction_details =
  vtd_rollback_accounts :: rollback_accounts
  vtd_compute_budget :: execution_budget
  vtd_loaded_accounts_bytes_limit :: u32
  vtd_fee_details :: 'f
  vtd_loaded_fee_payer_account :: loaded_transaction_account

record 'f loaded_transaction =
  lt_accounts :: "keyed_account list"
  lt_fee_details :: 'f
  lt_rollback_accounts :: rollback_accounts
  lt_compute_budget :: execution_budget
  lt_loaded_accounts_data_size :: u32

record 'f fees_only_transaction =
  fot_load_error :: transaction_error
  fot_rollback_accounts :: rollback_accounts
  fot_fee_details :: 'f

datatype 'f transaction_load_result =
    Loaded "'f loaded_transaction"
  | FeesOnly "'f fees_only_transaction"
  | NotLoaded transaction_error

definition load_transaction ::
  "loader_interface \<Rightarrow> svm_transaction \<Rightarrow> ('f validated_transaction_details, transaction_error) result \<Rightarrow>
     (account_loader, 'f transaction_load_result, transaction_error failure) sm" where
  "load_transaction li tx validation_result l =
    (case validation_result of
       Err e \<Rightarrow> (Ok (NotLoaded e), l)
     | Ok tx_details \<Rightarrow>
         (case load_transaction_accounts li tx (vtd_loaded_fee_payer_account tx_details) (vtd_loaded_accounts_bytes_limit tx_details) l of
            (Ok lts, l) \<Rightarrow> (Ok (Loaded \<lparr>lt_accounts = lts_accounts lts, lt_fee_details = vtd_fee_details tx_details,
                lt_rollback_accounts = vtd_rollback_accounts tx_details, lt_compute_budget = vtd_compute_budget tx_details,
                lt_loaded_accounts_data_size = loaded_accounts_data_size lts\<rparr>), l)
          | (Err (Fail e), l) \<Rightarrow> (Ok (FeesOnly \<lparr>fot_load_error = e, fot_rollback_accounts = vtd_rollback_accounts tx_details,
                fot_fee_details = vtd_fee_details tx_details\<rparr>), l)
          | (Err Panic, l) \<Rightarrow> (Err Panic, l)))"

end
