(* ===== verification/Svm_Loader_Spec.thy ===== *)
theory Svm_Loader_Spec
  imports Svm_Loader
begin

text \<open>
  What the account loader promises: it is the accounts database with the writes of the batch laid over it, the data size it counts
  bounds what it loads, and a fee payer pays exactly the fee.
\<close>

section \<open>Definitions\<close>

text \<open>The account that the next load of a key gives.\<close>

definition loader_view :: "loader_interface \<Rightarrow> account_loader \<Rightarrow> pubkey \<Rightarrow> account_shared_data option" where
  "loader_view li l key = map_option fst (fst (do_load li l key))"

text \<open>The accounts database has no account without lamports: such an account is deleted.\<close>

definition live_database :: "loader_interface \<Rightarrow> bool" where
  "live_database li \<longleftrightarrow> (\<forall>key acc slot. get_account_shared_data li key = Some (acc, slot) \<longrightarrow> lamports acc \<noteq> 0)"

definition alive :: "account_shared_data \<Rightarrow> account_shared_data option" where
  "alive acc = (if lamports acc = 0 then None else Some acc)"

text \<open>The operations on a loader during a batch, and their specification on a plain map.\<close>

datatype loader_op =
    Op_load pubkey
  | Op_load_for_tx pubkey bool
  | Op_failed rollback_accounts u64
  | Op_successful svm_transaction "keyed_account list" u64

fun loader_step :: "loader_interface \<Rightarrow> loader_op \<Rightarrow> account_loader \<Rightarrow> account_shared_data option \<times> account_loader" where
  "loader_step li (Op_load key) l = load_account li key l"
| "loader_step li (Op_load_for_tx key w) l = apfst (map_option lta_account) (loader_load_transaction_account li key w l)"
| "loader_step li (Op_failed rollback slot) l = (None, update_accounts_for_failed_tx rollback slot l)"
| "loader_step li (Op_successful tx accs slot) l = (None, update_accounts_for_successful_tx tx accs slot l)"

fun loader_run :: "loader_interface \<Rightarrow> loader_op list \<Rightarrow> account_loader \<Rightarrow> account_shared_data option list \<times> account_loader" where
  "loader_run li [] l = ([], l)"
| "loader_run li (op # ops) l = (let (out, l) = loader_step li op l; (outs, l) = loader_run li ops l in (out # outs, l))"

type_synonym account_map = "pubkey \<Rightarrow> account_shared_data option"

definition write_all :: "keyed_account list \<Rightarrow> account_map \<Rightarrow> account_map" where
  "write_all = fold (\<lambda>(key, acc) m. m(key := alive acc))"

definition rollback_list :: "rollback_accounts \<Rightarrow> keyed_account list" where
  "rollback_list rb =
    (case rb of FeePayerOnly fp \<Rightarrow> [fp] | SameNonceAndFeePayer nonce \<Rightarrow> [nonce] | SeparateNonceAndFeePayer nonce fp \<Rightarrow> [fp, nonce])"

definition committed_accounts :: "svm_transaction \<Rightarrow> keyed_account list \<Rightarrow> keyed_account list" where
  "committed_accounts tx accs =
    map snd (filter (\<lambda>(i, _). message_is_writable tx i \<and> (tx_is_invoked tx i \<longrightarrow> is_instruction_account tx i))
      (zip [0..<length (tx_account_keys tx)] accs))"

fun map_step :: "loader_op \<Rightarrow> account_map \<Rightarrow> account_shared_data option \<times> account_map" where
  "map_step (Op_load key) m = (m key, m)"
| "map_step (Op_load_for_tx key _) m = (m key, m)"
| "map_step (Op_failed rollback _) m = (None, write_all (rollback_list rollback) m)"
| "map_step (Op_successful tx accs _) m = (None, write_all (committed_accounts tx accs) m)"

fun map_run :: "loader_op list \<Rightarrow> account_map \<Rightarrow> account_shared_data option list \<times> account_map" where
  "map_run [] m = ([], m)"
| "map_run (op # ops) m = (let (out, m) = map_step op m; (outs, m) = map_run ops m in (out # outs, m))"

text \<open>The size a loaded account is charged with at least; the instructions sysvar is free.\<close>

definition charge :: "loader_interface \<Rightarrow> keyed_account \<Rightarrow> nat" where
  "charge li ka = (if fst ka = instructions_sysvar_id li \<or> data (snd ka) = [] then 0
     else TRANSACTION_ACCOUNT_BASE_SIZE + length (data (snd ka)))"

definition charges :: "loader_interface \<Rightarrow> keyed_account list \<Rightarrow> nat" where
  "charges li kas = sum_list (map (charge li) kas)"

text \<open>Programs whose account exists and is owned by a loader.\<close>

definition program_loadable :: "loader_interface \<Rightarrow> account_loader \<Rightarrow> pubkey \<Rightarrow> bool" where
  "program_loadable li l pid =
    (case loader_view li l pid of
       None \<Rightarrow> False
     | Some acc \<Rightarrow> owner acc = native_loader_key li \<or> owner acc \<in> set (PROGRAM_OWNERS li))"

text \<open>
  The invariant of \<open>load_transaction_accounts\<close>: the accounts collected so far have the keys \<open>ks\<close>, the size counted is within the limit
  and bounds \<open>base\<close> and the charges of the accounts unless it is saturated, and the loads changed no account.
\<close>

definition counted :: "loader_interface \<Rightarrow> u32 \<Rightarrow> nat \<Rightarrow> account_map \<Rightarrow> pubkey list \<Rightarrow> loading \<Rightarrow> bool" where
  "counted li limit base m ks s \<longleftrightarrow>
    map fst (lts_accounts (ld_loaded s)) = ks \<and> loaded_accounts_data_size (ld_loaded s) \<le> limit
    \<and> (base + charges li (lts_accounts (ld_loaded s)) \<le> unat (loaded_accounts_data_size (ld_loaded s))
        \<or> unat (loaded_accounts_data_size (ld_loaded s)) = 2 ^ 32 - 1)
    \<and> loader_view li (ld_loader s) = m"

text \<open>A small bank: a fee payer, a program of the native loader, one data account.\<close>

definition sample_account :: "u64 \<Rightarrow> nat \<Rightarrow> pubkey \<Rightarrow> account_shared_data" where
  "sample_account balance n own = \<lparr>lamports = balance, data = replicate n 7, owner = own, executable_flag = False, rent_epoch = 0\<rparr>"

definition sample_database :: "pubkey \<Rightarrow> (account_shared_data \<times> u64) option" where
  "sample_database = [[1] \<mapsto> (sample_account 1000 0 (replicate 32 0), 5), [3] \<mapsto> (sample_account 1 14 [9], 0),
     [4] \<mapsto> (sample_account 300 20 [3], 2)]"

definition sample_loader :: loader_interface where
  "sample_loader = \<lparr>get_account_shared_data = sample_database,
     get_system_account_kind = (\<lambda>acc. if owner acc = replicate 32 0 then Some (if data acc = [] then System_kind else Nonce_kind) else None),
     is_exempt = (\<lambda>balance n. 128 + n \<le> unat balance), rent_minimum_balance = (\<lambda>n. 128 + word_of_nat n), nonce_size = 80,
     incinerator_id = [20], slot_history_id = [21], instructions_sysvar_id = [22], sysvar_owner_id = [23],
     upgradeable_loader_key = [24], native_loader_key = [9], PROGRAM_OWNERS = [[24], [25]],
     programdata_address_of = (\<lambda>_. None), construct_instructions_data = (\<lambda>ixs. concat (map (\<lambda>(_, _, d). d) ixs))\<rparr>"

definition sample_transaction :: svm_transaction where
  "sample_transaction = \<lparr>message_instructions = [(1, [0, 2], [7])], message_program_id = (\<lambda>_. [3]), message_is_signer = (\<lambda>i. i = 0),
     message_is_writable = (\<lambda>i. i \<noteq> 1), tx_account_keys = [[1], [3], [4]], tx_num_static_keys = 3, tx_fee_payer = [1],
     tx_num_lookup_tables = 1, tx_recent_blockhash = [], tx_is_invoked = (\<lambda>i. i = 1)\<rparr>"

definition empty_loader :: account_loader where
  "empty_loader = new_with_loaded_accounts_capacity sample_loader None"

definition sample_ops :: "loader_op list" where
  "sample_ops = [Op_load [4], Op_failed (FeePayerOnly ([1], sample_account 990 0 (replicate 32 0))) 6, Op_load [1],
     Op_successful sample_transaction [([1], sample_account 980 0 (replicate 32 0)), ([3], sample_account 1 14 [9]),
       ([4], sample_account 0 0 [3])] 6, Op_load [4], Op_load [1]]"

definition sample_payer :: loaded_transaction_account where
  "sample_payer = \<lparr>lta_account = sample_account 990 0 (replicate 32 0), lta_loaded_size = 64\<rparr>"

definition sample_loaded :: loaded_transaction_accounts where
  "sample_loaded = \<lparr>lts_accounts = [([1], sample_account 990 0 (replicate 32 0)), ([3], sample_account 1 14 [9]),
     ([4], (sample_account 300 20 [3])\<lparr>rent_epoch := RENT_EXEMPT_RENT_EPOCH\<rparr>)], loaded_accounts_data_size = 8474\<rparr>"

text \<open>Computations that keep a view of their state, whatever they return.\<close>

definition keeps :: "('s \<Rightarrow> 'v) \<Rightarrow> ('s, 'a, 'e) sm \<Rightarrow> bool" where
  "keeps v m \<longleftrightarrow> (\<forall>s. v (snd (m s)) = v s)"

abbreviation loading_view :: "loader_interface \<Rightarrow> loading \<Rightarrow> account_map" where
  "loading_view li s \<equiv> loader_view li (ld_loader s)"

section \<open>The loader as an overlay\<close>

lemma iter_items_rollback [simp]: "iter_items (rollback_iter rb) = rollback_list rb"
  by (cases rb) (simp_all add: rollback_iter_def rollback_list_def iter_items.simps iter_next_def)

lemma view_insert [simp]: "loader_view li (loader_insert key (acc, slot) l) = (loader_view li l)(key := alive acc)"
  by (rule ext) (simp add: loader_view_def do_load_def loader_insert_def alive_def)

lemma view_inspected [simp]: "loader_view li (l\<lparr>inspected := is\<rparr>) = loader_view li l"
  by (rule ext) (simp add: loader_view_def do_load_def)

lemma load_account_spec:
  assumes "live_database li"
  shows "fst (load_account li key l) = loader_view li l key" and "loader_view li (snd (load_account li key l)) = loader_view li l"
proof -
  show "fst (load_account li key l) = loader_view li l key"
    by (auto simp: load_account_def loader_view_def split: prod.splits option.splits bool.splits)
  show "loader_view li (snd (load_account li key l)) = loader_view li l"
    using assms unfolding load_account_def
    by (auto simp: loader_view_def do_load_def loader_insert_def default_account_def live_database_def fun_eq_iff
        split: option.splits prod.splits if_splits) blast
qed

lemma load_for_tx_spec:
  assumes "live_database li"
  shows "map_option lta_account (fst (loader_load_transaction_account li key w l)) = loader_view li l key"
    and "loader_view li (snd (loader_load_transaction_account li key w l)) = loader_view li l"
  using load_account_spec [OF assms, of key l]
  by (auto simp: loader_load_transaction_account_def option.map_comp comp_def option.map_ident split: prod.splits)

lemma view_fold_insert:
  "loader_view li (fold (\<lambda>(key, acc). loader_insert key (acc, slot)) kas l) = write_all kas (loader_view li l)"
  by (induction kas arbitrary: l) (auto simp: write_all_def)

lemma view_failed [simp]:
  "loader_view li (update_accounts_for_failed_tx rb slot l) = write_all (rollback_list rb) (loader_view li l)"
  by (simp add: update_accounts_for_failed_tx_def view_fold_insert)

lemma view_successful [simp]:
  "loader_view li (update_accounts_for_successful_tx tx accs slot l) = write_all (committed_accounts tx accs) (loader_view li l)"
proof -
  have "loader_view li (fold (\<lambda>(i, key, acc) l. if \<not> message_is_writable tx i then l
          else if tx_is_invoked tx i \<and> \<not> is_instruction_account tx i then l else loader_insert key (acc, slot) l) ias l)
      = write_all (map snd (filter (\<lambda>(i, _). message_is_writable tx i \<and> (tx_is_invoked tx i \<longrightarrow> is_instruction_account tx i)) ias))
          (loader_view li l)" for ias
    by (induction ias arbitrary: l) (auto simp: write_all_def)
  then show ?thesis by (simp add: update_accounts_for_successful_tx_def committed_accounts_def)
qed

text \<open>
  A store that loads may fill: what a client of the loader relies on. \<open>view\<close> is the abstraction, \<open>load\<close> a read, \<open>put\<close> a write.
\<close>

locale account_store =
  fixes view :: "'s \<Rightarrow> account_map"
    and load :: "pubkey \<Rightarrow> 's \<Rightarrow> account_shared_data option \<times> 's"
    and put :: "pubkey \<Rightarrow> account_shared_data \<Rightarrow> 's \<Rightarrow> 's"
  assumes load_reads: "fst (load key s) = view s key"
    and load_keeps: "view (snd (load key s)) = view s"
    and put_writes: "view (put key acc s) = (view s)(key := alive acc)"
begin

lemma load_again: "fst (load key (snd (load key' s))) = fst (load key s)"
  by (simp add: load_reads load_keeps)

lemma load_after_put: "fst (load key (put key acc s)) = alive acc"
  by (simp add: load_reads put_writes)

lemma puts_write: "view (fold (\<lambda>(key, acc). put key acc) kas s) = write_all kas (view s)"
  by (induction kas arbitrary: s) (auto simp: write_all_def put_writes)

lemma load_unwritten: "key \<notin> fst ` set kas \<Longrightarrow> fst (load key (fold (\<lambda>(key, acc). put key acc) kas s)) = fst (load key s)"
  by (induction kas arbitrary: s) (auto simp: load_reads put_writes)

end

locale live_loader =
  fixes li :: loader_interface
  assumes database_live: "live_database li"

sublocale live_loader \<subseteq> store: account_store "loader_view li" "load_account li" "\<lambda>key acc. loader_insert key (acc, 0)"
  by unfold_locales (simp_all add: load_account_spec [OF database_live])

lemma loader_step_refines:
  assumes "live_database li"
  shows "apsnd (loader_view li) (loader_step li op l) = map_step op (loader_view li l)"
  using load_account_spec [OF assms] load_for_tx_spec [OF assms] by (cases op) (auto simp: apsnd_def apfst_def prod_eq_iff)

lemma loader_run_refines:
  assumes "live_database li"
  shows "apsnd (loader_view li) (loader_run li ops l) = map_run ops (loader_view li l)"
proof (induction ops arbitrary: l)
  case (Cons op ops)
  obtain out l1 where step: "loader_step li op l = (out, l1)" by fastforce
  obtain outs l2 where run: "loader_run li ops l1 = (outs, l2)" by fastforce
  show ?case using loader_step_refines [OF assms, of op l] Cons [of l1] step run by (auto simp: apsnd_def split: prod.splits)
qed simp

section \<open>The size of the loaded accounts\<close>

lemma usize_saturating_small: "usize_saturating n < 2 ^ 32 \<Longrightarrow> usize_saturating n = n"
  by (simp add: usize_saturating_def min_def split: if_splits)

lemma counted_increase:
  assumes "counted li limit base m ks s"
  shows "wp (increase_calculated_data_size n limit)
    (\<lambda>_ t. n < 2 ^ 32 \<and> counted li limit (base + n) m ks t \<and> lts_accounts (ld_loaded t) = lts_accounts (ld_loaded s)) (\<lambda>_ _. True) s"
  using assms by (auto simp: increase_calculated_data_size_def counted_def not_less not_le unat_saturating_add take_bit_nat_eq_self unsigned_of_nat)

lemma wp_on_loader [simp]: "wp (on_loader f) Q E s = (case f (ld_loader s) of (a, l) \<Rightarrow> Q a (s\<lparr>ld_loader := l\<rparr>))"
  by (simp add: wp_def on_loader_def split: prod.splits)

lemma counted_load:
  assumes "live_database li" and "counted li limit base m ks s"
  shows "wp (on_loader (load_account li key))
    (\<lambda>a t. a = m key \<and> counted li limit base m ks t \<and> lts_accounts (ld_loaded t) = lts_accounts (ld_loaded s)) (\<lambda>_ _. True) s"
  using load_account_spec [OF assms(1), of key "ld_loader s"] assms(2) by (auto simp: counted_def split: prod.splits)

lemma counted_programdata:
  assumes live: "live_database li" and inv: "counted li limit base m ks s"
  shows "wp (count_programdata li keys limit acc)
    (\<lambda>_ t. counted li limit base m ks t \<and> lts_accounts (ld_loaded t) = lts_accounts (ld_loaded s)) (\<lambda>_ _. True) s"
proof -
  have tail: "wp (seqM (increase_calculated_data_size n limit) (modifyM (\<lambda>s. s\<lparr>additional_loaded_accounts := f s\<rparr>)))
      (\<lambda>_ t. counted li limit base m ks t \<and> lts_accounts (ld_loaded t) = lts_accounts (ld_loaded s)) (\<lambda>_ _. True) u"
    if "counted li limit base m ks u" "lts_accounts (ld_loaded u) = lts_accounts (ld_loaded s)" for u n f
    using that by (auto intro!: wp_mono [OF counted_increase [OF that(1)]]) (auto simp: counted_def)
  show ?thesis
    using inv unfolding count_programdata_def
    by (auto split: option.splits intro!: wp_mono [OF counted_load [OF live inv]] tail [unfolded wp_seqM] simp del: wp_on_loader wp_modifyM)
qed

lemma counted_collect:
  assumes live: "live_database li" and inv: "counted li limit base m ks s"
    and size: "charge li (key, lta_account loaded) \<le> lta_loaded_size loaded \<or> 2 ^ 32 \<le> lta_loaded_size loaded"
  shows "wp (collect_loaded_account li keys limit key loaded) (\<lambda>_ t. counted li limit base m (ks @ [key]) t) (\<lambda>_ _. True) s"
proof -
  have "wp (seqM (count_programdata li keys limit (lta_account loaded)) (modifyM (\<lambda>s. s\<lparr>ld_loaded := ld_loaded s
          \<lparr>lts_accounts := lts_accounts (ld_loaded s) @ [(key, lta_account loaded)]\<rparr>\<rparr>)))
        (\<lambda>_ t. counted li limit base m (ks @ [key]) t) (\<lambda>_ _. True) t"
    if "lta_loaded_size loaded < 2 ^ 32" "counted li limit (base + lta_loaded_size loaded) m ks t" for t
    using that size by (auto intro!: wp_mono [OF counted_programdata [OF live that(2)]]) (auto simp: counted_def charges_def)
  then show ?thesis unfolding collect_loaded_account_def by (auto intro!: wp_mono [OF counted_increase [OF inv]])
qed

lemma load_transaction_account_counted:
  assumes live: "live_database li" and inv: "counted li limit base m ks s"
  shows "wp (load_transaction_account li tx key i) (\<lambda>loaded t. counted li limit base m ks t
     \<and> (charge li (key, lta_account loaded) \<le> lta_loaded_size loaded \<or> 2 ^ 32 \<le> lta_loaded_size loaded)) (\<lambda>_ _. True) s"
proof (cases "key = instructions_sysvar_id li")
  case True
  then show ?thesis using inv by (auto simp: load_transaction_account_def charge_def split: result.splits)
next
  case False
  obtain found l where load: "loader_load_transaction_account li key (message_is_writable tx i) (ld_loader s) = (found, l)" by fastforce
  have view: "loader_view li l = loader_view li (ld_loader s)"
    using load_for_tx_spec(2) [OF live, of key "message_is_writable tx i" "ld_loader s"] load by simp
  have size: "lta_loaded_size a = usize_saturating (TRANSACTION_ACCOUNT_BASE_SIZE + length (data (lta_account a)))"
    if "found = Some a" for a
    using load that by (auto simp: loader_load_transaction_account_def split: prod.splits)
  show ?thesis
    using False inv load view size
    by (auto simp: load_transaction_account_def Let_def charge_def counted_def default_account_def
        update_rent_exempt_status_for_account_def usize_saturating_def split: option.splits)
qed

lemma remaining_counted:
  assumes "live_database li" and "counted li limit base m ks s"
  shows "wp (load_remaining_accounts li tx limit iks) (\<lambda>_ t. counted li limit base m (ks @ map snd iks) t) (\<lambda>_ _. True) s"
  using assms(2)
proof (induction iks arbitrary: ks s)
  case (Cons ik iks)
  obtain i key where ik: "ik = (i, key)" by fastforce
  show ?case
    unfolding ik load_remaining_accounts.simps wp_bindM wp_seqM
  proof (rule wp_mono [OF load_transaction_account_counted [OF assms(1) Cons.prems]])
    fix loaded :: loaded_transaction_account and t
    assume t: "counted li limit base m ks t
      \<and> (charge li (key, lta_account loaded) \<le> lta_loaded_size loaded \<or> 2 ^ 32 \<le> lta_loaded_size loaded)"
    show "wp (collect_loaded_account li (tx_account_keys tx) limit key loaded)
        (\<lambda>_. wp (load_remaining_accounts li tx limit iks) (\<lambda>_ t. counted li limit base m (ks @ map snd ((i, key) # iks)) t) (\<lambda>_ _. True))
        (\<lambda>_ _. True) t"
      using Cons.IH [of "ks @ [key]"] t by (auto intro!: wp_mono [OF counted_collect [OF assms(1)]])
  qed simp
qed simp

lemma programs_counted:
  assumes live: "live_database li" and "counted li limit base m ks s"
  shows "wp (check_program_accounts li pixs) (\<lambda>_ t. counted li limit base m ks t \<and> lts_accounts (ld_loaded t) = lts_accounts (ld_loaded s)
      \<and> list_all (\<lambda>(pid, _). case m pid of None \<Rightarrow> False | Some acc \<Rightarrow>
          owner acc = native_loader_key li \<or> owner acc \<in> set (PROGRAM_OWNERS li)) pixs) (\<lambda>_ _. True) s"
  using assms(2)
proof (induction pixs arbitrary: s)
  case (Cons pix pixs)
  obtain pid ix where pix: "pix = (pid, ix)" by (cases pix)
  show ?case unfolding pix check_program_accounts.simps wp_bindM
    by (rule wp_mono [OF counted_load [OF live Cons.prems]]) (auto split: option.splits intro!: wp_mono [OF Cons.IH])
qed simp

lemma load_accounts_counted:
  assumes live: "live_database li" and payer: "64 + length (data (lta_account payer)) \<le> lta_loaded_size payer"
    and load: "load_transaction_accounts li tx payer limit l = (Ok lts, l')"
  shows "\<exists>s. counted li limit (tx_num_lookup_tables tx * ADDRESS_LOOKUP_TABLE_BASE_SIZE) (loader_view li l)
      (tx_fee_payer tx # drop 1 (tx_account_keys tx)) s \<and> ld_loaded s = lts \<and> ld_loader s = l'
    \<and> list_all (\<lambda>(pid, _). program_loadable li l pid) (program_instructions_iter tx)"
proof -
  define s where "s = \<lparr>ld_loader = l, ld_loaded = \<lparr>lts_accounts = [], loaded_accounts_data_size = 0\<rparr>, additional_loaded_accounts = []\<rparr>"
  define n where "n = usize_saturating (tx_num_lookup_tables tx * ADDRESS_LOOKUP_TABLE_BASE_SIZE)"
  let ?keys = "tx_fee_payer tx # map snd (drop 1 (enumerate 0 (tx_account_keys tx)))"
  let ?Q = "\<lambda>a t. ld_loaded t = a \<and> n < 2 ^ 32 \<and> counted li limit n (loader_view li l) ?keys t
     \<and> list_all (\<lambda>(pid, _). program_loadable li l pid) (program_instructions_iter tx)"
  have init: "counted li limit 0 (loader_view li l) [] s" by (simp add: counted_def s_def charges_def)
  have tail: "wp (check_program_accounts li (program_instructions_iter tx)) (\<lambda>_ t. ?Q (ld_loaded t) t) (\<lambda>_ _. True) t"
    if "n < 2 ^ 32" "counted li limit n (loader_view li l) ?keys t" for t
    using that by (auto intro!: wp_mono [OF programs_counted [OF live that(2)]] simp: program_loadable_def)
  have collect: "wp (collect_loaded_account li (tx_account_keys tx) limit (tx_fee_payer tx) payer)
      (\<lambda>_. wp (load_remaining_accounts li tx limit (drop 1 (enumerate 0 (tx_account_keys tx))))
        (\<lambda>_. wp (check_program_accounts li (program_instructions_iter tx)) (\<lambda>_ t. ?Q (ld_loaded t) t) (\<lambda>_ _. True)) (\<lambda>_ _. True))
      (\<lambda>_ _. True) t" if t: "n < 2 ^ 32" "counted li limit n (loader_view li l) [] t" for t
    using payer t(1) by (intro wp_mono [OF counted_collect [OF live t(2)]] wp_mono [OF remaining_counted [OF live]] tail)
      (auto simp: charge_def TRANSACTION_ACCOUNT_BASE_SIZE_def t)
  have "wp (seqM (increase_calculated_data_size n limit) (
           seqM (collect_loaded_account li (tx_account_keys tx) limit (tx_fee_payer tx) payer) (
           seqM (load_remaining_accounts li tx limit (drop 1 (enumerate 0 (tx_account_keys tx)))) (
           seqM (check_program_accounts li (program_instructions_iter tx)) (getsM ld_loaded))))) ?Q (\<lambda>_ _. True) s"
    unfolding wp_seqM wp_getsM by (rule wp_mono [OF counted_increase [OF init]]) (use collect in auto)
  then show ?thesis
    using load usize_saturating_small [of "tx_num_lookup_tables tx * ADDRESS_LOOKUP_TABLE_BASE_SIZE"]
    unfolding load_transaction_accounts_def Let_def n_def [symmetric] s_def [symmetric]
    by (auto simp: wp_def n_def drop_map [symmetric] split: prod.splits)
qed

section \<open>Loading changes no account\<close>

named_theorems keeps_rules \<open>computations that keep a view of the state\<close>

lemma keepsD: "keeps v m \<Longrightarrow> m s = (r, t) \<Longrightarrow> v t = v s"
  by (metis keeps_def snd_conv)

lemma keeps_ret [keeps_rules]: "keeps v (ret a)"
  and keeps_throw [keeps_rules]: "keeps v (throw e)"
  and keeps_getsM [keeps_rules]: "keeps v (getsM f)"
  and keeps_liftR [keeps_rules]: "keeps v (liftR g)"
  and keeps_failIf [keeps_rules]: "keeps v (failIf b e)"
  by (simp_all add: keeps_def monad_defs)

lemma keeps_modifyM [keeps_rules]: "(\<And>s. v (f s) = v s) \<Longrightarrow> keeps v (modifyM f)"
  by (simp add: keeps_def modifyM_def)

lemma keeps_bindM [keeps_rules]: "keeps v m \<Longrightarrow> (\<And>a. keeps v (f a)) \<Longrightarrow> keeps v (bindM m f)"
  unfolding keeps_def bindM_def by (auto split: prod.splits result.splits) (metis snd_conv)+

lemma keeps_seqM [keeps_rules]: "keeps v m \<Longrightarrow> keeps v n \<Longrightarrow> keeps v (seqM m n)"
  unfolding seqM_def by (rule keeps_bindM)

lemma keeps_if [keeps_rules]: "keeps v m \<Longrightarrow> keeps v n \<Longrightarrow> keeps v (if b then m else n)"
  by simp

lemma keeps_case_option [keeps_rules]: "keeps v m \<Longrightarrow> (\<And>a. keeps v (f a)) \<Longrightarrow> keeps v (case x of None \<Rightarrow> m | Some a \<Rightarrow> f a)"
  by (cases x) simp_all

lemma on_loader_keeps:
  assumes "live_database li"
  shows "keeps (loading_view li) (on_loader (load_account li key))"
    and "keeps (loading_view li) (on_loader (loader_load_transaction_account li key w))"
  using load_account_spec(2) [OF assms, of key] load_for_tx_spec(2) [OF assms, of key w]
  by (auto simp: keeps_def on_loader_def split: prod.splits) (metis snd_conv)+

lemma increase_keeps [keeps_rules]: "keeps (loading_view li) (increase_calculated_data_size n limit)"
  unfolding increase_calculated_data_size_def by (intro keeps_rules) simp

lemma collect_keeps [keeps_rules]:
  assumes "live_database li"
  shows "keeps (loading_view li) (collect_loaded_account li keys limit key loaded)"
  unfolding collect_loaded_account_def count_programdata_def by (intro keeps_rules on_loader_keeps [OF assms]) simp_all

lemma load_tx_account_keeps [keeps_rules]:
  assumes "live_database li"
  shows "keeps (loading_view li) (load_transaction_account li tx key i)"
  unfolding load_transaction_account_def Let_def by (intro keeps_rules on_loader_keeps [OF assms])

lemma load_remaining_keeps [keeps_rules]: "live_database li \<Longrightarrow> keeps (loading_view li) (load_remaining_accounts li tx limit iks)"
proof (induction iks)
  case (Cons ik iks)
  then show ?case by (cases ik) (auto intro!: keeps_rules)
qed (auto intro: keeps_rules)

lemma check_programs_keeps [keeps_rules]: "live_database li \<Longrightarrow> keeps (loading_view li) (check_program_accounts li pixs)"
proof (induction pixs)
  case (Cons pix pixs)
  then show ?case by (cases pix) (auto intro!: keeps_rules on_loader_keeps)
qed (auto intro: keeps_rules)

lemma load_accounts_keeps [keeps_rules]:
  assumes "live_database li"
  shows "keeps (loader_view li) (load_transaction_accounts li tx payer limit)"
proof -
  let ?m = "seqM (increase_calculated_data_size (usize_saturating (tx_num_lookup_tables tx * ADDRESS_LOOKUP_TABLE_BASE_SIZE)) limit) (
           seqM (collect_loaded_account li (tx_account_keys tx) limit (tx_fee_payer tx) payer) (
           seqM (load_remaining_accounts li tx limit (drop 1 (enumerate 0 (tx_account_keys tx)))) (
           seqM (check_program_accounts li (program_instructions_iter tx))
             (getsM ld_loaded))))"
  have "keeps (loading_view li) ?m" by (intro keeps_rules assms)
  then show ?thesis by (auto simp: keeps_def load_transaction_accounts_def Let_def split: prod.splits) (metis loading.select_convs(1) snd_conv)
qed

lemma load_transaction_keeps [keeps_rules]: "live_database li \<Longrightarrow> keeps (loader_view li) (load_transaction li tx v)"
  using load_accounts_keeps [THEN keepsD] by (auto simp: keeps_def load_transaction_def split: result.splits prod.splits failure.splits)

section \<open>The fee payer\<close>

lemma rent_transition_after_fee:
  assumes "balance \<noteq> 0" and "fee \<le> balance"
  shows "transition_allowed (get_account_rent_state li balance n) (get_account_rent_state li (balance - fee) n)
    \<longleftrightarrow> balance = fee \<or> is_exempt li (balance - fee) n \<or> \<not> is_exempt li balance n"
  using assms by (auto simp: transition_allowed_def get_account_rent_state_def word_sub_le split: rent_state.splits)

lemma checked_sub_twice:
  fixes a :: "'w::len word"
  shows "Option.bind (checked_sub a b) (\<lambda>v. checked_sub v c) = (if unat b + unat c \<le> unat a then Some (a - b - c) else None)"
  by (auto simp: checked_sub_def word_le_nat_alt unat_sub split: if_splits)

lemma validate_fee_payer_Ok:
  assumes "validate_fee_payer li key i fee acc = (Ok (), acc')"
  shows "acc' = acc\<lparr>lamports := lamports acc - fee\<rparr> \<and> fee \<le> lamports acc"
  using assms by (auto simp: validate_fee_payer_def monad_defs checked_sub_def split: prod.splits result.splits option.splits if_splits)

section \<open>Properties\<close>

text \<open>
  C16. The account loader is the accounts database with the batch's writes laid over it: whatever loads, failed and successful
  transactions a batch performs, in any order, each load returns what a plain map from keys to accounts holds that is only
  changed by the writes, where an account left without lamports is absent, and the loads themselves change nothing.
\<close>

theorem account_loader_refines_map:
  assumes "live_database li"
  shows "fst (loader_run li ops l) = fst (map_run ops (loader_view li l))
    \<and> loader_view li (snd (loader_run li ops l)) = snd (map_run ops (loader_view li l))"
  using loader_run_refines [OF assms, of ops l] by (auto simp: apsnd_def prod_eq_iff split: prod.splits)

text \<open>
  C17. When the accounts of a transaction are loaded, they come in the order of the transaction's keys with the fee payer first; the
  counted size is within the requested limit and covers the lookup tables and the data of every account except the instructions
  sysvar (for a limit below the largest 32-bit number, where the sum cannot saturate); every invoked program exists and is owned by
  a loader; and no account changed.
\<close>

theorem loaded_accounts_bounded:
  assumes "live_database li" and "64 + length (data (lta_account payer)) \<le> lta_loaded_size payer"
    and "load_transaction_accounts li tx payer limit l = (Ok lts, l')"
  shows "map fst (lts_accounts lts) = tx_fee_payer tx # drop 1 (tx_account_keys tx) \<and> loaded_accounts_data_size lts \<le> limit
    \<and> (limit < - 1 \<longrightarrow> tx_num_lookup_tables tx * 8248 + charges li (lts_accounts lts) \<le> unat (loaded_accounts_data_size lts))
    \<and> list_all (\<lambda>(pid, _). program_loadable li l pid) (program_instructions_iter tx)
    \<and> loader_view li l' = loader_view li l"
  using load_accounts_counted [OF assms(1-3)]
  by (auto simp: counted_def ADDRESS_LOOKUP_TABLE_BASE_SIZE_def word_less_nat_alt word_le_nat_alt unsigned_minus_1_eq_mask mask_eq_exp_minus_1)

text \<open>
  C18. The exact outcome of charging a fee: a missing payer, an account that is neither a system nor a nonce account, a balance below
  the fee plus what a nonce account must keep, and a rent-exempt account left rent-paying (the incinerator apart) are refused with
  their errors, in this order; otherwise the payer's balance falls by exactly the fee and nothing else of the account changes.
\<close>

theorem validate_fee_payer_spec:
  "fst (validate_fee_payer li key i fee acc) =
    (if lamports acc = 0 then Err (Fail AccountNotFound) else case get_system_account_kind li acc of
       None \<Rightarrow> Err (Fail InvalidAccountForFee)
     | Some kind \<Rightarrow>
         if unat (lamports acc) < unat (fee_payer_min_balance li kind) + unat fee then Err (Fail InsufficientFundsForFee)
         else if key \<noteq> incinerator_id li \<and> lamports acc \<noteq> fee \<and> is_exempt li (lamports acc) (length (data acc))
           \<and> \<not> is_exempt li (lamports acc - fee) (length (data acc)) then Err (Fail (InsufficientFundsForRent (ucast i)))
         else Ok ())
   \<and> (is_ok (fst (validate_fee_payer li key i fee acc))
      \<longrightarrow> snd (validate_fee_payer li key i fee acc) = acc\<lparr>lamports := lamports acc - fee\<rparr> \<and> fee \<le> lamports acc)"
proof (cases "lamports acc = 0 \<or> get_system_account_kind li acc = None")
  case True
  then show ?thesis by (auto simp: validate_fee_payer_def monad_defs is_ok_def)
next
  case False
  then obtain kind where kind: "get_system_account_kind li acc = Some kind" and "lamports acc \<noteq> 0" by auto
  show ?thesis
  proof (cases "unat (fee_payer_min_balance li kind) + unat fee \<le> unat (lamports acc)")
    case True
    then have le: "fee \<le> lamports acc" by (simp add: word_le_nat_alt)
    have sub: "checked_sub (lamports acc) fee = Some (lamports acc - fee)" using le by (simp add: checked_sub_def)
    show ?thesis
      using True by (simp add: validate_fee_payer_def monad_defs is_ok_def checked_sub_twice sub kind le \<open>lamports acc \<noteq> 0\<close>
          check_rent_state_with_account_def rent_transition_after_fee not_less)
  next
    case False
    then show ?thesis using kind \<open>lamports acc \<noteq> 0\<close> by (simp add: validate_fee_payer_def monad_defs is_ok_def checked_sub_twice not_le)
  qed
qed


text \<open>The hypotheses hold for the small bank: its database is live, and its transaction loads.\<close>

lemma sample_database_live: "live_database sample_loader"
  by (auto simp: live_database_def sample_loader_def sample_database_def sample_account_def split: if_splits)

interpretation sample: live_loader sample_loader
  by unfold_locales (rule sample_database_live)

lemma sample_loads:
  "load_transaction_accounts sample_loader sample_transaction sample_payer 9000 empty_loader
    = (Ok sample_loaded, snd (load_transaction_accounts sample_loader sample_transaction sample_payer 9000 empty_loader))"
proof -
  have "fst (load_transaction_accounts sample_loader sample_transaction sample_payer 9000 empty_loader) = Ok sample_loaded"
    by (simp add: load_transaction_accounts_def sample_transaction_def Let_def monad_defs increase_calculated_data_size_def usize_saturating_def
    ADDRESS_LOOKUP_TABLE_BASE_SIZE_def TRANSACTION_ACCOUNT_BASE_SIZE_def saturating_add_def collect_loaded_account_def count_programdata_def sample_payer_def sample_account_def sample_loader_def
    load_transaction_account_def on_loader_def loader_load_transaction_account_def load_account_def do_load_def empty_loader_def new_with_loaded_accounts_capacity_def
    sample_database_def loader_insert_def update_rent_exempt_status_for_account_def program_instructions_iter_def ix_program_index_def sample_loaded_def RENT_EXEMPT_RENT_EPOCH_def)
  then show ?thesis by (metis prod.collapse)
qed

theorem account_loader_refines_map_witness:
  "fst (loader_run sample_loader sample_ops empty_loader)
    = [Some (sample_account 300 20 [3]), None, Some (sample_account 990 0 (replicate 32 0)), None, None,
       Some (sample_account 980 0 (replicate 32 0))]"
  unfolding account_loader_refines_map [OF sample_database_live, THEN conjunct1]
  by (simp add: sample_ops_def loader_view_def do_load_def empty_loader_def new_with_loaded_accounts_capacity_def sample_loader_def sample_database_def
   write_all_def committed_accounts_def sample_transaction_def rollback_list_def is_instruction_account_def alive_def sample_account_def upt_rec Let_def ix_accounts_def)

theorem loaded_accounts_bounded_witness:
  "map fst (lts_accounts sample_loaded) = [[1], [3], [4]] \<and> 8248 + (78 + 84) \<le> unat (loaded_accounts_data_size sample_loaded)
   \<and> loader_view sample_loader (snd (load_transaction_accounts sample_loader sample_transaction sample_payer 9000 empty_loader))
     = loader_view sample_loader empty_loader"
proof -
  have payer: "64 + length (data (lta_account sample_payer)) \<le> lta_loaded_size sample_payer" by (simp add: sample_payer_def sample_account_def)
  have "charges sample_loader (lts_accounts sample_loaded) = 78 + 84" by (simp add: charges_def charge_def sample_loaded_def sample_account_def sample_loader_def
   TRANSACTION_ACCOUNT_BASE_SIZE_def)
  then show ?thesis
    using loaded_accounts_bounded [OF sample_database_live payer sample_loads] by (simp add: sample_transaction_def)
qed

theorem validate_fee_payer_spec_witness:
  "snd (validate_fee_payer sample_loader [1] 0 872 (sample_account 1000 0 (replicate 32 0))) = sample_account 128 0 (replicate 32 0)
   \<and> fst (validate_fee_payer sample_loader [1] 0 873 (sample_account 1000 0 (replicate 32 0))) = Err (Fail (InsufficientFundsForRent 0))"
  using validate_fee_payer_spec [of sample_loader "[1]" 0 872 "sample_account 1000 0 (replicate 32 0)"]
    validate_fee_payer_spec [of sample_loader "[1]" 0 873 "sample_account 1000 0 (replicate 32 0)"]
  by (simp add: sample_loader_def sample_account_def fee_payer_min_balance_def is_ok_def)
end
