(* ===== verification/Rt_Ledger.thy ===== *)
theory Rt_Ledger
  imports Rt_Process
begin

text \<open>
  The ledger of a transaction: the balance, the owner and the data of every account, which is what programs are about. The lemmas give the
  effect of each operation on a borrowed account on the ledger; borrowing and dropping a guard do not change it.
\<close>

type_synonym ledger_entry = "u64 \<times> pubkey \<times> bytes"

definition ledger :: "transaction_context \<Rightarrow> ledger_entry list" where
  "ledger tc = map2 (\<lambda>a p. (acc_lamports a, acc_owner a, acc_payload p))
     (shared_account_fields (accounts tc)) (private_account_fields (accounts tc))"

section \<open>Lemmas\<close>

lemma account_write_ledger:
  assumes "accounts_wf (accounts tc)" "borrowed_ok b tc"
  shows "ledger (account_write b a p lam res tc) = (ledger tc)[ba_guard b := (acc_lamports a, acc_owner a, acc_payload p)]"
  using assms by (simp add: ledger_def account_write_def Let_def zip_update map_update)

lemma ledger_nth:
  assumes "accounts_wf (accounts tc)" "borrowed_ok b tc"
  shows "ledger tc ! ba_guard b = (get_lamports b tc, get_owner b tc, get_data b tc)" "ba_guard b < length (ledger tc)"
  using assms by (simp_all add: ledger_def get_lamports_def get_owner_def get_data_def shared_of_def private_of_def accounts_wf_def
      borrowed_ok_def accounts_len_def)

lemma set_lamports_ledger:
  assumes wf: "accounts_wf (accounts tc)" "borrowed_ok b tc" and "set_lamports b x tc = (Ok (), tc')"
  shows "ledger tc' = (ledger tc)[ba_guard b := (x, get_owner b tc, get_data b tc)]"
    "is_writable (ba_account b)" "is_owned_by_current_program b tc \<or> get_lamports b tc \<le> x"
proof -
  show "is_writable (ba_account b)" "is_owned_by_current_program b tc \<or> get_lamports b tc \<le> x"
    using assms(3) by (auto simp: set_lamports_def not_less split: if_splits)
  have "ledger tc = (ledger tc)[ba_guard b := (get_lamports b tc, get_owner b tc, get_data b tc)]"
    using ledger_nth [OF wf] by (metis list_update_id)
  then show "ledger tc' = (ledger tc)[ba_guard b := (x, get_owner b tc, get_data b tc)]"
    using assms(3)
    by (auto simp: set_lamports_def add_delta_touch [OF wf] modifyM_def write_views [OF wf] checked_i128_def Let_def
        account_write_ledger [OF wf] get_owner_def get_data_def split: if_splits option.splits)
qed

lemma set_owner_ledger:
  assumes wf: "accounts_wf (accounts tc)" "borrowed_ok b tc" and "set_owner b pk tc = (Ok (), tc')"
  shows "ledger tc' = (ledger tc)[ba_guard b := (get_lamports b tc, pk, get_data b tc)]"
proof -
  have "ledger tc = (ledger tc)[ba_guard b := (get_lamports b tc, get_owner b tc, get_data b tc)]"
    using ledger_nth [OF wf] by (metis list_update_id)
  then show ?thesis
    using assms(3)
    by (auto simp: set_owner_def touch_then [OF wf] write_views [OF wf] account_write_ledger [OF wf] get_lamports_def get_data_def
        split: if_splits)
qed

lemma set_data_length_ledger:
  assumes wf: "accounts_wf (accounts tc)" "borrowed_ok b tc" and "set_data_length b n tc = (Ok (), tc')"
  shows "ledger tc' = (ledger tc)[ba_guard b := (get_lamports b tc, get_owner b tc, vec_resize (get_data b tc) n 0)]"
proof -
  have "ledger tc = (ledger tc)[ba_guard b := (get_lamports b tc, get_owner b tc, get_data b tc)]"
    using ledger_nth [OF wf] by (metis list_update_id)
  moreover have "vec_resize (get_data b tc) (length (get_data b tc)) 0 = get_data b tc" by (simp add: vec_resize_def)
  ultimately show ?thesis
    using assms(3)
    by (auto simp: set_data_length_def seqM_liftR touch_and_resize [OF wf] modifyM_def write_views [OF wf] account_write_ledger [OF wf]
        get_lamports_def get_data_def get_owner_def split: if_splits result.splits)
qed

lemma quiet_ledger:
  assumes "tc' = tc\<lparr>accounts := accounts tc'\<rparr>" "map acc_lamports (shared_account_fields (accounts tc')) = map acc_lamports (shared_account_fields (accounts tc))"
    "map acc_owner (shared_account_fields (accounts tc')) = map acc_owner (shared_account_fields (accounts tc))"
    "map acc_payload (private_account_fields (accounts tc')) = map acc_payload (private_account_fields (accounts tc))"
  shows "ledger tc' = ledger tc"
proof -
  have "ledger t = zip (map acc_lamports (shared_account_fields (accounts t)))
     (zip (map acc_owner (shared_account_fields (accounts t))) (map acc_payload (private_account_fields (accounts t))))" for t
    by (intro nth_equalityI) (simp_all add: ledger_def)
  then show ?thesis using assms(2-) by simp
qed

lemma drop_ledger [simp]: "ledger (drop_borrowed b tc) = ledger tc"
  by (rule quiet_ledger)
    (simp_all add: drop_borrowed_def modify_accounts_def drop_ref_mut_def set_slice_len_def update_shared_def Let_def map_update_same)

lemma try_borrow_ledger:
  assumes "try_borrow_instruction_account i ic tc = (Ok b, tc')"
  shows "ledger tc' = ledger tc" "get_instruction_account i ic = Ok (ba_account b)" "borrowed_ok b tc'"
    "accounts_wf (accounts tc) \<Longrightarrow> accounts_wf (accounts tc')"
  using assms try_borrow_frame(2) [OF assms]
  by (auto simp: try_borrow_instruction_account_def bindM_def liftR_def on_accounts_def ret_def try_borrow_mut_def
      borrow_with_def Let_def ledger_def accounts_wf_def accounts_len_def payload_len_def
      split: result.splits option.splits if_splits)

lemma with_account_Ok:
  assumes "with_account i ic body c = (Ok x, c')" "accounts_wf (accounts (transaction_context c))"
  obtains b tc e where "get_instruction_account i ic = Ok (ba_account b)" "borrowed_ok b tc" "accounts_wf (accounts tc)"
    "ledger tc = ledger (transaction_context c)" "body b (c\<lparr>transaction_context := tc\<rparr>) = (Ok x, e)"
    "ledger (transaction_context c') = ledger (transaction_context e)" "c' = e\<lparr>transaction_context := drop_borrowed b (transaction_context e)\<rparr>"
proof -
  obtain b tc e where bor: "try_borrow_instruction_account i ic (transaction_context c) = (Ok b, tc)"
    and body: "body b (c\<lparr>transaction_context := tc\<rparr>) = (Ok x, e)" "c' = e\<lparr>transaction_context := drop_borrowed b (transaction_context e)\<rparr>"
    using assms(1) by (auto simp: with_account_def bindM_def on_transaction_def split: prod.splits result.splits)
  show thesis
    by (rule that [of b tc e]) (use try_borrow_ledger [OF bor] body assms(2) in auto)
qed

lemma steady_keep:
  assumes "steady sample_sysvar B m" "m c = (Ok x, c')" "accounts_wf (accounts (transaction_context c))"
    "\<forall>b \<in> B. borrowed_ok b (transaction_context c)"
  shows "accounts_wf (accounts (transaction_context c'))" "\<forall>b \<in> B. borrowed_ok b (transaction_context c')"
proof -
  have r: "runs sample_sysvar True c c'" using steadyD [OF assms(1,2) _ sample_keeps_length assms(3,4)] by (simp add: is_ok_def)
  show "accounts_wf (accounts (transaction_context c'))" "\<forall>b \<in> B. borrowed_ok b (transaction_context c')"
    using runs_keep [OF sample_keeps_length r assms(3)] assms(4) by blast+
qed

end
