(* ===== verification/Prog_System_Spec.thy ===== *)
theory Prog_System_Spec
  imports Prog_System Rt_Ledger
begin

text \<open>
  What the System program does to the ledger: transfers and the creation of accounts, specified on the ledger and refined by the code.
\<close>

section \<open>Specification\<close>

definition ledger_transfer :: "nat \<Rightarrow> nat \<Rightarrow> u64 \<Rightarrow> ledger_entry list \<Rightarrow> ledger_entry list option" where
  "ledger_transfer from to amount L =
    (case L ! from of (balance, own, bs) \<Rightarrow>
      if bs = [] \<and> amount \<le> balance then
        (let L = L[from := (balance - amount, own, bs)] in
         case L ! to of (balance, own, bs) \<Rightarrow>
           map_option (\<lambda>sum. L[to := (sum, own, bs)]) (checked_add balance amount))
      else None)"
definition ledger_create :: "pubkey \<Rightarrow> nat \<Rightarrow> nat \<Rightarrow> pubkey \<Rightarrow> ledger_entry list \<Rightarrow> ledger_entry list option" where
  "ledger_create system_id to requested new_owner L =
    (if L ! to = (0, system_id, []) then Some (L[to := (0, new_owner, replicate requested 0)]) else None)"

text \<open>A bank of a payer, a fresh account and the System program.\<close>

definition bank_accounts :: "(pubkey \<times> account_shared_data) list" where
  "bank_accounts =
    [([1], \<lparr>lamports = 100, data = [], owner = [9], executable_flag = False, rent_epoch = 0\<rparr>),
     ([2], \<lparr>lamports = 0, data = [], owner = [9], executable_flag = False, rent_epoch = 0\<rparr>),
     ([9], \<lparr>lamports = 1, data = [], owner = [7], executable_flag = True, rent_epoch = 0\<rparr>)]"

definition bank_system :: "(unit, bytes, bytes) system_interface" where
  "bank_system =
    \<lparr>system_program_id = [9], max_permitted_data_length = 10485760, debug_key = (\<lambda>_. []), create_with_seed = (\<lambda>_ _ _. Err 0),
     decode_instruction = (\<lambda>_. Ok (Transfer 30)), instruction_error_of_system = (\<lambda>_. Custom 0), decode_versions = (\<lambda>_. None),
     encode_versions = (\<lambda>_. None), versions_new = (\<lambda>_. ()), versions_state = (\<lambda>_. Uninitialized), versions_upgrade = (\<lambda>_. None),
     versions_authorize = (\<lambda>_ _ _. Err Nonce_uninitialized), durable_nonce_from_blockhash = id, minimum_balance = (\<lambda>_ _. 0),
     blockhashes_is_empty = (\<lambda>_. True)\<rparr>"

definition bank_env :: "(bytes, bytes, bytes, bytes) environment_config" where
  "bank_env = \<lparr>blockhash = [], blockhash_lamports_per_signature = 0, alpenglow_migration_succeeded = False, env_features = all_enabled,
     env_sysvar_cache = sysvar_cache_default\<rparr>"

definition bank_context :: invoke_context where
  "bank_context = invoke_context_new (context_new bank_accounts (\<lambda>_ _. True) 5 64 1) None
    wallet_budget default_cost"

definition bank_ic :: instruction_context where
  "bank_ic = \<lparr>ic_index_in_trace = 0, ic_nesting_level = 0, ic_index_of_caller = 0, ic_program_index = 2,
     ic_accounts = [instruction_account_new 0 True True, instruction_account_new 1 True True], ic_dedup_map = [], ic_data = []\<rparr>"

section \<open>Lemmas\<close>

lemma transfer_verified_refines:
  assumes "accounts_wf (accounts (transaction_context c))" "transfer_verified sys i j amount ic c = (Ok (), c')"
  shows "\<exists>a b. get_instruction_account i ic = Ok a \<and> get_instruction_account j ic = Ok b \<and> is_writable a \<and> is_writable b
    \<and> ledger_transfer (unat (index_in_transaction a)) (unat (index_in_transaction b)) amount (ledger (transaction_context c))
      = Some (ledger (transaction_context c'))"
proof -
  let ?debit = "\<lambda>from. bindM (on_account (get_data from)) (\<lambda>from_data.
          if from_data \<noteq> [] then log_and_fail ''Transfer: `from` must not carry data'' InvalidArgument
          else bindM (on_account (get_lamports from)) (\<lambda>balance.
            if amount > balance then
              fail_system sys (''Transfer: insufficient lamports '' @ show_nat (unat balance) @ '', need '' @ show_nat (unat amount))
                ResultWithNegativeLamports
            else on_transaction (checked_sub_lamports from amount)))"
  obtain c1 where run: "with_account i ic ?debit c = (Ok (), c1)"
    "with_account j ic (\<lambda>to. on_transaction (checked_add_lamports to amount)) c1 = (Ok (), c')"
    using assms(2) by (auto simp: transfer_verified_def seqM_def bindM_def split: prod.splits result.splits)
  from with_account_Ok [OF run(1) assms(1)] obtain b tc e where b: "get_instruction_account i ic = Ok (ba_account b)"
    "borrowed_ok b tc" "accounts_wf (accounts tc)" "ledger tc = ledger (transaction_context c)"
    "?debit b (c\<lparr>transaction_context := tc\<rparr>) = (Ok (), e)" "ledger (transaction_context c1) = ledger (transaction_context e)" .
  have debit: "get_data b tc = []" "amount \<le> get_lamports b tc"
    "set_lamports b (get_lamports b tc - amount) tc = (Ok (), transaction_context e)"
    using b(5) by (auto simp: bindM_def on_account_def getsM_def fail_system_def log_and_fail_def seqM_def modifyM_def fail_with_def throw_def
        on_transaction_def checked_sub_lamports_def checked_sub_def not_less split: if_splits prod.splits)
  have wf1: "accounts_wf (accounts (transaction_context c1))"
  proof -
    have "steady sample_sysvar {} (with_account i ic ?debit)" by (intro steady_rules; simp)
    from steady_keep(1) [OF this run(1) assms(1)] show ?thesis by simp
  qed
  from with_account_Ok [OF run(2) wf1] obtain b' tc' e' where b': "get_instruction_account j ic = Ok (ba_account b')"
    "borrowed_ok b' tc'" "accounts_wf (accounts tc')" "ledger tc' = ledger (transaction_context c1)"
    "on_transaction (checked_add_lamports b' amount) (c1\<lparr>transaction_context := tc'\<rparr>) = (Ok (), e')"
    "ledger (transaction_context c') = ledger (transaction_context e')" .
  obtain s where credit: "checked_add (get_lamports b' tc') amount = Some s" "set_lamports b' s tc' = (Ok (), transaction_context e')"
    using b'(5) by (auto simp: on_transaction_def checked_add_lamports_def split: option.splits prod.splits)
  note L1 = set_lamports_ledger [OF b(3,2) debit(3)] and L2 = set_lamports_ledger [OF b'(3,2) credit(2)]
  have g: "ba_guard b = unat (index_in_transaction (ba_account b))" "ba_guard b' = unat (index_in_transaction (ba_account b'))"
    using b(2) b'(2) by (simp_all add: borrowed_ok_def)
  show ?thesis
    using b(1,4,6) b'(1,4,6) debit(1,2) credit(1) L1 L2 ledger_nth [OF b(3,2)] ledger_nth [OF b'(3,2)] g
    by (simp add: ledger_transfer_def Let_def)
qed

lemma transfer_ledger:
  assumes "accounts_wf (accounts (transaction_context c))" "transfer sys rt i j amount ic c = (Ok (), c')"
  shows "\<exists>a b. get_instruction_account i ic = Ok a \<and> get_instruction_account j ic = Ok b
    \<and> is_signer a \<and> is_writable a \<and> is_writable b
    \<and> ledger_transfer (unat (index_in_transaction a)) (unat (index_in_transaction b)) amount (ledger (transaction_context c))
      = Some (ledger (transaction_context c'))"
proof -
  have "is_instruction_account_signer i ic = Ok True" "transfer_verified sys i j amount ic c = (Ok (), c')"
    using assms(2) by (auto simp: transfer_def bindM_def try_account_def liftR_def log_key_and_fail_def getsM_def log_and_fail_def
        fail_with_def throw_def seqM_def modifyM_def split: result.splits if_splits)
  then show ?thesis
    using transfer_verified_refines [OF assms(1)] by (fastforce simp: is_instruction_account_signer_def bindR_eq_Ok_iff)
qed

lemma allocate_and_assign_Ok:
  assumes "allocate_and_assign sys b address requested new_owner signers c = (Ok (), c')"
    "accounts_wf (accounts (transaction_context c))" "borrowed_ok b (transaction_context c)"
  shows "address_is_signer address signers" "requested \<le> max_permitted_data_length sys"
    "get_data b (transaction_context c) = []" "get_owner b (transaction_context c) = system_program_id sys"
    "ledger (transaction_context c') = (ledger (transaction_context c))
      [ba_guard b := (get_lamports b (transaction_context c), new_owner, replicate (unat requested) 0)]"
proof -
  let ?tc = "transaction_context c"
  obtain c1 where run: "allocate sys b address requested signers c = (Ok (), c1)" "assign sys b address new_owner signers c1 = (Ok (), c')"
    using assms(1) by (auto simp: allocate_and_assign_def seqM_def bindM_def split: prod.splits result.splits)
  from run(1) show sign: "address_is_signer address signers" and "requested \<le> max_permitted_data_length sys"
    and empty: "get_data b ?tc = []" and "get_owner b ?tc = system_program_id sys"
    by (auto simp: allocate_def bindM_def on_account_def getsM_def log_and_fail_def fail_system_def seqM_def modifyM_def fail_with_def throw_def
        split: if_splits)
  have len: "set_data_length b (unat requested) ?tc = (Ok (), transaction_context c1)"
    using run(1) by (auto simp: allocate_def bindM_def on_account_def getsM_def log_and_fail_def fail_system_def seqM_def modifyM_def
        fail_with_def throw_def on_transaction_def split: if_splits prod.splits)
  have ok: "accounts_wf (accounts (transaction_context c1))" "borrowed_ok b (transaction_context c1)"
    using steady_keep [OF accounts_steady(1) run(1) assms(2), of "{b}"] assms(3) by simp_all
  have L1: "ledger (transaction_context c1) = (ledger ?tc)[ba_guard b := (get_lamports b ?tc, get_owner b ?tc, replicate (unat requested) 0)]"
    using set_data_length_ledger [OF assms(2,3) len] empty by (simp add: vec_resize_def)
  then have now: "get_lamports b (transaction_context c1) = get_lamports b ?tc" "get_data b (transaction_context c1) = replicate (unat requested) 0"
    "get_owner b (transaction_context c1) = get_owner b ?tc"
    using ledger_nth [OF ok] ledger_nth [OF assms(2,3)] by simp_all
  show "ledger (transaction_context c') = (ledger ?tc)[ba_guard b := (get_lamports b ?tc, new_owner, replicate (unat requested) 0)]"
  proof (cases "get_owner b (transaction_context c1) = new_owner")
    case True
    then have "c' = c1" using run(2) by (simp add: assign_def bindM_def on_account_def getsM_def ret_def)
    then show ?thesis using L1 True now(3) by simp
  next
    case False
    then have "set_owner b new_owner (transaction_context c1) = (Ok (), transaction_context c')"
      using run(2) sign by (auto simp: assign_def bindM_def on_account_def getsM_def on_transaction_def split: prod.splits)
    from set_owner_ledger [OF ok this] L1 now show ?thesis by simp
  qed
qed

lemma create_account_ledger:
  assumes "accounts_wf (accounts (transaction_context c))"
    "create_account sys rt i j address amount requested new_owner signers ic c = (Ok (), c')"
  shows "\<exists>a b. get_instruction_account i ic = Ok a \<and> get_instruction_account j ic = Ok b
    \<and> is_signer a \<and> is_writable a \<and> is_writable b \<and> address_is_signer address signers \<and> requested \<le> max_permitted_data_length sys
    \<and> Option.bind (ledger_create (system_program_id sys) (unat (index_in_transaction b)) (unat requested) new_owner
          (ledger (transaction_context c)))
        (ledger_transfer (unat (index_in_transaction a)) (unat (index_in_transaction b)) amount)
      = Some (ledger (transaction_context c'))"
proof -
  let ?fresh = "\<lambda>to. bindM (on_account (get_lamports to)) (\<lambda>balance.
          if balance > 0 then
            fail_system sys (''Create Account: account '' @ show_address sys address @ '' already in use'') AccountAlreadyInUse
          else allocate_and_assign sys to address requested new_owner signers)"
  obtain c1 where run: "with_account j ic ?fresh c = (Ok (), c1)" "transfer sys rt i j amount ic c1 = (Ok (), c')"
    using assms(2) by (auto simp: create_account_def seqM_def bindM_def split: prod.splits result.splits)
  have "steady sample_sysvar {} (with_account j ic ?fresh)" by (intro steady_rules; simp)
  from steady_keep(1) [OF this run(1) assms(1)] have wf1: "accounts_wf (accounts (transaction_context c1))" by simp
  from with_account_Ok [OF run(1) assms(1)] obtain b tc e where b: "get_instruction_account j ic = Ok (ba_account b)"
    "borrowed_ok b tc" "accounts_wf (accounts tc)" "ledger tc = ledger (transaction_context c)"
    "?fresh b (c\<lparr>transaction_context := tc\<rparr>) = (Ok (), e)" "ledger (transaction_context c1) = ledger (transaction_context e)" .
  have zero: "get_lamports b tc = 0" and alloc: "allocate_and_assign sys b address requested new_owner signers (c\<lparr>transaction_context := tc\<rparr>) = (Ok (), e)"
    using b(5) by (auto simp: bindM_def on_account_def getsM_def fail_system_def log_and_fail_def seqM_def modifyM_def fail_with_def throw_def
        word_greater_zero_iff split: if_splits)
  note fresh = allocate_and_assign_Ok [OF alloc, simplified, OF b(3,2)]
  have g: "ba_guard b = unat (index_in_transaction (ba_account b))" using b(2) by (simp add: borrowed_ok_def)
  have "ledger_create (system_program_id sys) (unat (index_in_transaction (ba_account b))) (unat requested) new_owner
      (ledger (transaction_context c)) = Some (ledger (transaction_context c1))"
    using ledger_nth [OF b(3,2)] zero fresh b(4,6) g by (simp add: ledger_create_def)
  then show ?thesis using transfer_ledger [OF wf1 run(2)] b(1) fresh by auto
qed

lemma bank_wf: "accounts_wf (accounts (transaction_context bank_context))"
  by (simp add: bank_context_def invoke_context_new_def context_new_def Let_def accounts_new_wf)

lemma bank_ledger: "ledger (transaction_context bank_context) = [(100, [9], []), (0, [9], []), (1, [7], [])]"
  by (simp add: bank_context_def invoke_context_new_def context_new_def Let_def accounts_new_def new_shared_fields_def
      new_private_fields_def ledger_def bank_accounts_def)

lemma bank_account:
  "get_instruction_account 0 bank_ic = Ok a \<longleftrightarrow> a = instruction_account_new 0 True True"
  "get_instruction_account 1 bank_ic = Ok a \<longleftrightarrow> a = instruction_account_new 1 True True"
  "index_in_transaction (instruction_account_new k s w) = k" "system_program_id bank_system = [9]"
  by (auto simp: bank_ic_def get_instruction_account_def get_at_def ok_or_def instruction_account_new_def bank_system_def)

lemmas bank_eval = bank_context_def bank_ic_def bank_accounts_def invoke_context_new_def context_new_def accounts_new_def new_shared_fields_def
  new_private_fields_def with_account_def on_account_def try_account_def on_transaction_def try_borrow_instruction_account_def
  get_instruction_account_def try_borrow_mut_def borrow_with_def counter_try_borrow_mut_def is_writing_def is_reading_def
  drop_borrowed_def drop_ref_mut_def set_slice_len_def payload_len_def update_shared_def instruction_account_new_def
  is_instruction_account_signer_def is_signer_def is_writable_def bool_as_u8_def get_data_def get_lamports_def get_owner_def
  shared_of_def private_of_def checked_add_lamports_def checked_sub_lamports_def set_lamports_def is_owned_by_current_program_def
  get_key_of_account_at_index_def account_key_def on_accounts_def modify_accounts_def add_lamports_delta_def touch_borrowed_def touch_def
  view_set_lamports_def checked_i128_def checked_add_def checked_sub_def get_at_def ok_or_def monad_defs Let_def
  counter_release_borrow_mut_def check_accounts_def check_number_of_instruction_accounts_def get_number_of_instruction_accounts_def

lemmas bank_create_eval = process_system_instruction_def process_create_account_def with_address_def address_create_def create_account_def
  allocate_and_assign_def allocate_def assign_def transfer_def transfer_verified_def address_is_signer_def bank_system_def
  get_key_of_instruction_account_def get_index_of_instruction_account_in_transaction_def set_data_length_def set_owner_def
  can_borrowed_be_resized_def can_data_be_resized_def can_data_be_changed_def change_resize_delta_def
  update_accounts_resize_delta_def view_resize_def view_copy_into_owner_from_slice_def view_set_owner_def update_private_def vec_resize_def view_write_data_def
  usize_as_i64_def saturate_i64_def is_zeroed_iff MAX_ACCOUNT_DATA_LEN_def MAX_ACCOUNT_DATA_GROWTH_PER_TRANSACTION_def

lemma bank_runs:
  "fst (process_system_instruction bank_system sv rt env (Transfer 30) {[1], [2]} bank_ic bank_context) = Ok ()"
  by (simp add: process_system_instruction_def transfer_def transfer_verified_def bank_eval)

lemma bank_creates:
  "fst (process_system_instruction bank_system sv rt env (CreateAccount 30 3 [5]) {[1], [2]} bank_ic bank_context) = Ok ()"
  by (simp add: process_system_instruction_def process_create_account_def with_address_def address_create_def create_account_def bank_system_def,
      simp add: bank_eval get_key_of_instruction_account_def get_index_of_instruction_account_in_transaction_def,
      simp add: bank_eval bank_create_eval)

section \<open>Properties\<close>

text \<open>C15. A transfer of the System program does to the ledger of the transaction what a transfer means. When it succeeds, the first account
  signed and is writable, the second is writable, the sender held the amount and no data, the amount has moved from one balance to
  the other without overflow, and no other balance, owner or data has changed; a transfer to itself leaves the ledger as it was.\<close>

theorem system_transfer_refines:
  assumes "accounts_wf (accounts (transaction_context c))"
    "process_system_instruction sys sv rt env (Transfer amount) signers ic c = (Ok (), c')"
  shows "\<exists>a b. get_instruction_account 0 ic = Ok a \<and> get_instruction_account 1 ic = Ok b
    \<and> is_signer a \<and> is_writable a \<and> is_writable b
    \<and> ledger_transfer (unat (index_in_transaction a)) (unat (index_in_transaction b)) amount (ledger (transaction_context c))
      = Some (ledger (transaction_context c'))"
proof -
  have "transfer sys rt 0 1 amount ic c = (Ok (), c')"
    using assms(2) by (auto simp: process_system_instruction_def check_accounts_def try_account_def seqM_def bindM_def liftR_def
        split: result.splits)
  then show ?thesis by (rule transfer_ledger [OF assms(1)])
qed

theorem system_transfer_refines_witness:
  "ledger (transaction_context (snd (process_system_instruction bank_system sample_sysvars wallet_runtime bank_env (Transfer 30)
      {[1], [2]} bank_ic bank_context))) = [(70, [9], []), (30, [9], []), (1, [7], [])]"
proof -
  let ?r = "process_system_instruction bank_system sample_sysvars wallet_runtime bank_env (Transfer 30) {[1], [2]} bank_ic bank_context"
  have "?r = (Ok (), snd ?r)" using bank_runs by (metis surjective_pairing)
  from system_transfer_refines [OF bank_wf this] show ?thesis
    by (auto simp: bank_ledger ledger_transfer_def bank_account checked_add_def)
qed

text \<open>C14. Creating an account takes a fresh account only. When \<^verbatim>\<open>CreateAccount\<close> succeeds, the new account had no lamports and no data and was
  owned by the System program, its key is among the signers, the requested size is within the limit and the payer signed; afterwards it
  holds exactly the requested number of zero bytes and the amount paid and belongs to the requested owner, the payer has paid the
  amount, and nothing else of the ledger has changed.\<close>

theorem system_create_account_refines:
  assumes "accounts_wf (accounts (transaction_context c))"
    "process_system_instruction sys sv rt env (CreateAccount amount requested new_owner) signers ic c = (Ok (), c')"
  shows "\<exists>a b key. get_instruction_account 0 ic = Ok a \<and> get_instruction_account 1 ic = Ok b
    \<and> get_key_of_instruction_account 1 ic (transaction_context c) = Ok key \<and> key \<in> signers
    \<and> is_signer a \<and> is_writable a \<and> is_writable b \<and> requested \<le> max_permitted_data_length sys
    \<and> Option.bind (ledger_create (system_program_id sys) (unat (index_in_transaction b)) (unat requested) new_owner
          (ledger (transaction_context c)))
        (ledger_transfer (unat (index_in_transaction a)) (unat (index_in_transaction b)) amount)
      = Some (ledger (transaction_context c'))"
proof -
  obtain key where key: "get_key_of_instruction_account 1 ic (transaction_context c) = Ok key"
    and run: "create_account sys rt 0 1 \<lparr>adr_address = key, adr_base = None\<rparr> amount requested new_owner signers ic c = (Ok (), c')"
    using assms(2) by (auto simp: process_system_instruction_def process_create_account_def with_address_def address_create_def
        check_accounts_def try_account_def seqM_def bindM_def liftR_def ret_def split: result.splits)
  from create_account_ledger [OF assms(1) run] key show ?thesis by (auto simp: address_is_signer_def)
qed

theorem system_create_account_refines_witness:
  "ledger (transaction_context (snd (process_system_instruction bank_system sample_sysvars wallet_runtime bank_env (CreateAccount 30 3 [5])
      {[1], [2]} bank_ic bank_context))) = [(70, [9], []), (30, [5], [0, 0, 0]), (1, [7], [])]"
proof -
  let ?r = "process_system_instruction bank_system sample_sysvars wallet_runtime bank_env (CreateAccount 30 3 [5]) {[1], [2]} bank_ic bank_context"
  have "?r = (Ok (), snd ?r)" using bank_creates by (metis surjective_pairing)
  moreover have "replicate 3 (0 :: u8) = [0, 0, 0]" by (simp add: numeral_eq_Suc)
  ultimately show ?thesis
    using system_create_account_refines [OF bank_wf, of bank_system]
    by (fastforce simp: bank_ledger ledger_transfer_def ledger_create_def bank_account checked_add_def)
qed

end
