(* ===== verification/Svm_Message.thy ===== *)
theory Svm_Message
  imports Prog_System_Spec Svm_Transaction
begin

text \<open>
  The message processor, \<^verbatim>\<open>src/svm/src/message_processor.rs\<close>, over the invoke context, with the compute-budget program
  (\<^verbatim>\<open>src/programs/compute-budget/src/lib.rs\<close>) and the System program as the built-in programs. Timings are left out.
\<close>

section \<open>Processing a message\<close>

fun process_from :: "runtime \<Rightarrow> svm_message \<Rightarrow> nat \<Rightarrow> (u8 \<times> u8 list \<times> bytes) list
    \<Rightarrow> (invoke_context \<times> u64, unit, transaction_error failure) sm" where
  "process_from rt message k [] s = (Ok (), s)"
| "process_from rt message k ((program_index, indices, bs) # ixs) (c, accumulated_consumed_units) =
    (let program_id = message_program_id message program_index;
         (result, (c, compute_units_consumed)) =
           (if is_precompile rt program_id
            then (let (r, c) = process_precompile rt program_id bs (map (\<lambda>(_, _, d). d) (message_instructions message)) c in (r, (c, 0)))
            else process_instruction rt (c, 0));
         accumulated_consumed_units = saturating_add accumulated_consumed_units compute_units_consumed
     in case result of
          Ok _ \<Rightarrow> process_from rt message (Suc k) ixs (c, accumulated_consumed_units)
        | Err Panic \<Rightarrow> (Err Panic, (c, accumulated_consumed_units))
        | Err (Fail e) \<Rightarrow> (Err (Fail (InstructionError (word_of_nat k) e)), (c, accumulated_consumed_units)))"

definition process_message :: "runtime \<Rightarrow> svm_message \<Rightarrow> (invoke_context \<times> u64, unit, transaction_error failure) sm" where
  "process_message rt message =
    (\<lambda>(c, accumulated_consumed_units).
      case prepare_top_level_instructions message c of
        (Ok _, c) \<Rightarrow> process_from rt message 0 (message_instructions message) (c, accumulated_consumed_units)
      | (Err Panic, c) \<Rightarrow> (Err Panic, (c, accumulated_consumed_units))
      | (Err (Fail (k, e)), c) \<Rightarrow> (Err (Fail (InstructionError k e)), (c, accumulated_consumed_units)))"

section \<open>The built-in programs\<close>

definition compute_budget_entrypoint :: builtin where
  "compute_budget_entrypoint = declare_process_instruction 150 (ret ())"

text \<open>A runtime whose program cache holds the System program and the compute-budget program.\<close>

definition native_runtime where
  "native_runtime rt sys sv env compute_budget_id =
    rt\<lparr>rt_find := (\<lambda>key.
      if key = system_program_id sys then Some (Builtin [(ENTRYPOINT_KEY, [], system_entrypoint sys sv rt env)])
      else if key = compute_budget_id then Some (Builtin [(ENTRYPOINT_KEY, [], compute_budget_entrypoint)])
      else None)\<rparr>"

locale native_programs =
  fixes rt :: runtime
    and sys :: "('v, 'rent, 'rb) system_interface"
    and sv :: "('clock, 'es, 'er, 'rent, 'sh, 'st, 'lrs, 'fees, 'rb) sysvar_types"
    and env :: "('sh, 'st, 'fees, 'rb) environment_config"
    and compute_budget_id :: pubkey
  assumes sysvar_contract: "sysvar_keeps_length (rt_sysvar rt)"

text \<open>A message with one instruction, a transfer.\<close>

definition bank_message :: svm_message where
  "bank_message = \<lparr>message_instructions = [(2, [0, 1], [])], message_program_id = (\<lambda>_. [9]), message_is_signer = (\<lambda>n. n = 0),
     message_is_writable = (\<lambda>n. n < 2)\<rparr>"

definition bank_runtime :: runtime where
  "bank_runtime = native_runtime wallet_runtime bank_system sample_sysvars bank_env [3]"

definition bank_prepared :: invoke_context where
  "bank_prepared = snd (prepare_top_level_instructions bank_message bank_context)"

definition bank_pushed :: invoke_context where
  "bank_pushed = snd (invoke_push bank_runtime bank_prepared)"

definition bank_moved :: transaction_accounts where
  "bank_moved = (let ta = accounts_new bank_accounts; sh = shared_account_fields ta in
     ta\<lparr>shared_account_fields := sh[0 := (sh ! 0)\<lparr>acc_lamports := 70\<rparr>, 1 := (sh ! 1)\<lparr>acc_lamports := 30\<rparr>], touched_flags := [True, True, False]\<rparr>)"

abbreviation bank_instruction :: "nat \<Rightarrow> u16 list \<Rightarrow> instruction_context" where
  "bank_instruction x z \<equiv> \<lparr>ic_index_in_trace = 0, ic_nesting_level = 0, ic_index_of_caller = x, ic_program_index = 2,
     ic_accounts = [instruction_account_new 0 True True, instruction_account_new 1 False True], ic_dedup_map = z, ic_data = []\<rparr>"

definition bank_resolved :: invoke_context where
  "bank_resolved = bank_pushed\<lparr>transaction_context := snd (set_return_data [9] [] (transaction_context bank_pushed))\<rparr>"

definition bank_done :: invoke_context where
  "bank_done = bank_resolved\<lparr>transaction_context := (transaction_context bank_resolved)\<lparr>accounts := bank_moved\<rparr>, compute_meter := 850\<rparr>"

section \<open>Lemmas\<close>

lemma find_native:
  "find_entrypoint (native_runtime rt sys sv env cb) key =
    (if key = system_program_id sys then Ok (system_entrypoint sys sv rt env)
     else if key = cb then Ok compute_budget_entrypoint else Err (Fail UnsupportedProgramId))"
  by (simp add: find_entrypoint_def native_runtime_def lookup_by_key_def)

lemma compute_budget_steady: "steady sysvar B compute_budget_entrypoint"
  unfolding compute_budget_entrypoint_def by (intro declare_steady steady_rules)

lemma native_sysvar [simp]: "rt_sysvar (native_runtime rt sys sv env cb) = rt_sysvar rt"
  by (simp add: native_runtime_def)

lemma native_builtin_runtime:
  assumes "sysvar_keeps_length (rt_sysvar rt)"
  shows "builtin_runtime (native_runtime rt sys sv env compute_budget_id)"
proof
  show "sysvar_keeps_length (rt_sysvar (native_runtime rt sys sv env compute_budget_id))" using assms by simp
  show "steady (rt_sysvar (native_runtime rt sys sv env compute_budget_id)) {} f"
    if "find_entrypoint (native_runtime rt sys sv env compute_budget_id) key = Ok f" for key f
    using that system_entrypoint_steady compute_budget_steady by (auto simp: find_native split: if_splits)
qed

sublocale native_programs \<subseteq> native: builtin_runtime "native_runtime rt sys sv env compute_budget_id"
  by (rule native_builtin_runtime [OF sysvar_contract])

lemma precompile_runs:
  assumes "sysvar_keeps_length (rt_sysvar rt)" "process_precompile rt pk bs datas c = (r, c')"
  shows "runs (rt_sysvar rt) False c c'" "remaining_units c' = remaining_units c"
    "r = Ok () \<Longrightarrow> instruction_stack (transaction_context c') = instruction_stack (transaction_context c)
      \<and> syscall_contexts c' = syscall_contexts c \<and> lamports_delta (accounts (transaction_context c')) = 0"
proof -
  obtain x c1 where push: "invoke_push rt c = (x, c1)" by (rule prod.exhaust)
  obtain s c2 where pop: "invoke_pop c1 = (s, c2)" by (rule prod.exhaust)
  note p = invoke_push_runs [OF assms(1) push] and q = invoke_pop_runs [OF pop]
  have end_state: "x \<noteq> Ok () \<and> r \<noteq> Ok () \<and> c' = c1 \<or> x = Ok () \<and> c' = c2 \<and> (r = Ok () \<longrightarrow> s = Ok ())"
    using assms(2) push pop by (cases x) (auto simp: process_precompile_def)
  then show "runs (rt_sysvar rt) False c c'" "remaining_units c' = remaining_units c"
    using p(1,2) q(2) runs_then [OF p(1) q(1)] by auto
  show "instruction_stack (transaction_context c') = instruction_stack (transaction_context c)
      \<and> syscall_contexts c' = syscall_contexts c \<and> lamports_delta (accounts (transaction_context c')) = 0" if "r = Ok ()"
    using end_state that p(3) q(3,4,5) by auto
qed

lemma prepare_from_runs:
  "prepare_from message k ixs c = (r, c') \<Longrightarrow> r \<noteq> Err Panic \<Longrightarrow> runs sysvar True c c' \<and> remaining_units c' = remaining_units c
    \<and> lamports_delta (accounts (transaction_context c')) = lamports_delta (accounts (transaction_context c)) \<and> syscall_contexts c' = syscall_contexts c"
proof (induction ixs arbitrary: k c)
  case (Cons ix ixs)
  obtain program_index indices bs where ix: "ix = (program_index, indices, bs)" by (cases ix)
  obtain callee_map ias where t: "top_level_accounts message indices (replicate MAX_ACCOUNTS_PER_TRANSACTION 0xffff) [] = Some (callee_map, ias)"
    using Cons.prems ix by (auto split: option.splits)
  obtain x tc where conf: "configure_instruction_at_index k (ucast program_index) ias callee_map bs None (transaction_context c) = (x, tc)"
    by (rule prod.exhaust)
  let ?d = "c\<lparr>transaction_context := tc\<rparr>"
  have same: "instruction_stack tc = instruction_stack (transaction_context c)" "accounts tc = accounts (transaction_context c)"
    using conf by (auto simp: configure_instruction_at_index_def Let_def split: option.splits prod.splits)
  have d: "runs sysvar True c ?d" using runs_transaction [OF step_configure [OF conf]] same(1) by blast
  show ?case
  proof (cases x)
    case (Ok u)
    then have "prepare_from message (Suc k) ixs ?d = (r, c')" using Cons.prems(1) ix t conf by (simp add: on_transaction_def)
    from Cons.IH [OF this Cons.prems(2)] show ?thesis using runs_trans [OF d] same by (auto simp: remaining_units_def)
  next
    case (Err e)
    then have "c' = ?d" using Cons.prems ix t conf by (auto simp: on_transaction_def split: failure.splits)
    then show ?thesis using d same by (simp add: remaining_units_def)
  qed
qed simp

lemma keys_new: "account_keys (accounts_new txa) = map fst txa"
  by (intro nth_equalityI) (simp_all add: account_keys_def accounts_new_def new_shared_fields_def)

lemma telescope:
  assumes "unat u = unat a - unat b" "b \<le> a" "c \<le> b"
  shows "unat (saturating_add u (saturating_sub b c)) = unat a - unat (c :: u64)" "c \<le> a"
proof -
  have "unat a < 2 ^ 64" using unsigned_less [of a] by simp
  then have "unat u + (unat b - unat c) < 2 ^ 64" using assms by (simp add: word_le_nat_alt)
  then show "unat (saturating_add u (saturating_sub b c)) = unat a - unat c"
    using assms by (simp add: unat_saturating_add unat_saturating_sub word_le_nat_alt)
qed (use assms in simp)

context builtin_runtime
begin

lemma process_from_runs:
  "process_from rt message k ixs (c, u) = (r, (c', u')) \<Longrightarrow> r \<noteq> Err Panic \<Longrightarrow> accounts_wf (accounts (transaction_context c)) \<Longrightarrow>
    runs (rt_sysvar rt) (is_ok r) c c'
    \<and> (r = Ok () \<longrightarrow> syscall_contexts c' = syscall_contexts c
        \<and> (lamports_delta (accounts (transaction_context c)) = 0 \<longrightarrow> lamports_delta (accounts (transaction_context c')) = 0)
        \<and> (\<forall>a. unat u = unat a - unat (remaining_units c) \<longrightarrow> remaining_units c \<le> a \<longrightarrow> unat u' = unat a - unat (remaining_units c')))"
proof (induction ixs arbitrary: k c u)
  case (Cons ix ixs)
  obtain program_index indices bs where ix: "ix = (program_index, indices, bs)" by (cases ix)
  let ?id = "message_program_id message program_index"
  obtain x d v where step: "(if is_precompile rt ?id
      then (let (r, c) = process_precompile rt ?id bs (map (\<lambda>(_, _, d). d) (message_instructions message)) c in (r, (c, 0)))
      else process_instruction rt (c, 0)) = (x, (d, v))" by (metis surj_pair)
  have x: "x \<noteq> Err Panic" using Cons.prems(1,2) ix step by auto
  have one: "runs (rt_sysvar rt) (is_ok x) c d" "x = Ok () \<Longrightarrow> lamports_delta (accounts (transaction_context d)) = 0
      \<and> syscall_contexts d = syscall_contexts c \<and> v = saturating_sub (remaining_units c) (remaining_units d)"
  proof -
    have "x \<noteq> Err Panic \<Longrightarrow> runs (rt_sysvar rt) (is_ok x) c d"
      "x = Ok () \<Longrightarrow> lamports_delta (accounts (transaction_context d)) = 0 \<and> syscall_contexts d = syscall_contexts c
        \<and> v = saturating_sub (remaining_units c) (remaining_units d)"
      if "\<not> is_precompile rt ?id"
      using instruction_runs [of c 0 x d v] step that Cons.prems(3) by auto
    moreover have "runs (rt_sysvar rt) (is_ok x) c d"
      "x = Ok () \<Longrightarrow> lamports_delta (accounts (transaction_context d)) = 0 \<and> syscall_contexts d = syscall_contexts c
        \<and> v = saturating_sub (remaining_units c) (remaining_units d)"
      if "is_precompile rt ?id"
      using precompile_runs [OF sysvar, of ?id bs _ c x d] step that
      by (auto simp: runs_def keeps_frame_def is_ok_def saturating_sub_def split: prod.splits result.splits)
    ultimately show "runs (rt_sysvar rt) (is_ok x) c d" "x = Ok () \<Longrightarrow> lamports_delta (accounts (transaction_context d)) = 0
      \<and> syscall_contexts d = syscall_contexts c \<and> v = saturating_sub (remaining_units c) (remaining_units d)"
      using x by blast+
  qed
  show ?case
  proof (cases x)
    case (Ok y)
    then have rest: "process_from rt message (Suc k) ixs (d, saturating_add u v) = (r, (c', u'))" using Cons.prems(1) ix step by simp
    have d: "runs (rt_sysvar rt) True c d" "remaining_units d \<le> remaining_units c" using one(1) Ok by (simp_all add: is_ok_def runs_def)
    note ih = Cons.IH [OF rest Cons.prems(2) runs_keep(1) [OF sysvar d(1) Cons.prems(3)]]
    show ?thesis using ih one(2) Ok runs_trans [OF d(1)] telescope [OF _ _ d(2)] by auto
  next
    case (Err e)
    then have "r \<noteq> Ok ()" "c' = d" using Cons.prems ix step x by (auto simp: Let_def split: failure.splits)
    then show ?thesis using one(1) Err by (auto simp: is_ok_def split: result.split)
  qed
qed simp

end

lemma message_runs:
  assumes "builtin_runtime rt" "process_message rt message (c, 0) = (Ok (), (c', units))"
    "accounts_wf (accounts (transaction_context c))" "lamports_delta (accounts (transaction_context c)) = 0"
  shows "runs (rt_sysvar rt) True c c'" "syscall_contexts c' = syscall_contexts c"
    "lamports_delta (accounts (transaction_context c')) = 0" "unat units = unat (remaining_units c) - unat (remaining_units c')"
proof -
  obtain d where p: "prepare_top_level_instructions message c = (Ok (), d)"
    and run: "process_from rt message 0 (message_instructions message) (d, 0) = (Ok (), (c', units))"
    using assms(2) by (auto simp: process_message_def split: prod.splits result.splits failure.splits)
  note d = prepare_from_runs [OF p [unfolded prepare_top_level_instructions_def], simplified]
  have sv: "sysvar_keeps_length (rt_sysvar rt)" using assms(1) by (simp add: builtin_runtime_def)
  note r = builtin_runtime.process_from_runs [OF assms(1) run, simplified, OF runs_keep(1) [OF sv conjunct1 [OF d] assms(3)]]
  show "runs (rt_sysvar rt) True c c'" "syscall_contexts c' = syscall_contexts c"
    "lamports_delta (accounts (transaction_context c')) = 0" "unat units = unat (remaining_units c) - unat (remaining_units c')"
    using r d assms(4) runs_trans [OF conjunct1 [OF d]] by (auto simp: is_ok_def)
qed

interpretation bank: native_programs wallet_runtime bank_system sample_sysvars bank_env "[3]"
  by unfold_locales (simp add: sysvar_keeps_length_def wallet_runtime_def)

lemma bank_prepares:
  "prepare_top_level_instructions bank_message bank_context = (Ok (), bank_prepared)"
  by (simp add: prod_eq_iff bank_prepared_def) (simp add: bank_message_def bank_context_def bank_accounts_def context_eval get_at_def Let_def)

lemma bank_pushes: "invoke_push bank_runtime bank_prepared = (Ok (), bank_pushed)"
  by (simp add: prod_eq_iff bank_pushed_def)
    (simp add: bank_prepared_def bank_message_def bank_context_def bank_accounts_def bank_runtime_def native_runtime_def push_eval)

lemma bank_at:
  "accounts (transaction_context bank_pushed) = accounts (transaction_context bank_context)"
  "instruction_stack (transaction_context bank_pushed) = [0]"
  "compute_meter bank_pushed = 1000" "log_collector bank_pushed = None"
  by (simp_all add: bank_pushed_def bank_prepared_def bank_message_def bank_context_def bank_accounts_def bank_runtime_def native_runtime_def push_eval wallet_budget_def)

lemma bank_now: "get_current_instruction_context (transaction_context bank_pushed) =
   Ok \<lparr>ic_index_in_trace = 0, ic_nesting_level = 0, ic_index_of_caller = unat (index_of_caller_instruction instruction_frame_default), ic_program_index = 2,
     ic_accounts = [instruction_account_new 0 True True, instruction_account_new 1 False True],
     ic_dedup_map = (replicate 256 0xffff)[0 := 0, 1 := 1], ic_data = []\<rparr>"
  by (simp add: bank_pushed_def bank_prepared_def bank_message_def bank_context_def bank_accounts_def bank_runtime_def native_runtime_def push_eval wallet_budget_def)
   (simp add: instruction_frame_default_def)

lemma current_context_frame [simp]:
  "get_current_instruction_context (tc\<lparr>accounts := ta\<rparr>) = get_current_instruction_context tc"
  "get_current_instruction_context (tc\<lparr>return_data_bytes := x\<rparr>) = get_current_instruction_context tc"
  "get_current_instruction_context (tc\<lparr>tx_frame := fr\<rparr>) = get_current_instruction_context tc"
  by (simp_all add: get_current_instruction_context_def get_current_instruction_index_def get_instruction_context_at_index_in_trace_def
      split: option.split)

lemma bank_accounts_tc: "accounts (transaction_context bank_pushed) =
   \<lparr>shared_account_fields = shared_account_fields (accounts (transaction_context bank_pushed)),
    private_account_fields = private_account_fields (accounts (transaction_context bank_pushed)), borrow_counters = [0,0,0], touched_flags = [False,False,False],
   resize_delta = 0, lamports_delta = 0\<rparr>"
  "length (shared_account_fields (accounts (transaction_context bank_pushed))) = 3"
  "length (private_account_fields (accounts (transaction_context bank_pushed))) = 3"
  "map acc_owner (shared_account_fields (accounts (transaction_context bank_pushed))) = [[9],[9],[7]]"
  "map acc_key (shared_account_fields (accounts (transaction_context bank_pushed))) = [[1],[2],[9]]"
  by (simp_all add: bank_at bank_context_def invoke_context_new_def context_new_def accounts_new_def bank_accounts_def new_shared_fields_def)

lemma bank_shared:
  "acc_owner (shared_account_fields (accounts (transaction_context bank_pushed)) ! 2) = [7]"
  "acc_key (shared_account_fields (accounts (transaction_context bank_pushed)) ! 2) = [9]"
  using arg_cong [OF bank_accounts_tc(4), of "\<lambda>l. l ! 2"] arg_cong [OF bank_accounts_tc(5), of "\<lambda>l. l ! 2"]
  by (simp_all add: bank_accounts_tc(2))

lemma bank_owner: "get_program_owner \<lparr>ic_index_in_trace = i, ic_nesting_level = j, ic_index_of_caller = x, ic_program_index = 2,
     ic_accounts = y, ic_dedup_map = z, ic_data = w\<rparr> (transaction_context bank_pushed) = (Ok [7], transaction_context bank_pushed)"
proof -
  have "borrow_counters (accounts (transaction_context bank_pushed)) = [0, 0, 0]" by (subst bank_accounts_tc(1)) simp
  moreover have "(accounts (transaction_context bank_pushed))\<lparr>borrow_counters := [0, 0, 0]\<rparr> = accounts (transaction_context bank_pushed)"
    by (subst (1 2) bank_accounts_tc(1)) simp
  moreover have "(transaction_context bank_pushed)\<lparr>accounts := accounts (transaction_context bank_pushed)\<rparr> = transaction_context bank_pushed" by simp
  ultimately show ?thesis
  by (simp add: get_program_owner_def get_index_of_program_account_in_transaction_def bindM_def liftR_def on_accounts_def
   try_borrow_def borrow_with_def modify_accounts_def bank_shared bank_accounts_tc(2,3) get_at_def counter_try_borrow_def Let_def drop_ref_def counter_release_borrow_def is_writing_def is_reading_def)
qed

lemma bank_transfer:
  assumes "accounts (transaction_context c) = accounts_new bank_accounts"
  shows "transfer bank_system rt 0 1 30 (bank_instruction x z) c = (Ok (), c\<lparr>transaction_context := (transaction_context c)\<lparr>accounts := bank_moved\<rparr>\<rparr>)"
  using assms by (simp add: transfer_def transfer_verified_def bank_eval bank_moved_def)

lemma bank_entry:
  assumes "accounts (transaction_context c) = accounts_new bank_accounts" "get_current_instruction_context (transaction_context c) = Ok (bank_instruction x z)"
    "compute_meter c = 1000"
  shows "system_entrypoint bank_system sv rt env c =
     (Ok (), c\<lparr>transaction_context := (transaction_context c)\<lparr>accounts := bank_moved\<rparr>, compute_meter := 850\<rparr>)"
proof -
  have d: "decode_instruction bank_system bs = Ok (Transfer 30)" for bs by (simp add: bank_system_def)
  have sg: "\<exists>s. signers_of [instruction_account_new 0 True True, instruction_account_new 1 False True] (transaction_context c) = Ok s"
    using assms(1) by (simp add: instruction_account_new_def is_signer_def bool_as_u8_def get_key_of_account_at_index_def account_key_def get_at_def
      accounts_new_def bank_accounts_def new_shared_fields_def ok_or_def)
  let ?c = "c\<lparr>compute_meter := 850\<rparr>"
  from bank_transfer [of ?c rt x z] assms(1)
  have t: "transfer bank_system rt 0 1 30 (bank_instruction x z) ?c = (Ok (), ?c\<lparr>transaction_context := (transaction_context c)\<lparr>accounts := bank_moved\<rparr>\<rparr>)" by simp
  show ?thesis using assms(2,3) sg t d
    by (auto simp: system_entrypoint_def declare_process_instruction_def DEFAULT_COMPUTE_UNITS_def seqM_def bindM_def consume_checked_def Let_def
     saturating_sub_def system_process_def try_account_def liftR_def get_signers_def process_system_instruction_def check_accounts_def
     check_number_of_instruction_accounts_def get_number_of_instruction_accounts_def)
qed

lemma bank_resolves: "resolve_program bank_runtime bank_pushed
   = (Ok ([9], system_entrypoint bank_system sample_sysvars wallet_runtime bank_env, [9]), bank_resolved)"
proof -
  have k: "get_program_key (bank_instruction x z) (transaction_context bank_pushed) = Ok [9]" for x z
    by (simp add: get_program_key_def get_index_of_program_account_in_transaction_def get_key_of_account_at_index_def account_key_def
       get_at_def bank_shared bank_accounts_tc(2) ok_or_def)
  have rt: "native_loader_id bank_runtime = [7]" by (simp add: bank_runtime_def native_runtime_def wallet_runtime_def)
  have f: "find_entrypoint bank_runtime [9] = Ok (system_entrypoint bank_system sample_sysvars wallet_runtime bank_env)"
    unfolding bank_runtime_def by (simp add: find_native bank_account(4))
  show ?thesis
    by (simp add: resolve_program_def bindM_def liftR_def bank_now builtin_id_of_def on_transaction_def bank_owner rt k f seqM_def
      set_return_data_def Let_def bank_resolved_def ret_def)
qed

lemma bank_resolved_at:
  "accounts (transaction_context bank_resolved) = accounts_new bank_accounts" "compute_meter bank_resolved = 1000" "log_collector bank_resolved = None"
  "instruction_stack (transaction_context bank_resolved) = [0]"
  "get_current_instruction_context (transaction_context bank_resolved) = Ok (bank_instruction (unat (index_of_caller_instruction instruction_frame_default)) ((replicate 256 0xffff)[0 := 0, 1 := 1]))"
proof -
  have "accounts (transaction_context bank_context) = accounts_new bank_accounts" by (simp add: bank_context_def invoke_context_new_def context_new_def)
  then show "accounts (transaction_context bank_resolved) = accounts_new bank_accounts" "compute_meter bank_resolved = 1000" "log_collector bank_resolved = None"
  "instruction_stack (transaction_context bank_resolved) = [0]"
  "get_current_instruction_context (transaction_context bank_resolved) = Ok (bank_instruction (unat (index_of_caller_instruction instruction_frame_default)) ((replicate 256 0xffff)[0 := 0, 1 := 1]))"
    by (simp_all add: bank_resolved_def set_return_data_def Let_def bank_at bank_now)
qed

lemma bank_chain: "process_executable_chain bank_runtime (bank_pushed, 0) = (Ok (), (bank_done, 150))"
proof -
  have log: "bank_resolved\<lparr>log_collector := None\<rparr> = bank_resolved" using bank_resolved_at(3) by (cases bank_resolved) simp
  have log2: "bank_done\<lparr>log_collector := None\<rparr> = bank_done" using bank_resolved_at(3) by (simp add: bank_done_def)
  have d: "log_collector bank_done = None" by (simp add: bank_done_def bank_resolved_at)
  have run: "system_entrypoint bank_system sample_sysvars wallet_runtime bank_env bank_resolved = (Ok (), bank_done)"
    unfolding bank_done_def by (rule bank_entry [OF bank_resolved_at(1,5,2)])
  have call: "call_builtin bank_runtime [9] (system_entrypoint bank_system sample_sysvars wallet_runtime bank_env) bank_resolved = (Ok (), bank_done)"
    using log2 d by (simp add: call_builtin_def run program_success_def ic_logger_msg_def)
  have m: "compute_meter bank_done = 850" by (simp add: bank_done_def)
  show ?thesis
    by (simp add: process_executable_chain_def bank_resolves bank_resolved_at(3) program_invoke_def ic_logger_msg_def log call
      remaining_units_def bank_resolved_at(2) m saturating_sub_def Let_def)
qed

lemma bank_pops: "fst (invoke_pop bank_done) = Ok ()"
proof -
  have c: "get_current_instruction_context ((transaction_context bank_resolved)\<lparr>accounts := bank_moved\<rparr>) = Ok (bank_instruction (unat (index_of_caller_instruction instruction_frame_default)) ((replicate 256 0xffff)[0 := 0, 1 := 1]))"
    by (simp add: bank_resolved_at)
  have bor: "\<exists>tc'. borrow_program 2 (tc\<lparr>accounts := bank_moved\<rparr>) = (Ok (), tc') \<and> lamports_delta (accounts tc') = 0" for tc
    by (simp add: borrow_program_def on_accounts_def try_borrow_mut_def borrow_with_def bank_moved_def accounts_new_def bank_accounts_def get_at_def
      counter_try_borrow_mut_def is_writing_def is_reading_def Let_def modify_accounts_def drop_ref_mut_def set_slice_len_def update_shared_def)
  obtain tc' where b: "borrow_program 2 ((transaction_context bank_resolved)\<lparr>accounts := bank_moved\<rparr>) = (Ok (), tc')" "lamports_delta (accounts tc') = 0"
    using bor by blast
  show ?thesis
    using b by (simp add: invoke_pop_def on_transaction_def bank_done_def pop_def bank_resolved_at detect_unbalanced_def bindM_def liftR_def c
      get_index_of_program_account_in_transaction_def seqM_def getsM_def Let_def)
qed

lemma bank_message_ok: "\<exists>c. process_message bank_runtime bank_message (bank_context, 0) = (Ok (), (c, 150))"
proof -
  have p: "is_precompile bank_runtime x = False" for x by (simp add: bank_runtime_def native_runtime_def wallet_runtime_def)
  obtain c where pop: "invoke_pop bank_done = (Ok (), c)" using bank_pops by (metis surjective_pairing)
  have "process_instruction bank_runtime (bank_prepared, 0) = (Ok (), (c, 150))"
    by (simp add: process_instruction_def bank_pushes bank_chain pop and_result_def)
  then show ?thesis
    by (simp add: process_message_def bank_prepares) (simp add: bank_message_def p saturating_add_def)
qed

lemma record_keys:
  assumes "accounts_wf (accounts tc)"
  shows "map fst (record_accounts (execution_record_from tc)) = account_keys (accounts tc)"
proof (rule nth_equalityI)
  note defs = execution_record_from_def take_accounts_def deconstruct_into_keyed_account_shared_data_def deconstruct_account_def
    account_keys_def Let_def
  have "length (private_account_fields (accounts tc)) = length (shared_account_fields (accounts tc))"
    using assms by (simp add: accounts_wf_def accounts_len_def)
  then show "length (map fst (record_accounts (execution_record_from tc))) = length (account_keys (accounts tc))"
    and "i < length (map fst (record_accounts (execution_record_from tc))) \<Longrightarrow>
      map fst (record_accounts (execution_record_from tc)) ! i = account_keys (accounts tc) ! i" for i
    by (simp_all add: defs)
qed

lemma message_conserved:
  assumes native: "builtin_runtime rt"
    and run: "process_message rt message (invoke_context_new (context_new txa rent sc trc n) log budget cost, 0) = (Ok (), (c, units))"
  shows "(\<Sum>(k, a)\<leftarrow>record_accounts (execution_record_from (transaction_context c)). uint (lamports a)) = (\<Sum>(k, a)\<leftarrow>txa. uint (lamports a))
    \<and> account_keys (accounts (transaction_context c)) = map fst txa
    \<and> map fst (record_accounts (execution_record_from (transaction_context c))) = map fst txa
    \<and> instruction_stack (transaction_context c) = [] \<and> syscall_contexts c = []
    \<and> unat units = unat (eb_compute_unit_limit budget) - unat (remaining_units c)"
proof -
  let ?tc = "context_new txa rent sc trc n"
  have sv: "sysvar_keeps_length (rt_sysvar rt)" using native by (simp add: builtin_runtime_def)
  have new: "accounts_wf (accounts ?tc)" "lamports_delta (accounts ?tc) = 0" "account_keys (accounts ?tc) = map fst txa"
    "instruction_stack ?tc = []"
    by (simp_all add: context_new_def Let_def accounts_new_wf keys_new) (simp add: accounts_new_def)
  note r = message_runs [OF native run, simplified invoke_context_new_def, simplified, OF new(1,2)]
  have steps: "(tx_step (rt_sysvar rt))\<^sup>*\<^sup>* ?tc (transaction_context c)" using r(1) by (simp add: runs_def)
  have "context_inv (\<Sum>(k, a)\<leftarrow>txa. uint (lamports a)) (accounts (transaction_context c))" using reachable_inv(1) [OF sv steps] .
  then show ?thesis
    using r steps_keys(1) [OF sv steps new(1)] new(3,4)
    by (simp add: context_inv_def record_sums record_keys remaining_units_def runs_def keeps_frame_def)
qed

section \<open>Properties\<close>

text \<open>C5. A message neither creates nor destroys lamports. When \<^verbatim>\<open>process_message\<close> succeeds on a freshly loaded transaction whose built-in
  programs are the System program and the compute-budget program, whatever instructions, nested invocations and precompiles the message
  runs: the balances of the accounts add up to what was loaded, the accounts have the keys they had, the stacks of
  instructions and of syscall contexts are empty again, and the units reported as consumed are exactly those the compute meter lost. The only
  assumption is that writing the instructions sysvar keeps its length.\<close>

theorem message_conserves_lamports:
  assumes "sysvar_keeps_length (rt_sysvar rt)"
    "process_message (native_runtime rt sys sv env compute_budget_id) message
      (invoke_context_new (context_new txa rent sc trc n) log budget cost, 0) = (Ok (), (c, units))"
  shows "(\<Sum>(k, a)\<leftarrow>record_accounts (execution_record_from (transaction_context c)). uint (lamports a)) = (\<Sum>(k, a)\<leftarrow>txa. uint (lamports a))
    \<and> account_keys (accounts (transaction_context c)) = map fst txa
    \<and> instruction_stack (transaction_context c) = [] \<and> syscall_contexts c = []
    \<and> unat units = unat (eb_compute_unit_limit budget) - unat (remaining_units c)"
  using message_conserved [OF native_builtin_runtime [OF assms(1)] assms(2)] by blast

theorem message_conserves_lamports_witness:
  "\<exists>c. process_message bank_runtime bank_message (bank_context, 0) = (Ok (), (c, 150))
    \<and> (\<Sum>(k, a)\<leftarrow>record_accounts (execution_record_from (transaction_context c)). uint (lamports a)) = 101"
proof -
  obtain c where c: "process_message bank_runtime bank_message (bank_context, 0) = (Ok (), (c, 150))" using bank_message_ok by blast
  from message_conserves_lamports [OF bank.sysvar_contract c [unfolded bank_runtime_def bank_context_def]]
  show ?thesis using c by (simp add: bank_accounts_def)
qed

end
