(* ===== verification/Svm_Processor.thy ===== *)
theory Svm_Processor
  imports Svm_Loader_Spec Svm_Message
begin

text \<open>
  The transaction processor: \<^verbatim>\<open>transaction_processor.rs\<close>, \<^verbatim>\<open>transaction_account_state_info.rs\<close>, \<^verbatim>\<open>transaction_balances.rs\<close>,
  \<^verbatim>\<open>transaction_execution_result.rs\<close> and \<^verbatim>\<open>transaction_processing_result.rs\<close> of \<^verbatim>\<open>src/svm/src\<close>. Filling the program cache
  of the batch is the parameter \<open>replenish\<close>: it gets the runtime with the programs found so far and the programs to find, and gives the
  runtime with more programs, or none when the cache hits its limit. Timings and error counters are left out.
\<close>

section \<open>Types\<close>

record 'f processor_interface =
  pi_loader :: loader_interface
  total_fee :: "'f \<Rightarrow> u64"
  verify_nonce_account :: "account_shared_data \<Rightarrow> bytes \<Rightarrow> nonce_data option"
  set_nonce_state :: "nonce_state \<Rightarrow> account_shared_data \<Rightarrow> account_shared_data option"
  nonce_from_blockhash :: "bytes \<Rightarrow> bytes"
  is_known_spl_token_id :: "pubkey \<Rightarrow> bool"
  token_account_unpack :: "bytes \<Rightarrow> pubkey \<Rightarrow> (pubkey \<times> pubkey \<times> u64) option"
  token_mint_unpack :: "bytes \<Rightarrow> pubkey \<Rightarrow> u8 option"

record execution_recording_config =
  enable_cpi_recording :: bool
  enable_log_recording :: bool
  enable_return_data_recording :: bool
  enable_transaction_balance_recording :: bool

definition new_single_setting :: "bool \<Rightarrow> execution_recording_config" where
  "new_single_setting option_value = \<lparr>enable_cpi_recording = option_value, enable_log_recording = option_value,
     enable_return_data_recording = option_value, enable_transaction_balance_recording = option_value\<rparr>"

record processing_config =
  pc_account_overrides :: "account_overrides option"
  log_messages_bytes_limit :: "nat option"
  recording_config :: execution_recording_config
  drop_on_failure :: bool
  all_or_nothing :: bool

record processing_environment =
  pe_blockhash :: bytes
  pe_blockhash_lamports_per_signature :: u64

record inner_instruction =
  inner_program_index :: u8
  inner_data :: bytes
  inner_accounts :: "u8 list"
  inner_stack_height :: u8

record transaction_execution_details =
  ted_status :: "(unit, transaction_error) result"
  ted_log_messages :: "string list option"
  ted_inner_instructions :: "inner_instruction list list option"
  ted_return_data :: "(pubkey \<times> bytes) option"
  ted_executed_units :: u64
  ted_accounts_data_len_delta :: int

record 'f executed_transaction =
  et_loaded_transaction :: "'f loaded_transaction"
  et_execution_details :: transaction_execution_details

definition details_was_successful :: "transaction_execution_details \<Rightarrow> bool" where
  "details_was_successful self = is_ok (ted_status self)"

definition was_successful :: "'f executed_transaction \<Rightarrow> bool" where
  "was_successful self = details_was_successful (et_execution_details self)"

section \<open>Processing results\<close>

datatype 'f processed_transaction = Executed "'f executed_transaction" | Processed_fees_only "'f fees_only_transaction"

type_synonym 'f processing_result = "('f processed_transaction, transaction_error) result"

definition processed_with_successful_result :: "'f processed_transaction \<Rightarrow> bool" where
  "processed_with_successful_result self =
    (case self of Executed tx \<Rightarrow> is_ok (ted_status (et_execution_details tx)) | Processed_fees_only _ \<Rightarrow> False)"

definition processed_status :: "'f processed_transaction \<Rightarrow> (unit, transaction_error) result" where
  "processed_status self =
    (case self of Executed tx \<Rightarrow> ted_status (et_execution_details tx) | Processed_fees_only tx \<Rightarrow> Err (fot_load_error tx))"

definition processed_fee_details :: "'f processed_transaction \<Rightarrow> 'f" where
  "processed_fee_details self =
    (case self of Executed tx \<Rightarrow> lt_fee_details (et_loaded_transaction tx) | Processed_fees_only tx \<Rightarrow> fot_fee_details tx)"

definition execution_details :: "'f processed_transaction \<Rightarrow> transaction_execution_details option" where
  "execution_details self = (case self of Executed tx \<Rightarrow> Some (et_execution_details tx) | Processed_fees_only _ \<Rightarrow> None)"

definition processed_executed_units :: "'f processed_transaction \<Rightarrow> u64" where
  "processed_executed_units self = (case execution_details self of Some detail \<Rightarrow> ted_executed_units detail | None \<Rightarrow> 0)"

definition processed_loaded_accounts_data_size :: "'f processed_transaction \<Rightarrow> u32" where
  "processed_loaded_accounts_data_size self =
    (case self of
       Executed tx \<Rightarrow> lt_loaded_accounts_data_size (et_loaded_transaction tx)
     | Processed_fees_only tx \<Rightarrow> word_of_nat (rollback_data_size (fot_rollback_accounts tx)))"

definition was_processed :: "'f processing_result \<Rightarrow> bool" where
  "was_processed = is_ok"

definition was_processed_with_successful_result :: "'f processing_result \<Rightarrow> bool" where
  "was_processed_with_successful_result self = (case self of Ok processed_tx \<Rightarrow> processed_with_successful_result processed_tx | Err _ \<Rightarrow> False)"

definition flattened_result :: "'f processing_result \<Rightarrow> (unit, transaction_error) result" where
  "flattened_result self = bindR self processed_status"

section \<open>Rent states of the accounts of a transaction\<close>

definition account_state_info :: "loader_interface \<Rightarrow> svm_transaction \<Rightarrow> transaction_context \<Rightarrow> nat \<Rightarrow> rent_state option" where
  "account_state_info li tx tc i =
    (if message_is_writable tx i then
       (case try_borrow (word_of_nat i) (accounts tc) of
          (Ok n, ta) \<Rightarrow> Some (get_account_rent_state li (acc_lamports (shared_account_fields ta ! n))
                            (length (acc_payload (private_account_fields ta ! n))))
        | (Err _, _) \<Rightarrow> None)
     else None)"

definition transaction_account_state_info_new ::
  "loader_interface \<Rightarrow> svm_transaction \<Rightarrow> transaction_context \<Rightarrow> rent_state option list" where
  "transaction_account_state_info_new li tx tc = map (account_state_info li tx tc) [0..<length (tx_account_keys tx)]"

fun verify_changes_from ::
  "loader_interface \<Rightarrow> transaction_context \<Rightarrow> nat \<Rightarrow> (rent_state option \<times> rent_state option) list \<Rightarrow> (unit, transaction_error failure) result" where
  "verify_changes_from li tc i [] = Ok ()"
| "verify_changes_from li tc i ((pre, post) # rest) =
    bindR (check_rent_state li pre post tc (word_of_nat i)) (\<lambda>_. verify_changes_from li tc (Suc i) rest)"

definition verify_changes ::
  "loader_interface \<Rightarrow> rent_state option list \<Rightarrow> rent_state option list \<Rightarrow> transaction_context \<Rightarrow> (unit, transaction_error failure) result" where
  "verify_changes li pre_state_infos post_state_infos tc = verify_changes_from li tc 0 (zip pre_state_infos post_state_infos)"

section \<open>Balances\<close>

record svm_token_info =
  token_account_index :: u8
  token_mint :: pubkey
  token_amount :: u64
  token_owner :: pubkey
  token_program_id :: pubkey
  token_decimals :: u8

record balance_collector =
  native_pre :: "u64 list list"
  native_post :: "u64 list list"
  token_pre :: "svm_token_info list list"
  token_post :: "svm_token_info list list"

definition new_balance_collector :: balance_collector where
  "new_balance_collector = \<lparr>native_pre = [], native_post = [], token_pre = [], token_post = []\<rparr>"

definition unpack_token_account ::
  "'f processor_interface \<Rightarrow> account_shared_data \<Rightarrow> nat \<Rightarrow> account_loader \<Rightarrow> svm_token_info option \<times> account_loader" where
  "unpack_token_account pi acc index l =
    (let pid = owner acc in
     case token_account_unpack pi (data acc) pid of
       None \<Rightarrow> (None, l)
     | Some (mint, own, amount) \<Rightarrow>
         (case load_account (pi_loader pi) mint l of
            (None, l) \<Rightarrow> (None, l)
          | (Some mint_account, l) \<Rightarrow>
              if owner mint_account \<noteq> pid then (None, l)
              else (case token_mint_unpack pi (data mint_account) pid of
                      None \<Rightarrow> (None, l)
                    | Some decimals \<Rightarrow>
                        if index < 256 then
                          (Some \<lparr>token_account_index = word_of_nat index, token_mint = mint, token_amount = amount, token_owner = own,
                             token_program_id = pid, token_decimals = decimals\<rparr>, l)
                        else (None, l))))"

fun collect_balances_from ::
  "'f processor_interface \<Rightarrow> svm_transaction \<Rightarrow> bool \<Rightarrow> (nat \<times> pubkey) list \<Rightarrow> account_loader \<Rightarrow>
     (u64 list \<times> svm_token_info list) \<times> account_loader" where
  "collect_balances_from pi tx has_token_program [] l = (([], []), l)"
| "collect_balances_from pi tx has_token_program ((index, key) # rest) l =
    (case load_account (pi_loader pi) key l of
       (None, l) \<Rightarrow> apfst (apfst ((#) 0)) (collect_balances_from pi tx has_token_program rest l)
     | (Some acc, l) \<Rightarrow>
         (let (token_info, l) =
                (if has_token_program \<and> \<not> tx_is_invoked tx index \<and> \<not> is_known_spl_token_id pi key \<and> is_known_spl_token_id pi (owner acc)
                 then unpack_token_account pi acc index l else (None, l))
          in apfst (map_prod ((#) (lamports acc)) (case token_info of None \<Rightarrow> id | Some info \<Rightarrow> (#) info))
               (collect_balances_from pi tx has_token_program rest l)))"

definition collect_balances ::
  "'f processor_interface \<Rightarrow> svm_transaction \<Rightarrow> account_loader \<Rightarrow> (u64 list \<times> svm_token_info list) \<times> account_loader" where
  "collect_balances pi tx =
    collect_balances_from pi tx (list_ex (is_known_spl_token_id pi) (tx_account_keys tx)) (enumerate 0 (tx_account_keys tx))"

definition collect_pre_balances ::
  "'f processor_interface \<Rightarrow> svm_transaction \<Rightarrow> balance_collector option \<Rightarrow> account_loader \<Rightarrow> balance_collector option \<times> account_loader" where
  "collect_pre_balances pi tx collector l =
    (case collector of
       None \<Rightarrow> (None, l)
     | Some bc \<Rightarrow> (let ((native, token), l) = collect_balances pi tx l
                  in (Some (bc\<lparr>native_pre := native_pre bc @ [native], token_pre := token_pre bc @ [token]\<rparr>), l)))"

definition collect_post_balances ::
  "'f processor_interface \<Rightarrow> svm_transaction \<Rightarrow> balance_collector option \<Rightarrow> account_loader \<Rightarrow> balance_collector option \<times> account_loader" where
  "collect_post_balances pi tx collector l =
    (case collector of
       None \<Rightarrow> (None, l)
     | Some bc \<Rightarrow> (let ((native, token), l) = collect_balances pi tx l
                  in (Some (bc\<lparr>native_post := native_post bc @ [native], token_post := token_post bc @ [token]\<rparr>), l)))"

definition lengths_match_expected :: "balance_collector \<Rightarrow> nat \<Rightarrow> bool" where
  "lengths_match_expected bc expected_len \<longleftrightarrow>
    length (native_pre bc) = expected_len \<and> length (native_post bc) = expected_len
    \<and> length (token_pre bc) = expected_len \<and> length (token_post bc) = expected_len"

section \<open>Validation of the nonce and of the fee payer\<close>

type_synonym 'a validation = "(account_loader, 'a, transaction_error failure) sm"

definition with_loader :: "(account_loader \<Rightarrow> 'a \<times> account_loader) \<Rightarrow> 'a validation" where
  "with_loader f l = (let (a, l) = f l in (Ok a, l))"

definition validate_transaction_nonce ::
  "'f processor_interface \<Rightarrow> svm_transaction \<Rightarrow> pubkey \<Rightarrow> bytes \<Rightarrow> u64 \<Rightarrow> nonce_info validation" where
  "validate_transaction_nonce pi tx nonce_address next_durable_nonce next_lamports_per_signature =
    bindM (with_loader (loader_load_transaction_account (pi_loader pi) nonce_address True)) (\<lambda>loaded.
      case loaded of
        None \<Rightarrow> throw (Fail AccountNotFound)
      | Some loaded \<Rightarrow>
          (case verify_nonce_account pi (lta_account loaded) (tx_recent_blockhash tx) of
             None \<Rightarrow> throw (Fail BlockhashNotFound)
           | Some nd \<Rightarrow>
               if durable_nonce nd \<noteq> next_durable_nonce
                 \<and> nonce_authority nd \<in> set (get_ix_signers tx (unat NONCED_TX_MARKER_IX_INDEX)) then
                 bindM (liftR (\<lambda>_. unwrap (set_nonce_state pi (Initialized \<lparr>nonce_authority = nonce_authority nd,
                          durable_nonce = next_durable_nonce, nonce_lamports_per_signature = next_lamports_per_signature\<rparr>)
                          (lta_account loaded))))
                   (\<lambda>acc. ret \<lparr>ni_address = nonce_address, ni_account = acc\<rparr>)
               else throw (Fail BlockhashNotFound)))"

definition validate_transaction_fee_payer ::
  "'f processor_interface \<Rightarrow> svm_transaction \<Rightarrow> nonce_info option \<Rightarrow> 'f budget_and_limits \<Rightarrow> 'f validated_transaction_details validation" where
  "validate_transaction_fee_payer pi tx nonce limits =
    (let li = pi_loader pi in
     bindM (with_loader (loader_load_transaction_account li (tx_fee_payer tx) True)) (\<lambda>loaded.
       case loaded of
         None \<Rightarrow> throw (Fail AccountNotFound)
       | Some loaded \<Rightarrow>
           (let loaded_rent_epoch = rent_epoch (lta_account loaded);
                (r, payer) = validate_fee_payer li (tx_fee_payer tx) 0 (total_fee pi (bl_fee_details limits))
                               (update_rent_exempt_status_for_account li (lta_account loaded))
            in seqM (liftR (\<lambda>_. r))
                 (ret \<lparr>vtd_rollback_accounts = rollback_accounts_new nonce (tx_fee_payer tx) payer loaded_rent_epoch,
                       vtd_compute_budget = bl_budget limits, vtd_loaded_accounts_bytes_limit = bl_loaded_accounts_data_size_limit limits,
                       vtd_fee_details = bl_fee_details limits, vtd_loaded_fee_payer_account = loaded\<lparr>lta_account := payer\<rparr>\<rparr>))))"

definition validate_transaction_nonce_and_fee_payer ::
  "'f processor_interface \<Rightarrow> processing_environment \<Rightarrow> svm_transaction \<Rightarrow> 'f checked_transaction_details \<Rightarrow>
     'f validated_transaction_details validation" where
  "validate_transaction_nonce_and_fee_payer pi env tx details =
    bindM (case ctd_nonce_address details of
             None \<Rightarrow> ret None
           | Some nonce_address \<Rightarrow>
               bindM (validate_transaction_nonce pi tx nonce_address (nonce_from_blockhash pi (pe_blockhash env))
                        (pe_blockhash_lamports_per_signature env)) (\<lambda>ni. ret (Some ni)))
      (\<lambda>nonce. validate_transaction_fee_payer pi tx nonce (ctd_compute_budget_and_limits details))"

section \<open>Recording what a transaction did\<close>

fun record_inner_instructions ::
  "nat \<Rightarrow> (nat \<times> (instruction_frame \<times> bytes) \<times> instruction_account list) list \<Rightarrow> nat option list \<Rightarrow>
     inner_instruction list list \<Rightarrow> (inner_instruction list list, transaction_error failure) result" where
  "record_inner_instructions top_level_ixs_num [] parent_positions outer = Ok outer"
| "record_inner_instructions top_level_ixs_num ((cpi_num, (ix_in_trace, bs), ias) # rest) parent_positions outer =
    (let caller_ix = unat (index_of_caller_instruction ix_in_trace);
         outer_index = (if caller_ix < top_level_ixs_num then Some caller_ix
                        else case get_at parent_positions (caller_ix - top_level_ixs_num) of Some (Some p) \<Rightarrow> Some p | _ \<Rightarrow> None)
     in case outer_index of
          None \<Rightarrow> record_inner_instructions top_level_ixs_num rest parent_positions outer
        | Some k \<Rightarrow>
            if length parent_positions \<le> cpi_num then Err Panic
            else record_inner_instructions top_level_ixs_num rest (parent_positions[cpi_num := Some k])
              (if k < length outer then
                 outer[k := outer ! k @ [\<lparr>inner_program_index = ucast (program_account_index_in_tx ix_in_trace), inner_data = bs,
                   inner_accounts = map (\<lambda>ia. ucast (index_in_transaction ia)) ias,
                   inner_stack_height = (let height = saturating_add (nesting_level ix_in_trace) 1 in if unat height < 256 then ucast height else - 1)\<rparr>]]
               else outer))"

definition deconstruct_transaction ::
  "transaction_context \<Rightarrow> bool \<Rightarrow> (execution_record \<times> inner_instruction list list option, transaction_error failure) result" where
  "deconstruct_transaction tc record_inner =
    (if record_inner then
       (let cpis = unat (number_of_cpis_in_trace (tx_frame tc));
            top_level_ixs_num = get_instruction_trace_length tc - cpis;
            ((frames, accs, datas), tc) = take_instruction_trace tc
        in bindR (record_inner_instructions top_level_ixs_num (enumerate 0 (drop top_level_ixs_num (zip (zip frames datas) accs)))
                    (replicate cpis None) (replicate top_level_ixs_num []))
             (\<lambda>inner. Ok (execution_record_from tc, Some inner)))
     else Ok (execution_record_from tc, None))"

section \<open>Executing a loaded transaction\<close>

text \<open>\<open>u128\<close> sums: none when the sum overflows.\<close>

fun transaction_accounts_lamports_sum_from :: "int \<Rightarrow> keyed_account list \<Rightarrow> int option" where
  "transaction_accounts_lamports_sum_from acc_sum [] = Some acc_sum"
| "transaction_accounts_lamports_sum_from acc_sum ((_, acc) # rest) =
    (let acc_sum = acc_sum + uint (lamports acc) in if acc_sum < 2 ^ 128 then transaction_accounts_lamports_sum_from acc_sum rest else None)"

definition transaction_accounts_lamports_sum :: "keyed_account list \<Rightarrow> int option" where
  "transaction_accounts_lamports_sum = transaction_accounts_lamports_sum_from 0"

definition new_log_collector :: "processing_config \<Rightarrow> log_collector option" where
  "new_log_collector config =
    (if enable_log_recording (recording_config config) then
       Some (case log_messages_bytes_limit config of
               None \<Rightarrow> log_collector_default
             | Some limit \<Rightarrow> new_ref_with_limit (Some limit))
     else None)"

text \<open>Running the message: the result with the rent states checked, and the invoke context at the end.\<close>

definition execute_message ::
  "loader_interface \<Rightarrow> runtime \<Rightarrow> execution_cost \<Rightarrow> processing_config \<Rightarrow> svm_transaction \<Rightarrow> keyed_account list \<Rightarrow> execution_budget \<Rightarrow>
     (unit, transaction_error failure) result \<times> invoke_context \<times> u64" where
  "execute_message li rt cost config tx accs budget =
    (let tc = context_new accs (is_exempt li) (eb_max_instruction_stack_depth budget) (eb_max_instruction_trace_length budget)
           (length (message_instructions tx));
         pre = transaction_account_state_info_new li tx tc;
         (r, c, executed_units) = process_message rt (svm_message.truncate tx) (invoke_context_new tc (new_log_collector config) budget cost, 0);
         tc = transaction_context c
     in (bindR r (\<lambda>_. verify_changes li pre (transaction_account_state_info_new li tx tc) tc), c, executed_units))"

definition execute_loaded_transaction ::
  "loader_interface \<Rightarrow> runtime \<Rightarrow> execution_cost \<Rightarrow> processing_config \<Rightarrow> svm_transaction \<Rightarrow> 'f loaded_transaction \<Rightarrow>
     ('f executed_transaction, transaction_error failure) result" where
  "execute_loaded_transaction li rt cost config tx loaded =
    (let lamports_before_tx = (case transaction_accounts_lamports_sum (lt_accounts loaded) of Some n \<Rightarrow> n | None \<Rightarrow> 0);
         (r, c, executed_units) = execute_message li rt cost config tx (lt_accounts loaded) (lt_compute_budget loaded)
     in bindR (case r of Ok _ \<Rightarrow> Ok (Ok ()) | Err (Fail e) \<Rightarrow> Ok (Err e) | Err Panic \<Rightarrow> Err Panic) (\<lambda>status.
        bindR (deconstruct_transaction (transaction_context c) (enable_cpi_recording (recording_config config))) (\<lambda>(rec, inner).
          let status = (if is_ok status \<and> transaction_accounts_lamports_sum (record_accounts rec) \<noteq> Some lamports_before_tx
                        then Err UnbalancedTransaction else status)
          in Ok \<lparr>et_loaded_transaction = loaded\<lparr>lt_accounts := record_accounts rec\<rparr>,
                et_execution_details = \<lparr>ted_status = status, ted_log_messages = map_option messages (log_collector c),
                  ted_inner_instructions = inner,
                  ted_return_data = (if enable_return_data_recording (recording_config config) \<and> snd (record_return_data rec) \<noteq> []
                                     then Some (record_return_data rec) else None),
                  ted_executed_units = executed_units, ted_accounts_data_len_delta = accounts_resize_delta rec\<rparr>\<rparr>)))"

section \<open>Processing a batch\<close>

record batch_state =
  bs_loader :: account_loader
  bs_runtime :: runtime
  bs_collector :: "balance_collector option"

definition filter_executable_program_accounts :: "loader_interface \<Rightarrow> account_loader \<Rightarrow> runtime \<Rightarrow> svm_transaction \<Rightarrow> pubkey \<rightharpoonup> u64" where
  "filter_executable_program_accounts li l rt tx =
    fold (\<lambda>key found.
        if rt_find rt key \<noteq> None then found
        else case fst (do_load li l key) of
               Some (acc, last_modification_slot) \<Rightarrow> if owner acc \<in> set (PROGRAM_OWNERS li) then found(key \<mapsto> last_modification_slot) else found
             | None \<Rightarrow> found)
      (tx_account_keys tx) Map.empty"

datatype 'f tx_outcome = Hit_max_limit | Processing "'f processing_result"

record 'f processor =
  pr_interface :: "'f processor_interface"
  pr_slot :: u64
  pr_execution_cost :: execution_cost
  pr_replenish :: "runtime \<Rightarrow> (pubkey \<rightharpoonup> u64) \<Rightarrow> runtime option"

type_synonym ('f, 'a) batch = "(batch_state, 'a, transaction_error failure) sm"

definition on_batch_loader :: "'a validation \<Rightarrow> ('f, 'a) batch" where
  "on_batch_loader m s = (let (r, l) = m (bs_loader s) in (r, s\<lparr>bs_loader := l\<rparr>))"

definition validate_checked ::
  "'f processor \<Rightarrow> processing_environment \<Rightarrow> svm_transaction \<Rightarrow> ('f checked_transaction_details, transaction_error) result \<Rightarrow>
     ('f validated_transaction_details, transaction_error) result validation" where
  "validate_checked pr env tx check_result l =
    (case check_result of
       Err e \<Rightarrow> (Ok (Err e), l)
     | Ok details \<Rightarrow>
         (case validate_transaction_nonce_and_fee_payer (pr_interface pr) env tx details l of
            (Ok vtd, l) \<Rightarrow> (Ok (Ok vtd), l)
          | (Err (Fail e), l) \<Rightarrow> (Ok (Err e), l)
          | (Err Panic, l) \<Rightarrow> (Err Panic, l)))"

text \<open>The match on the loaded transaction.\<close>

definition settle_failed :: "'f processor \<Rightarrow> rollback_accounts \<Rightarrow> ('f, unit) batch" where
  "settle_failed pr rollback = modifyM (\<lambda>s. s\<lparr>bs_loader := update_accounts_for_failed_tx rollback (pr_slot pr) (bs_loader s)\<rparr>)"

definition execute_and_settle ::
  "'f processor \<Rightarrow> processing_config \<Rightarrow> svm_transaction \<Rightarrow> 'f loaded_transaction \<Rightarrow> ('f, 'f tx_outcome) batch" where
  "execute_and_settle pr config tx loaded =
    (let li = pi_loader (pr_interface pr) in
     bindM (getsM (\<lambda>s. pr_replenish pr (bs_runtime s) (filter_executable_program_accounts li (bs_loader s) (bs_runtime s) tx))) (\<lambda>replenished.
       case replenished of
         None \<Rightarrow> ret Hit_max_limit
       | Some rt \<Rightarrow>
           seqM (modifyM (\<lambda>s. s\<lparr>bs_runtime := rt\<rparr>)) (
           bindM (liftR (\<lambda>_. execute_loaded_transaction li rt (pr_execution_cost pr) config tx loaded)) (\<lambda>executed_tx.
             case ted_status (et_execution_details executed_tx) of
               Ok _ \<Rightarrow>
                 seqM (modifyM (\<lambda>s. s\<lparr>bs_loader := update_accounts_for_successful_tx tx (lt_accounts (et_loaded_transaction executed_tx))
                          (pr_slot pr) (bs_loader s)\<rparr>))
                   (ret (Processing (Ok (Executed executed_tx))))
             | Err err \<Rightarrow>
                 if drop_on_failure config then ret (Processing (Err err))
                 else seqM (settle_failed pr (lt_rollback_accounts (et_loaded_transaction executed_tx)))
                        (ret (Processing (Ok (Executed executed_tx))))))))"

definition settle_transaction ::
  "'f processor \<Rightarrow> processing_config \<Rightarrow> svm_transaction \<Rightarrow> 'f transaction_load_result \<Rightarrow> ('f, 'f tx_outcome) batch" where
  "settle_transaction pr config tx load_result =
    (case load_result of
       NotLoaded err \<Rightarrow> ret (Processing (Err err))
     | FeesOnly fees_only_tx \<Rightarrow>
         if drop_on_failure config then ret (Processing (Err (fot_load_error fees_only_tx)))
         else seqM (settle_failed pr (fot_rollback_accounts fees_only_tx)) (ret (Processing (Ok (Processed_fees_only fees_only_tx))))
     | Loaded loaded_transaction \<Rightarrow> execute_and_settle pr config tx loaded_transaction)"

definition on_collector :: "(balance_collector option \<Rightarrow> account_loader \<Rightarrow> balance_collector option \<times> account_loader) \<Rightarrow> ('f, unit) batch" where
  "on_collector f s = (let (bc, l) = f (bs_collector s) (bs_loader s) in (Ok (), s\<lparr>bs_collector := bc, bs_loader := l\<rparr>))"

text \<open>One turn of the loop over the batch, up to the check of \<open>all_or_nothing\<close>.\<close>

definition process_transaction ::
  "'f processor \<Rightarrow> processing_environment \<Rightarrow> processing_config \<Rightarrow> svm_transaction \<Rightarrow>
     ('f checked_transaction_details, transaction_error) result \<Rightarrow> ('f, 'f tx_outcome) batch" where
  "process_transaction pr env config tx check_result =
    (let pi = pr_interface pr in
     bindM (on_batch_loader (validate_checked pr env tx check_result)) (\<lambda>validate_result.
     bindM (on_batch_loader (load_transaction (pi_loader pi) tx validate_result)) (\<lambda>load_result.
     seqM (on_collector (collect_pre_balances pi tx)) (
     bindM (settle_transaction pr config tx load_result) (\<lambda>outcome.
       case outcome of
         Hit_max_limit \<Rightarrow> ret Hit_max_limit
       | Processing result \<Rightarrow> seqM (on_collector (collect_post_balances pi tx)) (ret (Processing result)))))))"

record 'f batch_output =
  processing_results :: "'f processing_result list"
  out_balance_collector :: "balance_collector option"

fun process_batch ::
  "'f processor \<Rightarrow> processing_environment \<Rightarrow> processing_config \<Rightarrow> nat \<Rightarrow>
     (svm_transaction \<times> ('f checked_transaction_details, transaction_error) result) list \<Rightarrow> 'f processing_result list \<Rightarrow> ('f, 'f batch_output) batch" where
  "process_batch pr env config tx_count [] results =
    bindM (getsM bs_collector) (\<lambda>bc. ret \<lparr>processing_results = results, out_balance_collector = bc\<rparr>)"
| "process_batch pr env config tx_count ((tx, check_result) # rest) results =
    bindM (process_transaction pr env config tx check_result) (\<lambda>outcome.
      case outcome of
        Hit_max_limit \<Rightarrow> ret \<lparr>processing_results = replicate tx_count (Err ProgramCacheHitMaxLimit), out_balance_collector = None\<rparr>
      | Processing result \<Rightarrow>
          if all_or_nothing config \<and> \<not> is_ok result then
            ret \<lparr>processing_results = (let aborted = map (\<lambda>_. Err CommitCancelled) results @ [result]
                   in aborted @ replicate (tx_count - length aborted) (Err CommitCancelled)), out_balance_collector = None\<rparr>
          else process_batch pr env config tx_count rest (results @ [result]))"

definition load_and_execute_sanitized_transactions ::
  "'f processor \<Rightarrow> processing_environment \<Rightarrow> processing_config \<Rightarrow> runtime option \<Rightarrow> svm_transaction list \<Rightarrow>
     ('f checked_transaction_details, transaction_error) result list \<Rightarrow> ('f batch_output, transaction_error failure) result" where
  "load_and_execute_sanitized_transactions pr env config builtin_program_cache sanitized_txs check_results =
    (case builtin_program_cache of
       None \<Rightarrow> Ok \<lparr>processing_results = replicate (length sanitized_txs) (Err ProgramCacheHitMaxLimit), out_balance_collector = None\<rparr>
     | Some rt \<Rightarrow>
         fst (process_batch pr env config (length sanitized_txs) (zip sanitized_txs check_results) []
           \<lparr>bs_loader = new_with_loaded_accounts_capacity (pi_loader (pr_interface pr)) (pc_account_overrides config), bs_runtime = rt,
            bs_collector = (if enable_transaction_balance_recording (recording_config config) then Some new_balance_collector else None)\<rparr>))"

end
