(* ===== verification/Svm_Processor_Spec.thy ===== *)
theory Svm_Processor_Spec
  imports Svm_Processor
begin

text \<open>
  What the transaction processor promises of a transaction and of a batch: a transaction that fails changes nothing but its fee payer
  and its nonce, one that succeeds moves no lamports in or out, and a batch gives one result per transaction.
\<close>

section \<open>Definitions\<close>

text \<open>The accounts that the next loads of the batch give.\<close>

definition batch_view :: "'f processor \<Rightarrow> batch_state \<Rightarrow> account_map" where
  "batch_view pr s = loader_view (pi_loader (pr_interface pr)) (bs_loader s)"

definition live_processor :: "'f processor \<Rightarrow> bool" where
  "live_processor pr \<longleftrightarrow> live_database (pi_loader (pr_interface pr))"

text \<open>Well-formed rollback accounts: distinct keys, the fee payer among them, as many as counted.\<close>

definition rollback_wf :: "svm_transaction \<Rightarrow> pubkey option \<Rightarrow> rollback_accounts \<Rightarrow> bool" where
  "rollback_wf tx nonce rb \<longleftrightarrow>
    distinct (map fst (rollback_list rb)) \<and> length (rollback_list rb) = rollback_count rb
    \<and> set (map fst (rollback_list rb)) = insert (tx_fee_payer tx) (set_option nonce)
    \<and> rollback_fee_payer rb \<in> set (rollback_list rb) \<and> fst (rollback_fee_payer rb) = tx_fee_payer tx"

definition fee_of :: "'f processor \<Rightarrow> 'f checked_transaction_details \<Rightarrow> u64" where
  "fee_of pr details = total_fee (pr_interface pr) (bl_fee_details (ctd_compute_budget_and_limits details))"

definition lamports_of :: "keyed_account list \<Rightarrow> int" where
  "lamports_of accs = (\<Sum>(_, acc)\<leftarrow>accs. uint (lamports acc))"

text \<open>What settling a transaction does to the accounts, by its outcome.\<close>

definition settled :: "'f processor \<Rightarrow> rollback_accounts \<Rightarrow> batch_state \<Rightarrow> 'f processing_result \<Rightarrow> batch_state \<Rightarrow> bool" where
  "settled pr rb s result s' \<longleftrightarrow>
    was_processed_with_successful_result result
    \<or> batch_view pr s' = (if is_ok result then write_all (rollback_list rb) (batch_view pr s) else batch_view pr s)"

definition load_rollback :: "'f transaction_load_result \<Rightarrow> rollback_accounts option" where
  "load_rollback r = (case r of Loaded lt \<Rightarrow> Some (lt_rollback_accounts lt) | FeesOnly ft \<Rightarrow> Some (fot_rollback_accounts ft) | NotLoaded _ \<Rightarrow> None)"

text \<open>One result per transaction, all processed or none in an all-or-nothing batch, and balances for each transaction.\<close>

definition batch_result_ok :: "processing_config \<Rightarrow> nat \<Rightarrow> 'f batch_output \<Rightarrow> bool" where
  "batch_result_ok config n out \<longleftrightarrow>
    length (processing_results out) = n
    \<and> (all_or_nothing config \<longrightarrow> list_all was_processed (processing_results out) \<or> list_all (Not \<circ> was_processed) (processing_results out))
    \<and> (\<forall>bc. out_balance_collector out = Some bc \<longrightarrow> lengths_match_expected bc n)"

text \<open>
  A processor of the small bank, with a transaction whose program is no program: it pays 100 lamports and fails. And a processor of the
  bank of the System program, for which every account is rent-exempt.
\<close>

definition sample_interface :: "u64 processor_interface" where
  "sample_interface = \<lparr>pi_loader = sample_loader, total_fee = id, verify_nonce_account = (\<lambda>_ _. None), set_nonce_state = (\<lambda>_ _. None),
     nonce_from_blockhash = id, is_known_spl_token_id = (\<lambda>_. False), token_account_unpack = (\<lambda>_ _. None), token_mint_unpack = (\<lambda>_ _. None)\<rparr>"

definition sample_processor :: "u64 processor" where
  "sample_processor = \<lparr>pr_interface = sample_interface, pr_slot = 7, pr_execution_cost = default_cost, pr_replenish = (\<lambda>rt _. Some rt)\<rparr>"

definition sample_env :: processing_environment where
  "sample_env = \<lparr>pe_blockhash = [], pe_blockhash_lamports_per_signature = 0\<rparr>"

definition sample_config :: processing_config where
  "sample_config = \<lparr>pc_account_overrides = None, log_messages_bytes_limit = None, recording_config = new_single_setting False,
     drop_on_failure = False, all_or_nothing = True\<rparr>"

definition sample_details :: "u64 checked_transaction_details" where
  "sample_details = \<lparr>ctd_nonce_address = None,
     ctd_compute_budget_and_limits = \<lparr>bl_budget = wallet_budget, bl_loaded_accounts_data_size_limit = 9000, bl_fee_details = 100\<rparr>\<rparr>"

definition failing_transaction :: svm_transaction where
  "failing_transaction = sample_transaction\<lparr>message_program_id := (\<lambda>_. [4])\<rparr>"

definition sample_batch :: batch_state where
  "sample_batch = \<lparr>bs_loader = empty_loader, bs_runtime = wallet_runtime, bs_collector = None\<rparr>"

definition bank_loader :: loader_interface where
  "bank_loader = sample_loader\<lparr>is_exempt := (\<lambda>_ _. True)\<rparr>"

definition bank_transaction :: svm_transaction where
  "bank_transaction = svm_message.extend bank_message \<lparr>tx_account_keys = [[1], [2], [9]], tx_num_static_keys = 3, tx_fee_payer = [1],
     tx_num_lookup_tables = 0, tx_recent_blockhash = [], tx_is_invoked = (\<lambda>i. i = 2)\<rparr>"

definition bank_loaded :: "u64 loaded_transaction" where
  "bank_loaded = \<lparr>lt_accounts = bank_accounts, lt_fee_details = 0, lt_rollback_accounts = FeePayerOnly (hd bank_accounts),
     lt_compute_budget = wallet_budget, lt_loaded_accounts_data_size = 192\<rparr>"

definition sample_validated :: "u64 validated_transaction_details" where
  "sample_validated = (let payer = (sample_account 900 0 (replicate 32 0))\<lparr>rent_epoch := RENT_EXEMPT_RENT_EPOCH\<rparr> in
     \<lparr>vtd_rollback_accounts = FeePayerOnly ([1], sample_account 900 0 (replicate 32 0)), vtd_compute_budget = wallet_budget,
      vtd_loaded_accounts_bytes_limit = 9000, vtd_fee_details = 100,
      vtd_loaded_fee_payer_account = \<lparr>lta_account = payer, lta_loaded_size = 64\<rparr>\<rparr>)"

definition payer_loaded :: account_loader where
  "payer_loaded = \<lparr>loaded_accounts = [[1] \<mapsto> (sample_account 1000 0 (replicate 32 0), 5)],
     inspected = [([1], Some (sample_account 1000 0 (replicate 32 0)), True)]\<rparr>"

section \<open>Validation\<close>

lemma with_loader_keeps [keeps_rules]:
  "live_database li \<Longrightarrow> keeps (loader_view li) (with_loader (loader_load_transaction_account li key w))"
  using load_for_tx_spec(2) by (auto simp: keeps_def with_loader_def split: prod.splits) (metis snd_conv)

lemma validate_nonce_keeps [keeps_rules]:
  "live_database (pi_loader pi) \<Longrightarrow> keeps (loader_view (pi_loader pi)) (validate_transaction_nonce pi tx key nonce rate)"
  unfolding validate_transaction_nonce_def by (intro keeps_rules)

lemma validate_payer_keeps [keeps_rules]:
  "live_database (pi_loader pi) \<Longrightarrow> keeps (loader_view (pi_loader pi)) (validate_transaction_fee_payer pi tx nonce limits)"
  unfolding validate_transaction_fee_payer_def Let_def by (intro keeps_rules) (auto split: prod.split intro!: keeps_rules)

lemma validate_keeps [keeps_rules]:
  "live_database (pi_loader pi) \<Longrightarrow> keeps (loader_view (pi_loader pi)) (validate_transaction_nonce_and_fee_payer pi env tx details)"
  unfolding validate_transaction_nonce_and_fee_payer_def by (intro keeps_rules)

lemma validate_checked_keeps [keeps_rules]:
  "live_processor pr \<Longrightarrow> keeps (loader_view (pi_loader (pr_interface pr))) (validate_checked pr env tx check_result)"
  using validate_keeps [THEN keepsD]
  by (auto simp: keeps_def validate_checked_def live_processor_def split: result.splits prod.splits failure.splits)

lemma on_batch_loader_keeps [keeps_rules]:
  "keeps (loader_view (pi_loader (pr_interface pr))) m \<Longrightarrow> keeps (batch_view pr) (on_batch_loader m)"
  by (auto simp: keeps_def on_batch_loader_def batch_view_def split: prod.splits) (metis snd_conv)

lemma validated_nonce:
  "validate_transaction_nonce pi tx key nonce rate l = (Ok ni, l') \<Longrightarrow> ni_address ni = key"
  by (auto simp: validate_transaction_nonce_def monad_defs split: prod.splits option.splits if_splits result.splits)

text \<open>A validated fee payer exists and has paid; the rollback accounts hold it with the balance that is left.\<close>

lemma validated_payer:
  assumes live: "live_database (pi_loader pi)" and "validate_transaction_fee_payer pi tx nonce limits l = (Ok vtd, l')"
  shows "\<exists>acc payer. loader_view (pi_loader pi) l (tx_fee_payer tx) = Some acc
    \<and> unat (lamports payer) + unat (total_fee pi (bl_fee_details limits)) = unat (lamports acc) \<and> data payer = data acc \<and> owner payer = owner acc
    \<and> vtd_loaded_fee_payer_account vtd = \<lparr>lta_account = payer, lta_loaded_size = usize_saturating (TRANSACTION_ACCOUNT_BASE_SIZE + length (data acc))\<rparr>
    \<and> vtd_rollback_accounts vtd = rollback_accounts_new nonce (tx_fee_payer tx) payer (rent_epoch acc)"
proof -
  let ?li = "pi_loader pi" and ?fee = "total_fee pi (bl_fee_details limits)"
  obtain found where load: "loader_load_transaction_account ?li (tx_fee_payer tx) True l = (found, l')"
    using assms(2) by (auto simp: validate_transaction_fee_payer_def with_loader_def Let_def monad_defs split: prod.splits option.splits result.splits)
  obtain loaded where found: "found = Some loaded"
    using assms(2) load by (auto simp: validate_transaction_fee_payer_def with_loader_def Let_def monad_defs split: option.splits)
  define acc where "acc = lta_account loaded"
  have view: "loader_view ?li l (tx_fee_payer tx) = Some acc" and size: "lta_loaded_size loaded = usize_saturating (TRANSACTION_ACCOUNT_BASE_SIZE + length (data acc))"
    using load_for_tx_spec(1) [OF live, of "tx_fee_payer tx" True l] load found
    by (auto simp: acc_def loader_load_transaction_account_def split: prod.splits)
  obtain r payer where fee: "validate_fee_payer ?li (tx_fee_payer tx) 0 ?fee (update_rent_exempt_status_for_account ?li acc) = (r, payer)"
    by fastforce
  have r: "r = Ok ()" and vtd: "vtd_loaded_fee_payer_account vtd = loaded\<lparr>lta_account := payer\<rparr>"
    "vtd_rollback_accounts vtd = rollback_accounts_new nonce (tx_fee_payer tx) payer (rent_epoch acc)"
    using assms(2) load found fee
    by (auto simp: validate_transaction_fee_payer_def with_loader_def Let_def monad_defs acc_def split: result.splits)
  from validate_fee_payer_Ok [OF fee [unfolded r]] have "unat (lamports payer) + unat ?fee = unat (lamports acc)" "data payer = data acc" "owner payer = owner acc"
    by (auto simp: update_rent_exempt_status_for_account_def unat_sub word_le_nat_alt)
  moreover have "loaded\<lparr>lta_account := payer\<rparr> = \<lparr>lta_account = payer, lta_loaded_size = lta_loaded_size loaded\<rparr>" by (cases loaded) simp
  ultimately show ?thesis using view size vtd by metis
qed

lemma validated_details:
  assumes live: "live_database (pi_loader pi)" and "validate_transaction_nonce_and_fee_payer pi env tx details l = (Ok vtd, l')"
  shows "\<exists>acc payer nonce. loader_view (pi_loader pi) l (tx_fee_payer tx) = Some acc
    \<and> unat (lamports payer) + unat (total_fee pi (bl_fee_details (ctd_compute_budget_and_limits details))) = unat (lamports acc)
    \<and> data payer = data acc \<and> map_option ni_address nonce = ctd_nonce_address details
    \<and> vtd_loaded_fee_payer_account vtd = \<lparr>lta_account = payer, lta_loaded_size = usize_saturating (TRANSACTION_ACCOUNT_BASE_SIZE + length (data acc))\<rparr>
    \<and> vtd_rollback_accounts vtd = rollback_accounts_new nonce (tx_fee_payer tx) payer (rent_epoch acc)"
proof -
  obtain nonce l1 where fee: "validate_transaction_fee_payer pi tx nonce (ctd_compute_budget_and_limits details) l1 = (Ok vtd, l')"
    and nonce: "map_option ni_address nonce = ctd_nonce_address details" and view: "loader_view (pi_loader pi) l1 = loader_view (pi_loader pi) l"
  proof (cases "ctd_nonce_address details")
    case None
    then show ?thesis using assms(2) that [of None l] by (simp add: validate_transaction_nonce_and_fee_payer_def monad_defs)
  next
    case (Some key)
    obtain r l1 where v: "validate_transaction_nonce pi tx key (nonce_from_blockhash pi (pe_blockhash env))
        (pe_blockhash_lamports_per_signature env) l = (r, l1)" by fastforce
    then obtain ni where "r = Ok ni"
      using assms(2) Some by (cases r) (auto simp: validate_transaction_nonce_and_fee_payer_def monad_defs)
    then show ?thesis
      using assms(2) v Some that [of "Some ni" l1] validated_nonce [of pi tx key] keepsD [OF validate_nonce_keeps [OF live] v]
      by (simp add: validate_transaction_nonce_and_fee_payer_def monad_defs)
  qed
  show ?thesis using validated_payer [OF live fee] nonce unfolding view by blast
qed

lemma rollback_new_list:
  "rollback_list (rollback_accounts_new nonce key payer epoch) =
    (case nonce of
       None \<Rightarrow> [(key, payer\<lparr>rent_epoch := epoch\<rparr>)]
     | Some ni \<Rightarrow> if key = ni_address ni then [(key, payer\<lparr>data := data (ni_account ni)\<rparr>)] else [(key, payer), (ni_address ni, ni_account ni)])"
  by (simp add: rollback_accounts_new_def rollback_list_def split: option.split)

section \<open>Settling\<close>

lemma unpack_keeps: "live_database (pi_loader pi) \<Longrightarrow> loader_view (pi_loader pi) (snd (unpack_token_account pi acc i l)) = loader_view (pi_loader pi) l"
  using load_account_spec(2) by (auto simp: unpack_token_account_def Let_def split: option.splits prod.splits) (metis snd_conv)+

lemma collect_from_keeps:
  assumes "live_database (pi_loader pi)"
  shows "loader_view (pi_loader pi) (snd (collect_balances_from pi tx b iks l)) = loader_view (pi_loader pi) l"
proof (induction iks arbitrary: l)
  case (Cons ik iks)
  obtain i key where ik: "ik = (i, key)" by fastforce
  obtain found l1 where load: "load_account (pi_loader pi) key l = (found, l1)" by fastforce
  have l1: "loader_view (pi_loader pi) l1 = loader_view (pi_loader pi) l" using load_account_spec(2) [OF assms, of key l] load by simp
  show ?case
    using Cons.IH l1 load unpack_keeps [OF assms] unfolding ik
    by (auto simp: Let_def split: option.splits prod.splits) (metis snd_conv)+
qed simp

lemma collectors_keep [keeps_rules]:
  assumes "live_processor pr"
  shows "keeps (batch_view pr) (on_collector (collect_pre_balances (pr_interface pr) tx))"
    and "keeps (batch_view pr) (on_collector (collect_post_balances (pr_interface pr) tx))"
  using collect_from_keeps [OF assms [unfolded live_processor_def]]
  by (auto simp: keeps_def on_collector_def batch_view_def collect_pre_balances_def collect_post_balances_def collect_balances_def Let_def
      split: option.splits prod.splits) (metis snd_conv)+

lemma execute_rollback:
  "execute_loaded_transaction li rt cost config tx loaded = Ok et \<Longrightarrow> lt_rollback_accounts (et_loaded_transaction et) = lt_rollback_accounts loaded"
  by (auto simp: execute_loaded_transaction_def Let_def bindR_def split: prod.splits result.splits failure.splits if_splits)

lemma execute_settled:
  assumes "execute_and_settle pr config tx loaded s = (Ok (Processing result), s')"
  shows "settled pr (lt_rollback_accounts loaded) s result s'"
  using assms
  by (auto simp: execute_and_settle_def settle_failed_def Let_def monad_defs settled_def is_ok_def batch_view_def
      was_processed_with_successful_result_def processed_with_successful_result_def
      split: option.splits result.splits if_splits dest: execute_rollback)

lemma load_rollback_of:
  "load_transaction li tx v l = (Ok r, l') \<Longrightarrow> load_rollback r = (case v of Ok vtd \<Rightarrow> Some (vtd_rollback_accounts vtd) | Err _ \<Rightarrow> None)"
  by (auto simp: load_transaction_def load_rollback_def split: result.splits prod.splits failure.splits)

lemma settle_settled:
  assumes "settle_transaction pr config tx load_result s = (Ok (Processing result), s')"
  shows "case load_rollback load_result of
      None \<Rightarrow> \<not> is_ok result \<and> s' = s
    | Some rb \<Rightarrow> settled pr rb s result s'"
proof (cases load_result)
  case (Loaded lt)
  then show ?thesis using assms execute_settled by (simp add: settle_transaction_def load_rollback_def)
next
  case (FeesOnly ft)
  then show ?thesis
    using assms by (auto simp: settle_transaction_def settle_failed_def load_rollback_def monad_defs settled_def is_ok_def batch_view_def split: if_splits)
next
  case (NotLoaded e)
  then show ?thesis using assms by (auto simp: settle_transaction_def load_rollback_def monad_defs is_ok_def)
qed

text \<open>A processed transaction: it was validated, and what its failure leaves are the rollback accounts.\<close>

lemma process_transaction_settled:
  assumes live: "live_processor pr" and run: "process_transaction pr env config tx check_result s = (Ok (Processing result), s')"
  obtains (invalid) "\<not> is_ok result" "batch_view pr s' = batch_view pr s"
  | (valid) vtd l' s1 s2 where "validate_checked pr env tx check_result (bs_loader s) = (Ok (Ok vtd), l')"
      "settled pr (vtd_rollback_accounts vtd) s1 result s2" "batch_view pr s1 = batch_view pr s" "batch_view pr s' = batch_view pr s2"
proof -
  let ?pi = "pr_interface pr" and ?li = "pi_loader (pr_interface pr)"
  obtain v l1 where v: "validate_checked pr env tx check_result (bs_loader s) = (Ok v, l1)"
    using run by (cases "validate_checked pr env tx check_result (bs_loader s)")
      (auto simp: process_transaction_def Let_def on_batch_loader_def bindM_def seqM_def split: result.splits)
  define s1 where "s1 = s\<lparr>bs_loader := l1\<rparr>"
  obtain r l2 where r: "load_transaction ?li tx v l1 = (Ok r, l2)"
    using run v by (cases "load_transaction ?li tx v l1")
      (auto simp: process_transaction_def Let_def on_batch_loader_def bindM_def seqM_def split: result.splits)
  obtain s3 where s3: "on_collector (collect_pre_balances ?pi tx) (s1\<lparr>bs_loader := l2\<rparr>) = (Ok (), s3)"
    by (cases "collect_pre_balances ?pi tx (bs_collector s1) l2") (simp add: on_collector_def)
  obtain s4 where s4: "settle_transaction pr config tx r s3 = (Ok (Processing result), s4)"
    and s': "on_collector (collect_post_balances ?pi tx) s4 = (Ok (), s')"
    using run v r s3 by (auto simp: process_transaction_def Let_def on_batch_loader_def bindM_def seqM_def ret_def s1_def
        split: prod.splits result.splits tx_outcome.splits)
  have live': "live_database ?li" using live by (simp add: live_processor_def)
  have "batch_view pr s3 = batch_view pr s"
    using keepsD [OF collectors_keep(1) [OF live] s3] keepsD [OF load_transaction_keeps [OF live'] r] keepsD [OF validate_checked_keeps [OF live] v]
    by (simp add: batch_view_def s1_def)
  moreover have "batch_view pr s' = batch_view pr s4" by (rule keepsD [OF collectors_keep(2) [OF live] s'])
  ultimately show thesis
    using settle_settled [OF s4] load_rollback_of [OF r] v that by (cases v) auto
qed

section \<open>Executing\<close>

lemma lamports_of_Cons [simp]: "lamports_of ((key, acc) # accs) = uint (lamports acc) + lamports_of accs"
  by (simp add: lamports_of_def)

lemma lamports_of_nonneg: "0 \<le> lamports_of accs"
  by (induction accs) (auto simp: lamports_of_def)

lemma lamports_of_bound: "lamports_of accs \<le> int (length accs) * (2 ^ 64 - 1)"
proof (induction accs)
  case (Cons ka accs)
  have "uint (lamports (snd ka)) \<le> 2 ^ 64 - 1" using uint_lt2p [of "lamports (snd ka)"] by simp
  then show ?case using Cons by (cases ka) (simp add: algebra_simps)
qed (simp add: lamports_of_def)

lemma sum_from_Some: "0 \<le> n \<Longrightarrow> n + lamports_of accs < 2 ^ 128 \<Longrightarrow> transaction_accounts_lamports_sum_from n accs = Some (n + lamports_of accs)"
proof (induction accs arbitrary: n)
  case (Cons ka accs)
  then show ?case using lamports_of_nonneg [of accs] by (cases ka) (auto simp: Let_def)
qed (simp add: lamports_of_def)

lemma lamports_sum: "length accs < 2 ^ 64 \<Longrightarrow> transaction_accounts_lamports_sum accs = Some (lamports_of accs)"
proof -
  assume "length accs < 2 ^ 64"
  then have "int (length accs) * (2 ^ 64 - 1) \<le> 2 ^ 64 * (2 ^ 64 - 1)" by simp
  then have "lamports_of accs < 2 ^ 128" using lamports_of_bound [of accs] by simp
  then show ?thesis using sum_from_Some [of 0 accs] by (simp add: transaction_accounts_lamports_sum_def)
qed

lemma process_from_error:
  "process_from rt message k ixs s = (Err (Fail e), s') \<Longrightarrow> \<exists>i x. e = InstructionError i x"
proof (induction ixs arbitrary: k s)
  case Nil
  then show ?case by (cases s) simp
next
  case (Cons ix ixs)
  then show ?case by (cases ix; cases s) (auto simp: Let_def split: prod.splits result.splits failure.splits)
qed

lemma process_message_error: "process_message rt message s = (Err (Fail e), s') \<Longrightarrow> \<exists>i x. e = InstructionError i x"
  by (cases s) (auto simp: process_message_def split: prod.splits result.splits failure.splits dest: process_from_error)

lemma verify_changes_error: "verify_changes_from li tc i ps = Err (Fail e) \<Longrightarrow> \<exists>k. e = InsufficientFundsForRent k"
  by (induction li tc i ps rule: verify_changes_from.induct)
    (auto simp: bindR_def check_rent_state_def check_rent_state_with_account_def split: result.splits option.splits if_splits)

lemma deconstruct_record:
  "deconstruct_transaction tc b = Ok (rec, inner) \<Longrightarrow> record_accounts rec = record_accounts (execution_record_from tc)"
  by (auto simp: deconstruct_transaction_def take_instruction_trace_def execution_record_from_def bindR_def Let_def
      split: if_splits result.splits prod.splits)

lemma execute_message_Ok:
  assumes "builtin_runtime rt" and "execute_message li rt cost config tx accs budget = (Ok (), c, units)"
  shows "lamports_of (record_accounts (execution_record_from (transaction_context c))) = lamports_of accs
    \<and> map fst (record_accounts (execution_record_from (transaction_context c))) = map fst accs
    \<and> length (record_accounts (execution_record_from (transaction_context c))) = length accs"
proof -
  obtain units' where run: "process_message rt (svm_message.truncate tx) (invoke_context_new (context_new accs (is_exempt li)
      (eb_max_instruction_stack_depth budget) (eb_max_instruction_trace_length budget) (length (message_instructions tx)))
      (new_log_collector config) budget cost, 0) = (Ok (), c, units')"
    using assms(2) by (auto simp: execute_message_def Let_def bindR_def split: prod.splits result.splits)
  have "map fst (record_accounts (execution_record_from (transaction_context c))) = map fst accs" using message_conserved [OF assms(1) run] by blast
  then show ?thesis using message_conserved [OF assms(1) run] by (auto simp: lamports_of_def dest: map_eq_imp_length_eq)
qed

lemma execute_message_error: "execute_message li rt cost config tx accs budget = (Err (Fail e), c, units) \<Longrightarrow> e \<noteq> UnbalancedTransaction"
  by (auto simp: execute_message_def Let_def bindR_def verify_changes_def split: prod.splits result.splits
      dest!: process_message_error verify_changes_error)

section \<open>A batch\<close>

lemma on_batch_loader_collector [keeps_rules]: "keeps bs_collector (on_batch_loader m)"
  by (auto simp: keeps_def on_batch_loader_def split: prod.splits)

lemma settle_collector [keeps_rules]: "keeps bs_collector (settle_transaction pr config tx r)"
proof (cases r)
  case (Loaded lt)
  show ?thesis unfolding Loaded settle_transaction_def execute_and_settle_def settle_failed_def Let_def transaction_load_result.case
    by (intro keeps_rules) (auto split: result.split intro!: keeps_rules)
next
  case (FeesOnly ft)
  show ?thesis unfolding FeesOnly settle_transaction_def settle_failed_def transaction_load_result.case by (intro keeps_rules) simp
qed (simp add: settle_transaction_def keeps_ret)

lemma process_collector:
  assumes run: "process_transaction pr env config tx check_result s = (Ok (Processing result), s')"
    and inv: "\<forall>bc. bs_collector s = Some bc \<longrightarrow> lengths_match_expected bc n"
  shows "\<forall>bc. bs_collector s' = Some bc \<longrightarrow> lengths_match_expected bc (Suc n)"
proof -
  let ?pi = "pr_interface pr"
  obtain v s1 where s1: "on_batch_loader (validate_checked pr env tx check_result) s = (Ok v, s1)"
    using run by (cases "on_batch_loader (validate_checked pr env tx check_result) s")
      (auto simp: process_transaction_def Let_def bindM_def seqM_def split: result.splits)
  obtain r s2 where s2: "on_batch_loader (load_transaction (pi_loader ?pi) tx v) s1 = (Ok r, s2)"
    using run s1 by (cases "on_batch_loader (load_transaction (pi_loader ?pi) tx v) s1")
      (auto simp: process_transaction_def Let_def bindM_def seqM_def split: result.splits)
  obtain s3 where s3: "on_collector (collect_pre_balances ?pi tx) s2 = (Ok (), s3)"
    by (cases "collect_pre_balances ?pi tx (bs_collector s2) (bs_loader s2)") (simp add: on_collector_def)
  obtain s4 where s4: "settle_transaction pr config tx r s3 = (Ok (Processing result), s4)"
    and s': "on_collector (collect_post_balances ?pi tx) s4 = (Ok (), s')"
    using run s1 s2 s3 by (auto simp: process_transaction_def Let_def bindM_def seqM_def ret_def split: prod.splits result.splits tx_outcome.splits)
  have "bs_collector s2 = bs_collector s" using keepsD [OF on_batch_loader_collector s1] keepsD [OF on_batch_loader_collector s2] by simp
  moreover have "bs_collector s4 = bs_collector s3" by (rule keepsD [OF settle_collector s4])
  ultimately show ?thesis
    using inv s3 s' by (auto simp: on_collector_def collect_pre_balances_def collect_post_balances_def Let_def lengths_match_expected_def
        split: prod.splits option.splits)
qed

lemma process_batch_ok:
  assumes "process_batch pr env config n txs results s = (Ok out, s')" "length results + length txs = n"
    "all_or_nothing config \<longrightarrow> list_all was_processed results" "\<forall>bc. bs_collector s = Some bc \<longrightarrow> lengths_match_expected bc (length results)"
  shows "batch_result_ok config n out"
  using assms
proof (induction txs arbitrary: results s)
  case Nil
  then show ?case by (auto simp: monad_defs batch_result_ok_def)
next
  case (Cons tc txs)
  obtain tx check_result where tc: "tc = (tx, check_result)" by fastforce
  obtain outcome s1 where p: "process_transaction pr env config tx check_result s = (Ok outcome, s1)"
    using Cons.prems(1) unfolding tc by (auto simp: bindM_def split: prod.splits result.splits)
  show ?case
  proof (cases outcome)
    case Hit_max_limit
    then show ?thesis using Cons.prems(1) p unfolding tc
      by (auto simp: bindM_def ret_def batch_result_ok_def was_processed_def is_ok_def list_all_iff)
  next
    case (Processing result)
    note collector = process_collector [OF p [unfolded Processing] Cons.prems(4)]
    show ?thesis
    proof (cases "all_or_nothing config \<and> \<not> is_ok result")
      case True
      then show ?thesis using Cons.prems(1,2) p Processing unfolding tc
        by (auto simp: bindM_def ret_def batch_result_ok_def was_processed_def is_ok_def list_all_iff)
    next
      case False
      then have "process_batch pr env config n txs (results @ [result]) s1 = (Ok out, s')"
        using Cons.prems(1) p Processing unfolding tc by (auto simp: bindM_def)
      then show ?thesis
        by (rule Cons.IH) (use Cons.prems(2,3) collector False in \<open>auto simp: was_processed_def\<close>)
    qed
  qed
qed

lemma rollback_writes:
  shows "\<exists>acc'. lamports acc' = lamports payer
    \<and> write_all (rollback_list (rollback_accounts_new nonce key payer epoch)) m key = alive acc'"
    and "k \<noteq> key \<Longrightarrow> map_option ni_address nonce \<noteq> Some k \<Longrightarrow>
      write_all (rollback_list (rollback_accounts_new nonce key payer epoch)) m k = m k"
proof -
  let ?acc = "case nonce of None \<Rightarrow> payer\<lparr>rent_epoch := epoch\<rparr>
    | Some ni \<Rightarrow> if key = ni_address ni then payer\<lparr>data := data (ni_account ni)\<rparr> else payer"
  have "lamports ?acc = lamports payer" "write_all (rollback_list (rollback_accounts_new nonce key payer epoch)) m key = alive ?acc"
    by (simp_all add: rollback_new_list write_all_def split: option.split)
  then show "\<exists>acc'. lamports acc' = lamports payer
    \<and> write_all (rollback_list (rollback_accounts_new nonce key payer epoch)) m key = alive acc'" by blast
qed (auto simp: rollback_new_list write_all_def split: option.split)

section \<open>Properties\<close>

text \<open>
  C6. A transaction that does not succeed pays for itself and changes nothing else. Whatever its instructions did before it failed,
  afterwards every account but the fee payer and the nonce account is what it was; when the failed transaction is kept in the batch, the
  fee payer existed and its balance fell by exactly the fee (an emptied account is gone); when it is not kept, nothing changed at all.
\<close>

theorem failed_transaction_pays_only_fee:
  assumes "live_processor pr" and "process_transaction pr env config tx (Ok details) s = (Ok (Processing result), s')"
    and "\<not> was_processed_with_successful_result result"
  shows "if was_processed result
    then (\<forall>key. key \<noteq> tx_fee_payer tx \<and> ctd_nonce_address details \<noteq> Some key \<longrightarrow> batch_view pr s' key = batch_view pr s key)
      \<and> (\<exists>acc acc'. batch_view pr s (tx_fee_payer tx) = Some acc \<and> batch_view pr s' (tx_fee_payer tx) = alive acc'
           \<and> unat (lamports acc') + unat (fee_of pr details) = unat (lamports acc))
    else batch_view pr s' = batch_view pr s"
  using assms(1,2)
proof (cases rule: process_transaction_settled)
  case invalid
  then show ?thesis by (simp add: was_processed_def)
next
  case (valid vtd l' s1 s2)
  have live: "live_database (pi_loader (pr_interface pr))" using assms(1) by (simp add: live_processor_def)
  have v: "validate_transaction_nonce_and_fee_payer (pr_interface pr) env tx details (bs_loader s) = (Ok vtd, l')"
    using valid(1) by (auto simp: validate_checked_def split: prod.splits result.splits failure.splits)
  obtain acc payer nonce where acc: "batch_view pr s (tx_fee_payer tx) = Some acc" "unat (lamports payer) + unat (fee_of pr details) = unat (lamports acc)"
    and nonce: "map_option ni_address nonce = ctd_nonce_address details"
    and rb: "vtd_rollback_accounts vtd = rollback_accounts_new nonce (tx_fee_payer tx) payer (rent_epoch acc)"
    using validated_details [OF live v] unfolding batch_view_def fee_of_def by blast
  show ?thesis
  proof (cases "is_ok result")
    case True
    then have "batch_view pr s' = write_all (rollback_list (vtd_rollback_accounts vtd)) (batch_view pr s)"
      using valid assms(3) by (simp add: settled_def)
    then show ?thesis
      using True acc nonce rollback_writes(1) [of payer nonce "tx_fee_payer tx" "rent_epoch acc" "batch_view pr s"]
        rollback_writes(2) [of _ "tx_fee_payer tx" nonce payer "rent_epoch acc" "batch_view pr s"]
      unfolding rb was_processed_def by (simp del: not_None_eq) metis
  next
    case False
    then show ?thesis using valid assms(3) by (simp add: settled_def was_processed_def)
  qed
qed

text \<open>
  C19. A batch gives one result per transaction. In an all-or-nothing batch either every transaction was processed or none was; and when
  balances are recorded, there is one record before and one after every transaction.
\<close>

theorem batch_all_or_nothing:
  assumes "length check_results = length txs"
    and "load_and_execute_sanitized_transactions pr env config builtins txs check_results = Ok out"
  shows "length (processing_results out) = length txs
    \<and> (all_or_nothing config \<longrightarrow> list_all was_processed (processing_results out) \<or> list_all (Not \<circ> was_processed) (processing_results out))
    \<and> (\<forall>bc. out_balance_collector out = Some bc \<longrightarrow> lengths_match_expected bc (length txs))"
proof (cases builtins)
  case None
  then show ?thesis using assms by (auto simp: load_and_execute_sanitized_transactions_def was_processed_def is_ok_def list_all_iff)
next
  case (Some rt)
  let ?s = "\<lparr>bs_loader = new_with_loaded_accounts_capacity (pi_loader (pr_interface pr)) (pc_account_overrides config), bs_runtime = rt,
     bs_collector = (if enable_transaction_balance_recording (recording_config config) then Some new_balance_collector else None)\<rparr>"
  obtain s' where "process_batch pr env config (length txs) (zip txs check_results) [] ?s = (Ok out, s')"
    using assms(2) Some by (auto simp: load_and_execute_sanitized_transactions_def prod_eq_iff)
  from process_batch_ok [OF this] show ?thesis
    using assms(1) by (auto simp: batch_result_ok_def lengths_match_expected_def new_balance_collector_def split: if_splits)
qed

text \<open>
  C7. Executing a loaded transaction with built-in programs never fails as unbalanced: the final comparison of the sums of lamports
  confirms what the programs guarantee. And when the execution succeeds, the accounts to be stored are the loaded ones in their order, with
  the same total of lamports.
\<close>

theorem execution_balanced:
  assumes "sysvar_keeps_length (rt_sysvar rt)" and "length (lt_accounts loaded) < 2 ^ 64"
    and "execute_loaded_transaction li (native_runtime rt sys sv env compute_budget_id) cost config tx loaded = Ok et"
  shows "ted_status (et_execution_details et) \<noteq> Err UnbalancedTransaction
    \<and> (was_successful et \<longrightarrow> map fst (lt_accounts (et_loaded_transaction et)) = map fst (lt_accounts loaded)
         \<and> lamports_of (lt_accounts (et_loaded_transaction et)) = lamports_of (lt_accounts loaded))"
proof -
  let ?rt = "native_runtime rt sys sv env compute_budget_id"
  note native = native_builtin_runtime [OF assms(1)]
  obtain r c units where m: "execute_message li ?rt cost config tx (lt_accounts loaded) (lt_compute_budget loaded) = (r, c, units)" by (metis prod.exhaust)
  show ?thesis
  proof (cases r)
    case (Ok u)
    note eq = execute_message_Ok [OF native m [unfolded Ok, simplified]]
    then have sum: "transaction_accounts_lamports_sum (record_accounts (execution_record_from (transaction_context c)))
        = transaction_accounts_lamports_sum (lt_accounts loaded)" "transaction_accounts_lamports_sum (lt_accounts loaded) = Some (lamports_of (lt_accounts loaded))"
      using assms(2) by (simp_all add: lamports_sum)
    show ?thesis
      using assms(3) m Ok sum eq
      by (auto simp: execute_loaded_transaction_def Let_def bindR_def is_ok_def was_successful_def details_was_successful_def
          split: result.splits dest!: deconstruct_record)
  next
    case (Err e)
    then show ?thesis
      using assms(3) m execute_message_error [of li ?rt cost config tx "lt_accounts loaded" "lt_compute_budget loaded" _ c units]
      by (cases e) (auto simp: execute_loaded_transaction_def Let_def bindR_def is_ok_def was_successful_def details_was_successful_def
          split: result.splits)
  qed
qed

text \<open>
  C20. What validation hands on is well-formed: the rollback accounts have distinct keys, exactly those of the fee payer and of the nonce, as
  many as they count. The fee payer among them and the loaded fee payer have the same balance, which is the one the loader has for the fee
  payer less exactly the total fee. Nothing that the loader shows changes.
\<close>

theorem validated_details_wf:
  assumes "live_database (pi_loader pi)" and "validate_transaction_nonce_and_fee_payer pi env tx details l = (Ok vtd, l')"
  shows "rollback_wf tx (ctd_nonce_address details) (vtd_rollback_accounts vtd)
    \<and> (\<exists>acc. loader_view (pi_loader pi) l (tx_fee_payer tx) = Some acc
        \<and> unat (lamports (lta_account (vtd_loaded_fee_payer_account vtd)))
            + unat (total_fee pi (bl_fee_details (ctd_compute_budget_and_limits details))) = unat (lamports acc))
    \<and> lamports (snd (rollback_fee_payer (vtd_rollback_accounts vtd))) = lamports (lta_account (vtd_loaded_fee_payer_account vtd))
    \<and> loader_view (pi_loader pi) l' = loader_view (pi_loader pi) l"
proof -
  obtain acc :: account_shared_data and payer nonce where "map_option ni_address nonce = ctd_nonce_address details"
    and "loader_view (pi_loader pi) l (tx_fee_payer tx) = Some acc"
    and "unat (lamports payer) + unat (total_fee pi (bl_fee_details (ctd_compute_budget_and_limits details))) = unat (lamports acc)"
    and "vtd_loaded_fee_payer_account vtd = \<lparr>lta_account = payer, lta_loaded_size = usize_saturating (TRANSACTION_ACCOUNT_BASE_SIZE + length (data acc))\<rparr>"
    and "vtd_rollback_accounts vtd = rollback_accounts_new nonce (tx_fee_payer tx) payer (rent_epoch acc)"
    using validated_details [OF assms] by blast
  moreover have "loader_view (pi_loader pi) l' = loader_view (pi_loader pi) l" by (rule keepsD [OF validate_keeps [OF assms(1)] assms(2)])
  ultimately show ?thesis
    by (auto simp: rollback_wf_def rollback_new_list rollback_accounts_new_def rollback_count_def rollback_fee_payer_def rollback_list_def split: option.splits)
qed

section \<open>The hypotheses hold\<close>

lemma sample_live: "live_processor sample_processor"
  by (simp add: live_processor_def sample_processor_def sample_interface_def sample_database_live)

lemmas sample_defs = sample_processor_def sample_interface_def sample_loader_def sample_details_def sample_database_def sample_account_def
  failing_transaction_def sample_transaction_def sample_config_def sample_env_def sample_batch_def empty_loader_def
  new_with_loaded_accounts_capacity_def

lemmas loading_eval = load_transaction_accounts_def Let_def monad_defs increase_calculated_data_size_def usize_saturating_def
  ADDRESS_LOOKUP_TABLE_BASE_SIZE_def TRANSACTION_ACCOUNT_BASE_SIZE_def saturating_add_def collect_loaded_account_def count_programdata_def
  load_transaction_account_def on_loader_def loader_load_transaction_account_def load_account_def do_load_def loader_insert_def
  update_rent_exempt_status_for_account_def program_instructions_iter_def ix_program_index_def RENT_EXEMPT_RENT_EPOCH_def

lemma sample_validates:
  "fst (validate_transaction_nonce_and_fee_payer sample_interface sample_env failing_transaction sample_details empty_loader) = Ok sample_validated"
  by (simp add: sample_defs validate_transaction_nonce_and_fee_payer_def validate_transaction_fee_payer_def with_loader_def loading_eval
     validate_fee_payer_def fee_payer_min_balance_def checked_sub_def get_account_rent_state_def check_rent_state_with_account_def transition_allowed_def
     sample_validated_def rollback_accounts_new_def)


lemma sample_validated_loader:
  "snd (validate_transaction_nonce_and_fee_payer sample_interface sample_env failing_transaction sample_details empty_loader) = payer_loaded"
  by (simp add: sample_defs validate_transaction_nonce_and_fee_payer_def validate_transaction_fee_payer_def with_loader_def loading_eval
     validate_fee_payer_def fee_payer_min_balance_def checked_sub_def get_account_rent_state_def check_rent_state_with_account_def transition_allowed_def
     payer_loaded_def)

lemma failing_load:
  "fst (load_transaction_accounts sample_loader failing_transaction (vtd_loaded_fee_payer_account sample_validated) 9000 payer_loaded)
    = Err (Fail InvalidProgramForExecution)"
  by (simp add: sample_defs loading_eval sample_validated_def payer_loaded_def)

lemma failing_process:
  "\<exists>ft s'. process_transaction sample_processor sample_env sample_config failing_transaction (Ok sample_details) sample_batch
     = (Ok (Processing (Ok (Processed_fees_only ft))), s') \<and> fot_load_error ft = InvalidProgramForExecution"
proof -
  let ?v = "validate_transaction_nonce_and_fee_payer sample_interface sample_env failing_transaction sample_details empty_loader"
  have v: "?v = (Ok sample_validated, payer_loaded)" by (simp add: prod_eq_iff sample_validates sample_validated_loader)
  obtain l where l: "load_transaction_accounts sample_loader failing_transaction (vtd_loaded_fee_payer_account sample_validated) 9000 payer_loaded
     = (Err (Fail InvalidProgramForExecution), l)" using failing_load by (metis prod.collapse)
  have m: "vtd_loaded_accounts_bytes_limit sample_validated = 9000" by (simp add: sample_validated_def Let_def)
  have pi: "pi_loader sample_interface = sample_loader" by (simp add: sample_interface_def)
  show ?thesis
    using v l m pi by (simp add: process_transaction_def on_batch_loader_def validate_checked_def sample_processor_def sample_batch_def
       load_transaction_def monad_defs Let_def on_collector_def collect_pre_balances_def collect_post_balances_def settle_transaction_def
       settle_failed_def sample_config_def)
qed

theorem failed_transaction_pays_only_fee_witness:
  "\<exists>result s'. process_transaction sample_processor sample_env sample_config failing_transaction (Ok sample_details) sample_batch
      = (Ok (Processing result), s') \<and> was_processed result
    \<and> (\<exists>acc. batch_view sample_processor s' [1] = Some acc \<and> lamports acc = 900)
    \<and> batch_view sample_processor s' [4] = Some (sample_account 300 20 [3])"
proof -
  obtain ft s' where run: "process_transaction sample_processor sample_env sample_config failing_transaction (Ok sample_details) sample_batch
     = (Ok (Processing (Ok (Processed_fees_only ft))), s')" using failing_process by blast
  have "tx_fee_payer failing_transaction = [1]" "ctd_nonce_address sample_details = None" "fee_of sample_processor sample_details = 100"
    by (simp_all add: sample_defs fee_of_def)
  moreover have "batch_view sample_processor sample_batch [1] = Some (sample_account 1000 0 (replicate 32 0))"
    "batch_view sample_processor sample_batch [4] = Some (sample_account 300 20 [3])"
    by (simp_all add: batch_view_def loader_view_def do_load_def sample_defs)
  moreover have "unat (lamports acc) + unat (100 :: u64) = unat (1000 :: u64) \<Longrightarrow> lamports acc = 900" for acc :: account_shared_data
    by (simp add: word_unat_eq_iff)
  ultimately show ?thesis
    using run failed_transaction_pays_only_fee [OF sample_live run]
    by (auto simp: was_processed_with_successful_result_def processed_with_successful_result_def was_processed_def is_ok_def
        sample_account_def alive_def split: if_splits)
qed

theorem batch_all_or_nothing_witness:
  "\<exists>out. load_and_execute_sanitized_transactions sample_processor sample_env sample_config (Some wallet_runtime)
      [failing_transaction, failing_transaction] [Ok sample_details, Err BlockhashNotFound] = Ok out
    \<and> map was_processed (processing_results out) = [False, False]"
proof -
  let ?out = "\<lparr>processing_results = [Err CommitCancelled, Err BlockhashNotFound], out_balance_collector = None\<rparr>"
  obtain ft s' where "process_transaction sample_processor sample_env sample_config failing_transaction (Ok sample_details) sample_batch
     = (Ok (Processing (Ok (Processed_fees_only ft))), s')" using failing_process by blast
  moreover obtain t where "process_transaction sample_processor sample_env sample_config failing_transaction (Err BlockhashNotFound) s'
     = (Ok (Processing (Err BlockhashNotFound)), t)"
    unfolding process_transaction_def on_batch_loader_def validate_checked_def load_transaction_def Let_def on_collector_def settle_transaction_def
    by (cases "collect_pre_balances (pr_interface sample_processor) failing_transaction (bs_collector s') (bs_loader s')";
        cases "collect_post_balances (pr_interface sample_processor) failing_transaction
          (fst (collect_pre_balances (pr_interface sample_processor) failing_transaction (bs_collector s') (bs_loader s')))
          (snd (collect_pre_balances (pr_interface sample_processor) failing_transaction (bs_collector s') (bs_loader s')))")
      (simp add: monad_defs)
  moreover have "all_or_nothing sample_config" by (simp add: sample_config_def)
  moreover have "\<lparr>bs_loader = new_with_loaded_accounts_capacity (pi_loader (pr_interface sample_processor)) (pc_account_overrides sample_config),
      bs_runtime = wallet_runtime, bs_collector = (if enable_transaction_balance_recording (recording_config sample_config)
        then Some new_balance_collector else None)\<rparr> = sample_batch"
    by (simp add: sample_processor_def sample_interface_def sample_config_def new_single_setting_def sample_batch_def empty_loader_def)
  ultimately have run: "load_and_execute_sanitized_transactions sample_processor sample_env sample_config (Some wallet_runtime)
      [failing_transaction, failing_transaction] [Ok sample_details, Err BlockhashNotFound] = Ok ?out"
    by (auto simp: load_and_execute_sanitized_transactions_def bindM_def ret_def is_ok_def split: prod.splits)
  from batch_all_or_nothing [OF _ run] show ?thesis using run
    by (auto simp: was_processed_def is_ok_def)
qed

theorem validated_details_wf_witness:
  "rollback_wf failing_transaction None (vtd_rollback_accounts sample_validated)
    \<and> lamports (snd (rollback_fee_payer (vtd_rollback_accounts sample_validated))) = 900
    \<and> loader_view sample_loader payer_loaded = loader_view sample_loader empty_loader"
proof -
  have live: "live_database (pi_loader sample_interface)" using sample_live by (simp add: live_processor_def sample_processor_def)
  have run: "validate_transaction_nonce_and_fee_payer sample_interface sample_env failing_transaction sample_details empty_loader
      = (Ok sample_validated, payer_loaded)" by (simp add: prod_eq_iff sample_validates sample_validated_loader)
  have "lamports (lta_account (vtd_loaded_fee_payer_account sample_validated)) = 900" by (simp add: sample_validated_def Let_def sample_defs)
  then show ?thesis using validated_details_wf [OF live run] by (auto simp: sample_details_def sample_interface_def)
qed

lemma exempt_verify_changes:
  assumes "is_exempt li = (\<lambda>_ _. True)" and "length pre \<le> length (account_keys (accounts tc))" and "length pre \<le> 2 ^ 16"
  shows "verify_changes li pre (transaction_account_state_info_new li tx tc') tc = Ok ()"
proof -
  have post: "list_all (\<lambda>p. \<forall>st. p = Some st \<longrightarrow> st = RentExempt \<or> st = RentUninitialized) (transaction_account_state_info_new li tx tc')"
    by (auto simp: transaction_account_state_info_new_def account_state_info_def list_all_iff get_account_rent_state_def assms(1)
        split: if_splits result.splits prod.splits)
  have "verify_changes_from li tc i ps = Ok ()"
    if "list_all (\<lambda>p. \<forall>st. snd p = Some st \<longrightarrow> st = RentExempt \<or> st = RentUninitialized) ps" "i + length ps \<le> length (account_keys (accounts tc))"
      "i + length ps \<le> 2 ^ 16" for i ps
    using that
  proof (induction ps arbitrary: i)
    case (Cons p ps)
    have key: "\<exists>key. get_key_of_account_at_index (word_of_nat i) tc = Ok key"
      using Cons.prems(2,3) by (simp add: get_key_of_account_at_index_def account_key_def account_keys_def get_at_def ok_or_def unsigned_of_nat take_bit_nat_eq_self)
    have "check_rent_state li (fst p) (snd p) tc (word_of_nat i) = Ok ()"
      using Cons.prems(1) key by (cases p) (auto simp: check_rent_state_def check_rent_state_with_account_def transition_allowed_def split: option.split)
    then show ?case using Cons.IH [of "Suc i"] Cons.prems by (cases p) (simp add: bindR_def)
  qed simp
  from this [of "zip pre (transaction_account_state_info_new li tx tc')" 0] show ?thesis
    using post assms(2,3) unfolding verify_changes_def list_all_length by (simp add: min_le_iff_disj) blast
qed

theorem execution_balanced_witness:
  "\<exists>et. execute_loaded_transaction bank_loader bank_runtime default_cost sample_config bank_transaction bank_loaded = Ok et
    \<and> was_successful et \<and> map fst (lt_accounts (et_loaded_transaction et)) = [[1], [2], [9]]
    \<and> lamports_of (lt_accounts (et_loaded_transaction et)) = 101"
proof -
  obtain c where run: "process_message bank_runtime bank_message (bank_context, 0) = (Ok (), (c, 150))" using bank_message_ok by blast
  have native: "sysvar_keeps_length (rt_sysvar wallet_runtime)" by (simp add: sysvar_keeps_length_def wallet_runtime_def)
  have m: "svm_message.truncate bank_transaction = bank_message" "length (message_instructions bank_transaction) = 1"
    "length (tx_account_keys bank_transaction) = 3"
    by (simp_all add: bank_transaction_def bank_message_def svm_message.defs)
  have li: "is_exempt bank_loader = (\<lambda>_ _. True)" by (simp add: bank_loader_def)
  have ctx: "invoke_context_new (context_new bank_accounts (is_exempt bank_loader) (eb_max_instruction_stack_depth wallet_budget)
      (eb_max_instruction_trace_length wallet_budget) 1) (new_log_collector sample_config) wallet_budget default_cost = bank_context"
    by (simp add: bank_context_def li wallet_budget_def new_log_collector_def sample_config_def new_single_setting_def)
  have rt: "builtin_runtime bank_runtime" unfolding bank_runtime_def by (rule native_builtin_runtime [OF native])
  have keys: "account_keys (accounts (transaction_context c)) = [[1], [2], [9]]"
    and len: "length (record_accounts (execution_record_from (transaction_context c))) = 3"
    and sum: "lamports_of (record_accounts (execution_record_from (transaction_context c))) = lamports_of bank_accounts"
    using message_conserved [OF rt run [folded ctx]] by (auto simp: bank_accounts_def lamports_of_def dest: map_eq_imp_length_eq)
  have "execute_message bank_loader bank_runtime default_cost sample_config bank_transaction bank_accounts wallet_budget = (Ok (), c, 150)"
    unfolding execute_message_def Let_def m ctx run prod.case bindR_def result.case
    using exempt_verify_changes [OF li, of "transaction_account_state_info_new bank_loader bank_transaction _" "transaction_context c" bank_transaction]
    by (simp add: transaction_account_state_info_new_def m keys)
  moreover have "transaction_accounts_lamports_sum (record_accounts (execution_record_from (transaction_context c)))
      = transaction_accounts_lamports_sum bank_accounts"
    using len sum by (simp add: lamports_sum) (simp add: bank_accounts_def lamports_sum)
  ultimately obtain et where et: "execute_loaded_transaction bank_loader bank_runtime default_cost sample_config bank_transaction bank_loaded = Ok et"
      "was_successful et"
    by (auto simp: execute_loaded_transaction_def bank_loaded_def Let_def bindR_def deconstruct_transaction_def sample_config_def
        new_single_setting_def was_successful_def details_was_successful_def is_ok_def lamports_sum bank_accounts_def)
  from execution_balanced [OF native _ et(1) [unfolded bank_runtime_def]] et show ?thesis
    by (auto simp: bank_loaded_def bank_accounts_def lamports_of_def)
qed

end
