(* ===== verification/Rt_Serialize.thy ===== *)
theory Rt_Serialize
  imports Rt_Invoke Sbpf_Memory Sbpf_Aligned
begin

text \<open>
  The input of an SBPF program, \<^verbatim>\<open>src/program-runtime/src/serialization.rs\<close>: the accounts, the instruction data and the program id are
  written into a buffer (ABI v0 for the deprecated loader, ABI v1 for the others) that is mapped into the address space of the program;
  after the program has run, what it left there is written back to the accounts. The constants and the loader id of other packages are
  the record \<open>serialization_interface\<close>, where the buffer and the account data lie in host memory, and
  the constructors of regions from slices of host memory, which the released package of the virtual machine has, are the record
  \<open>host_layout\<close>. Accounts stay
  borrowed while they are serialized, as in the source; a guard is dropped at the end of its turn of the loop, or when an error ends the loop.
\<close>

section \<open>Regions of accounts\<close>

record serialization_interface =
  BPF_ALIGN_OF_U128 :: nat
  MAX_PERMITTED_DATA_INCREASE :: nat
  MAX_PERMITTED_DATA_LENGTH :: u64
  NON_DUP_MARKER :: u8
  deprecated_loader_id :: pubkey

record host_layout =
  host_buffer :: u64
  host_account_data :: "nat \<Rightarrow> u64"
  new_writable :: "u64 \<Rightarrow> nat \<Rightarrow> u64 \<Rightarrow> memory_region"
  new_readonly :: "u64 \<Rightarrow> nat \<Rightarrow> u64 \<Rightarrow> memory_region"

definition MAX_ACCOUNTS_PER_INSTRUCTION :: u16 where
  "MAX_ACCOUNTS_PER_INSTRUCTION = 255"

definition usize_align_offset :: "nat \<Rightarrow> nat \<Rightarrow> nat" where
  "usize_align_offset n align = (align - n mod align) mod align"

definition modify_memory_region_of_account :: "borrowed_account \<Rightarrow> transaction_context \<Rightarrow> memory_region \<Rightarrow> memory_region" where
  "modify_memory_region_of_account b tc region =
    (let region = region\<lparr>region_len := word_of_nat (length (get_data b tc))\<rparr> in
     if is_ok (can_data_be_changed b tc)
     then region\<lparr>writable := True, access_violation_handler_payload := Some (index_in_transaction (ba_account b))\<rparr>
     else region\<lparr>writable := False, access_violation_handler_payload := None\<rparr>)"

definition create_memory_region_of_account ::
  "host_layout \<Rightarrow> borrowed_account \<Rightarrow> u64 \<Rightarrow> (transaction_context, memory_region) ix" where
  "create_memory_region_of_account hl b vaddr tc =
    (let changeable = is_ok (can_data_be_changed b tc);
         payload = (\<lambda>region. if changeable
           then region\<lparr>access_violation_handler_payload := Some (index_in_transaction (ba_account b))\<rparr> else region)
     in if changeable \<and> \<not> view_is_shared (accounts tc) (ba_guard b) then
          bindM (get_data_mut b id)
            (\<lambda>_ tc. (Ok (payload (new_writable hl (host_account_data hl (ba_guard b)) (length (get_data b tc)) vaddr)), tc)) tc
        else (Ok (payload (new_readonly hl (host_account_data hl (ba_guard b)) (length (get_data b tc)) vaddr)), tc))"

section \<open>The serializer\<close>

datatype serialize_account = Ser_account u16 borrowed_account | Ser_duplicate u16

record serializer =
  sz_buffer :: aligned_memory
  sz_regions :: "memory_region list"
  sz_vaddr :: u64
  sz_region_start :: nat
  sz_is_loader_v1 :: bool
  virtual_address_space_adjustments :: bool
  account_data_direct_mapping :: bool

type_synonym 'a ser = "(serializer \<times> transaction_context, 'a) ix"

definition serializer_new :: "(nat \<Rightarrow> bytes) \<Rightarrow> nat \<Rightarrow> u64 \<Rightarrow> bool \<Rightarrow> bool \<Rightarrow> bool \<Rightarrow> serializer" where
  "serializer_new fresh buffer_size start_addr v1 va dm =
    \<lparr>sz_buffer = with_capacity fresh buffer_size, sz_regions = [], sz_vaddr = start_addr, sz_region_start = 0, sz_is_loader_v1 = v1,
     virtual_address_space_adjustments = va, account_data_direct_mapping = dm\<rparr>"

definition on_serializer :: "(serializer, 'a) ix \<Rightarrow> 'a ser" where
  "on_serializer m = (\<lambda>(s, tc). case m s of (r, s) \<Rightarrow> (r, (s, tc)))"

definition on_context :: "(transaction_context, 'a) ix \<Rightarrow> 'a ser" where
  "on_context m = (\<lambda>(s, tc). case m tc of (r, tc) \<Rightarrow> (r, (s, tc)))"

text \<open>A write that does not fit is an error of \<open>fill_write\<close>, which every caller turns into \<open>InvalidArgument\<close>.\<close>

definition ser_fill_write :: "nat \<Rightarrow> u8 \<Rightarrow> (serializer, unit) ix" where
  "ser_fill_write num v s =
    (case fill_write num v (sz_buffer s) of
       (Ok _, m) \<Rightarrow> (Ok (), s\<lparr>sz_buffer := m\<rparr>)
     | (Err _, m) \<Rightarrow> (Err (Fail InvalidArgument), s\<lparr>sz_buffer := m\<rparr>))"

definition current_vaddr :: "serializer \<Rightarrow> u64" where
  "current_vaddr s =
    saturating_sub (saturating_add (sz_vaddr s) (word_of_nat (al_length (sz_buffer s)))) (word_of_nat (sz_region_start s))"

definition ser_write_all :: "bytes \<Rightarrow> (serializer, u64) ix" where
  "ser_write_all bs s =
    (case write_all_unchecked bs (sz_buffer s) of
       (Ok _, m) \<Rightarrow> (Ok (current_vaddr s), s\<lparr>sz_buffer := m\<rparr>)
     | (Err _, m) \<Rightarrow> (Err Panic, s\<lparr>sz_buffer := m\<rparr>))"

text \<open>\<open>write::<T>\<close> for \<open>u8\<close> and \<open>u64\<close>: the bytes of the value; the debug assertion on the alignment of the host address is left out.\<close>

definition ser_write_u8 :: "u8 \<Rightarrow> (serializer, u64) ix" where
  "ser_write_u8 v = ser_write_all [v]"

definition ser_write_u64 :: "u64 \<Rightarrow> (serializer, u64) ix" where
  "ser_write_u64 v = ser_write_all (le_bytes 8 v)"

definition push_region :: "host_layout \<Rightarrow> (serializer, unit) ix" where
  "push_region hl s =
    (let start = sz_region_start s; stop = al_length (sz_buffer s) in
     if start \<le> stop then
       (Ok (), s\<lparr>sz_regions := sz_regions s @ [new_writable hl (host_buffer hl + word_of_nat start) (stop - start) (sz_vaddr s)],
                sz_region_start := stop, sz_vaddr := sz_vaddr s + word_of_nat (stop - start)\<rparr>)
     else (Err Panic, s))"

definition write_account_inline :: "serialization_interface \<Rightarrow> borrowed_account \<Rightarrow> u64 ser" where
  "write_account_inline si b =
    bindM (getsM (\<lambda>(s, tc). (saturating_add (sz_vaddr s) (word_of_nat (al_length (sz_buffer s))), get_data b tc, sz_is_loader_v1 s)))
      (\<lambda>(vm_data_addr, bs, v1).
        seqM (on_serializer (ser_write_all bs)) (
        seqM (if v1 then ret ()
              else on_serializer (ser_fill_write (MAX_PERMITTED_DATA_INCREASE si + usize_align_offset (length bs) (BPF_ALIGN_OF_U128 si)) 0))
          (ret vm_data_addr)))"

definition write_account_region :: "serialization_interface \<Rightarrow> host_layout \<Rightarrow> borrowed_account \<Rightarrow> bytes \<Rightarrow> unit ser" where
  "write_account_region si hl b bs =
    bindM (getsM fst) (\<lambda>s.
      let reserved = (if sz_is_loader_v1 s then length bs else length bs + MAX_PERMITTED_DATA_INCREASE si) in
      if 0 < reserved then
        if \<not> account_data_direct_mapping s then
          seqM (on_serializer (push_region hl)) (modifyM (\<lambda>(s, tc).
            (s\<lparr>sz_regions := butlast (sz_regions s) @ [modify_memory_region_of_account b tc (last (sz_regions s))]\<rparr>, tc)))
        else
          bindM (on_context (create_memory_region_of_account hl b (sz_vaddr s))) (\<lambda>region.
            modifyM (\<lambda>(s, tc). (s\<lparr>sz_vaddr := sz_vaddr s + word_of_nat reserved, sz_regions := sz_regions s @ [region]\<rparr>, tc)))
      else ret ())"

definition write_account_mapped :: "serialization_interface \<Rightarrow> host_layout \<Rightarrow> borrowed_account \<Rightarrow> u64 ser" where
  "write_account_mapped si hl b =
    seqM (on_serializer (push_region hl)) (
    bindM (getsM (\<lambda>(s, tc). (s, get_data b tc))) (\<lambda>(s, bs).
      let vm_data_addr = sz_vaddr s; v1 = sz_is_loader_v1 s; dm = account_data_direct_mapping s;
          align = usize_align_offset (length bs) (BPF_ALIGN_OF_U128 si)
      in
      seqM (if dm then ret ()
            else seqM (on_serializer (ser_write_all bs))
                   (if v1 then ret () else on_serializer (ser_fill_write (MAX_PERMITTED_DATA_INCREASE si) 0))) (
      seqM (write_account_region si hl b bs) (
      seqM (if v1 then ret ()
            else if \<not> dm then on_serializer (ser_fill_write align 0)
            else seqM (on_serializer (ser_fill_write (BPF_ALIGN_OF_U128 si) 0))
                   (modifyM (\<lambda>(s, tc). (s\<lparr>sz_region_start := sz_region_start s + (BPF_ALIGN_OF_U128 si - align)\<rparr>, tc))))
        (ret vm_data_addr)))))"

definition write_account :: "serialization_interface \<Rightarrow> host_layout \<Rightarrow> borrowed_account \<Rightarrow> u64 ser" where
  "write_account si hl b =
    bindM (getsM fst) (\<lambda>s.
      if \<not> virtual_address_space_adjustments s then write_account_inline si b else write_account_mapped si hl b)"

definition ser_finish :: "host_layout \<Rightarrow> (serializer, aligned_memory \<times> memory_region list) ix" where
  "ser_finish hl = seqM (push_region hl) (getsM (\<lambda>s. (sz_buffer s, sz_regions s)))"

section \<open>Serializing parameters\<close>

definition size_for_abiv0 :: "bool \<Rightarrow> bool \<Rightarrow> transaction_context \<Rightarrow> serialize_account list \<Rightarrow> bytes \<Rightarrow> nat" where
  "size_for_abiv0 va dm tc sas ix_bytes =
    8 + (\<Sum>sa\<leftarrow>sas. 1 + (case sa of
           Ser_duplicate _ \<Rightarrow> 0
         | Ser_account _ b \<Rightarrow> 1 + 1 + 32 + 8 + 8 + 32 + 1 + 8 + (if va \<and> dm then 0 else length (get_data b tc))))
    + 8 + length ix_bytes + 32"

definition serialize_account_v0 :: "serialization_interface \<Rightarrow> host_layout \<Rightarrow> borrowed_account \<Rightarrow> serialized_account_metadata ser" where
  "serialize_account_v0 si hl b =
    seqM (on_serializer (ser_write_u8 (NON_DUP_MARKER si))) (
    seqM (on_serializer (ser_write_u8 (bool_as_u8 (is_signer (ba_account b))))) (
    seqM (on_serializer (ser_write_u8 (bool_as_u8 (is_writable (ba_account b))))) (
    bindM (liftR (\<lambda>(_, tc). get_key b tc)) (\<lambda>key.
    bindM (on_serializer (ser_write_all key)) (\<lambda>key_addr.
    bindM (getsM (\<lambda>(_, tc). get_lamports b tc)) (\<lambda>balance.
    bindM (on_serializer (ser_write_u64 balance)) (\<lambda>lamports_addr.
    bindM (getsM (\<lambda>(_, tc). length (get_data b tc))) (\<lambda>data_len.
    seqM (on_serializer (ser_write_u64 (word_of_nat data_len))) (
    bindM (write_account si hl b) (\<lambda>data_addr.
    bindM (getsM (\<lambda>(_, tc). (get_owner b tc, acc_executable (private_of b tc), length (get_data b tc)))) (\<lambda>(own, exec, len).
    bindM (on_serializer (ser_write_all own)) (\<lambda>owner_addr.
    seqM (on_serializer (ser_write_u8 (bool_as_u8 exec))) (
    seqM (on_serializer (ser_write_u64 (- 1))) (
      ret \<lparr>original_data_len = len, vm_data_addr = data_addr, vm_key_addr = key_addr, vm_lamports_addr = lamports_addr,
           vm_owner_addr = owner_addr\<rparr>))))))))))))))"

definition serialize_account_v1 :: "serialization_interface \<Rightarrow> host_layout \<Rightarrow> borrowed_account \<Rightarrow> serialized_account_metadata ser" where
  "serialize_account_v1 si hl b =
    seqM (on_serializer (ser_write_u8 (NON_DUP_MARKER si))) (
    seqM (on_serializer (ser_write_u8 (bool_as_u8 (is_signer (ba_account b))))) (
    seqM (on_serializer (ser_write_u8 (bool_as_u8 (is_writable (ba_account b))))) (
    bindM (getsM (\<lambda>(_, tc). acc_executable (private_of b tc))) (\<lambda>exec.
    seqM (on_serializer (ser_write_u8 (bool_as_u8 exec))) (
    seqM (on_serializer (ser_write_all [0, 0, 0, 0])) (
    bindM (liftR (\<lambda>(_, tc). get_key b tc)) (\<lambda>key.
    bindM (on_serializer (ser_write_all key)) (\<lambda>key_addr.
    bindM (getsM (\<lambda>(_, tc). (get_owner b tc, get_lamports b tc, length (get_data b tc)))) (\<lambda>(own, balance, data_len).
    bindM (on_serializer (ser_write_all own)) (\<lambda>owner_addr.
    bindM (on_serializer (ser_write_u64 balance)) (\<lambda>lamports_addr.
    seqM (on_serializer (ser_write_u64 (word_of_nat data_len))) (
    bindM (write_account si hl b) (\<lambda>data_addr.
    seqM (on_serializer (ser_write_u64 (- 1))) (
    bindM (getsM (\<lambda>(_, tc). length (get_data b tc))) (\<lambda>len.
      ret \<lparr>original_data_len = len, vm_data_addr = data_addr, vm_key_addr = key_addr, vm_lamports_addr = lamports_addr,
           vm_owner_addr = owner_addr\<rparr>)))))))))))))))"

definition drop_serialized :: "serialize_account \<Rightarrow> transaction_context \<Rightarrow> transaction_context" where
  "drop_serialized sa tc = (case sa of Ser_account _ b \<Rightarrow> drop_borrowed b tc | Ser_duplicate _ \<Rightarrow> tc)"

text \<open>One turn of the loop over the accounts: \<open>single\<close> writes an account, \<open>padding\<close> follows the position of a duplicate.\<close>

definition serialize_one ::
  "(borrowed_account \<Rightarrow> serialized_account_metadata ser) \<Rightarrow> bytes \<Rightarrow> serialized_account_metadata list \<Rightarrow> serialize_account \<Rightarrow>
     serialized_account_metadata ser" where
  "serialize_one single padding metas sa =
    (case sa of
       Ser_account _ b \<Rightarrow> single b
     | Ser_duplicate pos \<Rightarrow>
         bindM (liftR (\<lambda>_. unwrap (get_at metas (unat pos)))) (\<lambda>meta.
         seqM (on_serializer (ser_write_u8 (ucast pos)))
           (seqM (if padding = [] then ret 0 else on_serializer (ser_write_all padding)) (ret meta))))"

fun serialize_accounts ::
  "(borrowed_account \<Rightarrow> serialized_account_metadata ser) \<Rightarrow> bytes \<Rightarrow> serialized_account_metadata list \<Rightarrow> serialize_account list \<Rightarrow>
     serialized_account_metadata list ser" where
  "serialize_accounts single padding metas [] st = (Ok metas, st)"
| "serialize_accounts single padding metas (sa # rest) st =
    (case serialize_one single padding metas sa st of
       (Ok meta, (s, tc)) \<Rightarrow> serialize_accounts single padding (metas @ [meta]) rest (s, drop_serialized sa tc)
     | (Err e, (s, tc)) \<Rightarrow> (Err e, (s, fold drop_serialized rest (drop_serialized sa tc))))"

type_synonym serialized = "aligned_memory \<times> memory_region list \<times> serialized_account_metadata list \<times> nat"

definition serialize_parameters_for_abiv0 ::
  "serialization_interface \<Rightarrow> host_layout \<Rightarrow> (nat \<Rightarrow> bytes) \<Rightarrow> bool \<Rightarrow> bool \<Rightarrow> serialize_account list \<Rightarrow> bytes \<Rightarrow> pubkey \<Rightarrow>
     (transaction_context, serialized) ix" where
  "serialize_parameters_for_abiv0 si hl fresh va dm sas ix_bytes pid tc =
    (let s = serializer_new fresh (size_for_abiv0 va dm tc sas ix_bytes) MM_INPUT_START True va dm;
         (r, (s, tc)) =
           seqM (on_serializer (ser_write_u64 (word_of_nat (length sas)))) (
           bindM (serialize_accounts (serialize_account_v0 si hl) [] [] sas) (\<lambda>metas.
           seqM (on_serializer (ser_write_u64 (word_of_nat (length ix_bytes)))) (
           bindM (on_serializer (ser_write_all ix_bytes)) (\<lambda>offset.
           seqM (on_serializer (ser_write_all pid)) (
           bindM (on_serializer (ser_finish hl)) (\<lambda>(mem, regions).
             ret (mem, regions, metas, unat offset))))))) (s, tc)
     in (r, tc))"

definition size_for_abiv1 ::
  "serialization_interface \<Rightarrow> bool \<Rightarrow> bool \<Rightarrow> transaction_context \<Rightarrow> serialize_account list \<Rightarrow> bytes \<Rightarrow> nat" where
  "size_for_abiv1 si va dm tc sas ix_bytes =
    8 + (\<Sum>sa\<leftarrow>sas. 1 + (case sa of
           Ser_duplicate _ \<Rightarrow> 7
         | Ser_account _ b \<Rightarrow> 1 + 1 + 1 + 4 + 32 + 32 + 8 + 8 + 8 +
             (let data_len = length (get_data b tc) in
              if va \<and> dm then BPF_ALIGN_OF_U128 si
              else data_len + MAX_PERMITTED_DATA_INCREASE si + usize_align_offset data_len (BPF_ALIGN_OF_U128 si))))
    + 8 + length ix_bytes + 32"

definition write_account_pointers :: "nat option \<Rightarrow> serialized_account_metadata list \<Rightarrow> unit ser" where
  "write_account_pointers offset metas =
    (case offset of
       None \<Rightarrow> ret ()
     | Some padding \<Rightarrow>
         seqM (on_serializer (ser_fill_write padding 0))
           (foldr (\<lambda>meta rest. seqM (on_serializer (ser_write_u64 (vm_data_addr meta))) rest) metas (ret ())))"

definition serialize_parameters_for_abiv1 ::
  "serialization_interface \<Rightarrow> host_layout \<Rightarrow> (nat \<Rightarrow> bytes) \<Rightarrow> bool \<Rightarrow> bool \<Rightarrow> bool \<Rightarrow> serialize_account list \<Rightarrow> bytes \<Rightarrow> pubkey \<Rightarrow>
     (transaction_context, serialized) ix" where
  "serialize_parameters_for_abiv1 si hl fresh va dm pointers sas ix_bytes pid tc =
    (let sz = size_for_abiv1 si va dm tc sas ix_bytes;
         offset = (if pointers then Some (usize_align_offset sz (BPF_ALIGN_OF_U128 si)) else None);
         sz = (case offset of Some padding \<Rightarrow> sz + padding + length sas * 8 | None \<Rightarrow> sz);
         s = serializer_new fresh sz MM_INPUT_START False va dm;
         (r, (s, tc)) =
           seqM (on_serializer (ser_write_u64 (word_of_nat (length sas)))) (
           bindM (serialize_accounts (serialize_account_v1 si hl) [0, 0, 0, 0, 0, 0, 0] [] sas) (\<lambda>metas.
           seqM (on_serializer (ser_write_u64 (word_of_nat (length ix_bytes)))) (
           bindM (on_serializer (ser_write_all ix_bytes)) (\<lambda>ix_offset.
           seqM (on_serializer (ser_write_all pid)) (
           seqM (write_account_pointers offset metas) (
           bindM (on_serializer (ser_finish hl)) (\<lambda>(mem, regions).
             ret (mem, regions, metas, unat ix_offset)))))))) (s, tc)
     in (r, tc))"

text \<open>Collecting the accounts: an error on the way is unwrapped.\<close>

fun collect_accounts :: "u16 list \<Rightarrow> instruction_context \<Rightarrow> (transaction_context, serialize_account list) ix" where
  "collect_accounts [] ic = ret []"
| "collect_accounts (index # rest) ic =
    bindM (\<lambda>tc. case is_instruction_account_duplicate index ic of
        Err _ \<Rightarrow> (Err Panic, tc)
      | Ok (Some pos) \<Rightarrow> (Ok (Ser_duplicate pos), tc)
      | Ok None \<Rightarrow> (case try_borrow_instruction_account index ic tc of
          (Ok b, tc) \<Rightarrow> (Ok (Ser_account index b), tc)
        | (Err _, tc) \<Rightarrow> (Err Panic, tc))) (\<lambda>sa.
    bindM (collect_accounts rest ic) (\<lambda>sas. ret (sa # sas)))"

definition account_indices :: "instruction_context \<Rightarrow> u16 list" where
  "account_indices ic = map word_of_nat [0..<unat (get_number_of_instruction_accounts ic)]"

definition serialize_parameters ::
  "serialization_interface \<Rightarrow> host_layout \<Rightarrow> (nat \<Rightarrow> bytes) \<Rightarrow> instruction_context \<Rightarrow> bool \<Rightarrow> bool \<Rightarrow> bool \<Rightarrow>
     (transaction_context, serialized) ix" where
  "serialize_parameters si hl fresh ic va dm pointers =
    seqM (failIf (get_number_of_instruction_accounts ic > MAX_ACCOUNTS_PER_INSTRUCTION) (Fail MaxAccountsExceeded)) (
    bindM (liftR (get_program_key ic)) (\<lambda>pid.
    bindM (get_program_owner ic) (\<lambda>own.
    bindM (collect_accounts (account_indices ic) ic) (\<lambda>sas.
      if own = deprecated_loader_id si
      then serialize_parameters_for_abiv0 si hl fresh va dm sas (ic_data ic) pid
      else serialize_parameters_for_abiv1 si hl fresh va dm pointers sas (ic_data ic) pid))))"

section \<open>Deserializing parameters\<close>

definition slice_get :: "bytes \<Rightarrow> nat \<Rightarrow> nat \<Rightarrow> bytes option" where
  "slice_get buffer start stop = (if start \<le> stop \<and> stop \<le> length buffer then Some (take (stop - start) (drop start buffer)) else None)"

definition read_slice :: "bytes \<Rightarrow> nat \<Rightarrow> nat \<Rightarrow> (transaction_context, bytes) ix" where
  "read_slice buffer start n = liftR (\<lambda>_. ok_or (Fail InvalidArgument) (slice_get buffer start (start + n)))"

definition read_u64 :: "bytes \<Rightarrow> nat \<Rightarrow> (transaction_context, u64) ix" where
  "read_u64 buffer start = bindM (read_slice buffer start 8) (\<lambda>bs. ret (of_le_bytes bs))"

definition write_back_lamports :: "borrowed_account \<Rightarrow> u64 \<Rightarrow> (transaction_context, unit) ix" where
  "write_back_lamports b balance tc = (if get_lamports b tc \<noteq> balance then set_lamports b balance tc else (Ok (), tc))"

definition write_back_data :: "borrowed_account \<Rightarrow> bool \<Rightarrow> bool \<Rightarrow> bytes \<Rightarrow> nat \<Rightarrow> nat \<Rightarrow> (transaction_context, unit) ix" where
  "write_back_data b va dm buffer start len tc =
    (if \<not> va then
       bindM (read_slice buffer start len) (\<lambda>bs tc.
         case can_borrowed_be_resized b len tc of
           Ok _ \<Rightarrow> set_data_from_slice b bs tc
         | Err e \<Rightarrow> if get_data b tc \<noteq> bs then (Err e, tc) else (Ok (), tc)) tc
     else if \<not> dm \<and> is_ok (can_data_be_changed b tc) then
       bindM (read_slice buffer start len) (set_data_from_slice b) tc
     else if length (get_data b tc) \<noteq> len then set_data_length b len tc
     else (Ok (), tc))"

definition with_borrowed :: "u16 \<Rightarrow> instruction_context \<Rightarrow> (borrowed_account \<Rightarrow> (transaction_context, 'a) ix) \<Rightarrow> (transaction_context, 'a) ix" where
  "with_borrowed index ic body =
    bindM (try_borrow_instruction_account index ic) (\<lambda>b tc. case body b tc of (r, tc) \<Rightarrow> (r, drop_borrowed b tc))"

definition deserialize_account_v0 :: "bool \<Rightarrow> bool \<Rightarrow> bytes \<Rightarrow> nat \<Rightarrow> nat \<Rightarrow> borrowed_account \<Rightarrow> (transaction_context, nat) ix" where
  "deserialize_account_v0 va dm buffer pre_len start b =
    (let start = start + 1 + 1 + 32 in
     bindM (read_u64 buffer start) (\<lambda>balance.
     seqM (write_back_lamports b balance) (
     let start = start + 8 + 8 in
     seqM (write_back_data b va dm buffer start pre_len)
       (ret (start + (if va \<and> dm then 0 else pre_len) + 32 + 1 + 8)))))"

definition deserialize_account_v1 ::
  "serialization_interface \<Rightarrow> bool \<Rightarrow> bool \<Rightarrow> bytes \<Rightarrow> nat \<Rightarrow> nat \<Rightarrow> borrowed_account \<Rightarrow> (transaction_context, nat) ix" where
  "deserialize_account_v1 si va dm buffer pre_len start b =
    (let start = start + 1 + 1 + 1 + 4 + 32 in
     bindM (read_slice buffer start 32) (\<lambda>own.
     let start = start + 32 in
     bindM (read_u64 buffer start) (\<lambda>balance.
     seqM (write_back_lamports b balance) (
     let start = start + 8 in
     bindM (read_u64 buffer start) (\<lambda>len.
     let post_len = unat len; start = start + 8 in
     seqM (failIf (post_len - pre_len > MAX_PERMITTED_DATA_INCREASE si \<or> post_len > unat (MAX_PERMITTED_DATA_LENGTH si)) (Fail InvalidRealloc)) (
     seqM (write_back_data b va dm buffer start post_len) (
     let start = start + (if va \<and> dm then BPF_ALIGN_OF_U128 si
                          else pre_len + MAX_PERMITTED_DATA_INCREASE si + usize_align_offset pre_len (BPF_ALIGN_OF_U128 si)) + 8 in
     seqM (\<lambda>tc. if get_owner b tc \<noteq> own then set_owner b own tc else (Ok (), tc))
       (ret start))))))))"

text \<open>The loop over the accounts: \<open>single\<close> writes back one account and moves on, \<open>dup\<close> bytes follow the position of a duplicate.\<close>

fun deserialize_accounts ::
  "(nat \<Rightarrow> nat \<Rightarrow> borrowed_account \<Rightarrow> (transaction_context, nat) ix) \<Rightarrow> nat \<Rightarrow> instruction_context \<Rightarrow> (u16 \<times> nat) list \<Rightarrow> nat \<Rightarrow>
     (transaction_context, unit) ix" where
  "deserialize_accounts single dup ic [] start = ret ()"
| "deserialize_accounts single dup ic ((index, pre_len) # rest) start =
    bindM (liftR (\<lambda>_. is_instruction_account_duplicate index ic)) (\<lambda>duplicate.
    bindM (case duplicate of
             Some _ \<Rightarrow> ret (start + 1 + dup)
           | None \<Rightarrow> with_borrowed index ic (single pre_len (start + 1)))
      (deserialize_accounts single dup ic rest))"

definition deserialize_parameters_for_abiv0 ::
  "instruction_context \<Rightarrow> bool \<Rightarrow> bool \<Rightarrow> bytes \<Rightarrow> nat list \<Rightarrow> (transaction_context, unit) ix" where
  "deserialize_parameters_for_abiv0 ic va dm buffer account_lengths =
    deserialize_accounts (deserialize_account_v0 va dm buffer) 0 ic (zip (account_indices ic) account_lengths) 8"

definition deserialize_parameters_for_abiv1 ::
  "serialization_interface \<Rightarrow> instruction_context \<Rightarrow> bool \<Rightarrow> bool \<Rightarrow> bytes \<Rightarrow> nat list \<Rightarrow> (transaction_context, unit) ix" where
  "deserialize_parameters_for_abiv1 si ic va dm buffer account_lengths =
    deserialize_accounts (deserialize_account_v1 si va dm buffer) 7 ic (zip (account_indices ic) account_lengths) 8"

definition deserialize_parameters ::
  "serialization_interface \<Rightarrow> instruction_context \<Rightarrow> bool \<Rightarrow> bool \<Rightarrow> bytes \<Rightarrow> serialized_account_metadata list \<Rightarrow> (transaction_context, unit) ix" where
  "deserialize_parameters si ic va dm buffer metas =
    bindM (get_program_owner ic) (\<lambda>own.
      let account_lengths = map original_data_len metas in
      if own = deprecated_loader_id si
      then deserialize_parameters_for_abiv0 ic va dm buffer account_lengths
      else deserialize_parameters_for_abiv1 si ic va dm buffer account_lengths)"

end
