(* ===== verification/Rt_Serialize_Spec.thy ===== *)
theory Rt_Serialize_Spec
  imports Rt_Serialize Rt_Ledger
begin

text \<open>
  What writing back the input of a program guarantees: whatever bytes the program left there, only what the program may change does change.
  A computation with this property is \<open>lawful\<close>; every operation on a borrowed account is.
\<close>

section \<open>Definitions\<close>

definition program_key :: "u16 \<Rightarrow> transaction_context \<Rightarrow> pubkey option" where
  "program_key i tc = (case get_key_of_account_at_index i tc of Ok key \<Rightarrow> Some key | Err _ \<Rightarrow> None)"

text \<open>
  The changes of the ledger that a program with key \<open>pk\<close> may make when it may write the accounts \<open>W\<close>: owner and data of its own accounts,
  the balance of its own accounts, and additions to the balance of others.
\<close>

fun entry_permitted :: "pubkey option \<Rightarrow> bool \<Rightarrow> ledger_entry \<Rightarrow> ledger_entry \<Rightarrow> bool" where
  "entry_permitted pk w (balance, own, bs) (balance', own', bs') \<longleftrightarrow>
    (\<not> w \<longrightarrow> balance' = balance \<and> own' = own \<and> bs' = bs)
    \<and> (pk \<noteq> Some own \<longrightarrow> own' = own \<and> bs' = bs \<and> balance \<le> balance')"

definition permitted :: "pubkey option \<Rightarrow> nat set \<Rightarrow> ledger_entry list \<Rightarrow> ledger_entry list \<Rightarrow> bool" where
  "permitted pk W led led' \<longleftrightarrow>
    length led' = length led \<and> (\<forall>n < length led. entry_permitted pk (n \<in> W) (led ! n) (led' ! n))"

definition writable_indices :: "instruction_context \<Rightarrow> nat set" where
  "writable_indices ic = {unat (index_in_transaction ia) | ia. ia \<in> set (ic_accounts ic) \<and> is_writable ia}"

text \<open>A computation that, holding the guards \<open>B\<close> of the program at index \<open>i\<close>, changes the ledger as permitted, also when it fails.\<close>

definition lawful :: "u16 \<Rightarrow> nat set \<Rightarrow> borrowed_account set \<Rightarrow> (transaction_context, 'a) ix \<Rightarrow> bool" where
  "lawful i W B m \<longleftrightarrow> (\<forall>tc r tc'. m tc = (r, tc') \<longrightarrow> accounts_wf (accounts tc) \<longrightarrow>
     (\<forall>b \<in> B. borrowed_ok b tc \<and> ba_program b = i \<and> (is_writable (ba_account b) \<longrightarrow> ba_guard b \<in> W)) \<longrightarrow>
     permitted (program_key i tc) W (ledger tc) (ledger tc') \<and> accounts_wf (accounts tc')
     \<and> accounts_len (accounts tc') = accounts_len (accounts tc) \<and> program_key i tc' = program_key i tc)"

text \<open>An instruction with a writable account, given twice, and a read-only one that belongs to another program.\<close>

definition ser_interface :: serialization_interface where
  "ser_interface = \<lparr>BPF_ALIGN_OF_U128 = 8, MAX_PERMITTED_DATA_INCREASE = 16, MAX_PERMITTED_DATA_LENGTH = 10485760, NON_DUP_MARKER = 0xff,
     deprecated_loader_id = replicate 32 7\<rparr>"

definition ser_layout :: host_layout where
  "ser_layout = \<lparr>host_buffer = 0x1000, host_account_data = (\<lambda>_. 0x2000),
     new_writable = (\<lambda>address len vaddr. new_internal address (word_of_nat len) vaddr 0 True),
     new_readonly = (\<lambda>address len vaddr. new_internal address (word_of_nat len) vaddr 0 False)\<rparr>"

definition ser_context :: transaction_context where
  "ser_context = context_new
    [(replicate 32 1, \<lparr>lamports = 5, data = [7, 8], owner = replicate 32 9, executable_flag = False, rent_epoch = 0\<rparr>),
     (replicate 32 2, \<lparr>lamports = 6, data = [], owner = replicate 32 3, executable_flag = False, rent_epoch = 0\<rparr>),
     (replicate 32 9, \<lparr>lamports = 1, data = [], owner = replicate 32 4, executable_flag = True, rent_epoch = 0\<rparr>)] (\<lambda>_ _. True) 5 64 1"

definition ser_instruction :: instruction_context where
  "ser_instruction = \<lparr>ic_index_in_trace = 0, ic_nesting_level = 0, ic_index_of_caller = 0, ic_program_index = 2,
     ic_accounts = [instruction_account_new 0 True True, instruction_account_new 1 False False, instruction_account_new 0 True True],
     ic_dedup_map = [0, 1, 0xffff], ic_data = [42]\<rparr>"

section \<open>Lawful computations\<close>

named_theorems lawful_rules \<open>computations that change the ledger as permitted\<close>

lemma entry_permitted_refl [simp]: "entry_permitted pk w e e"
  by (cases e) simp

lemma entry_permitted_trans: "entry_permitted pk w d e \<Longrightarrow> entry_permitted pk w e f \<Longrightarrow> entry_permitted pk w d f"
  by (cases d; cases e; cases f) auto

lemma permitted_refl [simp]: "permitted pk W led led"
  by (simp add: permitted_def)

lemma permitted_trans: "permitted pk W l1 l2 \<Longrightarrow> permitted pk W l2 l3 \<Longrightarrow> permitted pk W l1 l3"
  unfolding permitted_def by (auto intro: entry_permitted_trans [of pk _ _ "l2 ! _"])

lemma lawfulD:
  assumes "lawful i W B m" "m tc = (r, tc')" "accounts_wf (accounts tc)"
    "\<And>b. b \<in> B \<Longrightarrow> borrowed_ok b tc \<and> ba_program b = i \<and> (is_writable (ba_account b) \<longrightarrow> ba_guard b \<in> W)"
  shows "permitted (program_key i tc) W (ledger tc) (ledger tc')" "accounts_wf (accounts tc')"
    "accounts_len (accounts tc') = accounts_len (accounts tc)" "program_key i tc' = program_key i tc"
  using assms unfolding lawful_def by blast+

lemma lawful_same: "(\<And>tc. snd (m tc) = tc) \<Longrightarrow> lawful i W B m"
  unfolding lawful_def by (metis permitted_refl snd_conv)

lemma lawful_simple [lawful_rules]:
  "lawful i W B (ret a)" "lawful i W B (throw e)" "lawful i W B (liftR f)" "lawful i W B (getsM g)" "lawful i W B (failIf c e)"
  by (rule lawful_same; simp add: monad_defs)+

lemma borrowed_ok_len: "accounts_len (accounts tc') = accounts_len (accounts tc) \<Longrightarrow> borrowed_ok b tc \<Longrightarrow> borrowed_ok b tc'"
  by (simp add: borrowed_ok_def)

lemma lawful_bindM [lawful_rules]:
  assumes m: "lawful i W B m" and f: "\<And>a. lawful i W B (f a)"
  shows "lawful i W B (bindM m f)"
  unfolding lawful_def
proof (intro allI impI)
  fix tc r tc'
  assume run: "bindM m f tc = (r, tc')" and wf: "accounts_wf (accounts tc)"
    and ok: "\<forall>b \<in> B. borrowed_ok b tc \<and> ba_program b = i \<and> (is_writable (ba_account b) \<longrightarrow> ba_guard b \<in> W)"
  obtain x t where x: "m tc = (x, t)" by fastforce
  note s = lawfulD [OF m x wf]
  show "permitted (program_key i tc) W (ledger tc) (ledger tc') \<and> accounts_wf (accounts tc')
      \<and> accounts_len (accounts tc') = accounts_len (accounts tc) \<and> program_key i tc' = program_key i tc"
  proof (cases x)
    case (Ok a)
    then have run': "f a t = (r, tc')" using run x by (simp add: bindM_def)
    have "borrowed_ok b t \<and> ba_program b = i \<and> (is_writable (ba_account b) \<longrightarrow> ba_guard b \<in> W)" if "b \<in> B" for b
      using s(3) ok that borrowed_ok_len by blast
    note t = lawfulD [OF f run' s(2) this]
    show ?thesis using s t ok permitted_trans [of "program_key i tc" W "ledger tc" "ledger t" "ledger tc'"] by simp
  next
    case (Err e)
    then show ?thesis using run x s ok by (simp add: bindM_def)
  qed
qed

lemma lawful_seqM [lawful_rules]: "lawful i W B m \<Longrightarrow> lawful i W B n \<Longrightarrow> lawful i W B (seqM m n)"
  unfolding seqM_def by (rule lawful_bindM)

lemma lawful_if [lawful_rules]: "lawful i W B m \<Longrightarrow> lawful i W B n \<Longrightarrow> lawful i W B (if c then m else n)"
  by simp

lemma lawful_state_if [lawful_rules]: "lawful i W B m \<Longrightarrow> lawful i W B n \<Longrightarrow> lawful i W B (\<lambda>tc. if c tc then m tc else n tc)"
  by (simp add: lawful_def)

lemma lawful_Ok [lawful_rules]: "lawful i W B (\<lambda>tc. (Ok a, tc))" "lawful i W B (\<lambda>tc. (Err e, tc))"
  by (rule lawful_same; simp)+

lemma write_key: "acc_key a = acc_key (shared_of b tc) \<Longrightarrow> program_key i (account_write b a p lam res tc) = program_key i tc"
  by (cases "unat i = ba_guard b")
    (auto simp: program_key_def get_key_of_account_at_index_def account_key_def account_write_def Let_def shared_of_def get_at_def ok_or_def)

lemma owned_iff: "is_owned_by_current_program b tc \<longleftrightarrow> program_key (ba_program b) tc = Some (get_owner b tc)"
  by (simp add: is_owned_by_current_program_def program_key_def split: result.split)

lemma write_step:
  assumes wf: "accounts_wf (accounts tc)" "borrowed_ok b tc" and key: "acc_key a = acc_key (shared_of b tc)"
    and e: "entry_permitted (program_key i tc) (ba_guard b \<in> W) (get_lamports b tc, get_owner b tc, get_data b tc)
      (acc_lamports a, acc_owner a, acc_payload p)"
  shows "permitted (program_key i tc) W (ledger tc) (ledger (account_write b a p lam res tc))
    \<and> program_key i (account_write b a p lam res tc) = program_key i tc
    \<and> accounts_len (accounts (account_write b a p lam res tc)) = accounts_len (accounts tc)"
proof -
  have "permitted (program_key i tc) W (ledger tc) (ledger (account_write b a p lam res tc))"
    using e ledger_nth [OF wf] by (auto simp: permitted_def account_write_ledger [OF wf] nth_list_update)
  then show ?thesis using write_key [OF key] write_accounts(3) [OF wf] by simp
qed

lemma lawful_account_op [lawful_rules]:
  assumes "\<And>tc r tc'. m tc = (r, tc') \<Longrightarrow> account_op b tc tc'" and "b \<in> B"
  shows "lawful i W B m"
  unfolding lawful_def
proof (intro allI impI)
  fix tc r tc'
  assume run: "m tc = (r, tc')" and wf: "accounts_wf (accounts tc)"
    and ok: "\<forall>b \<in> B. borrowed_ok b tc \<and> ba_program b = i \<and> (is_writable (ba_account b) \<longrightarrow> ba_guard b \<in> W)"
  have b: "borrowed_ok b tc" "ba_program b = i" "is_writable (ba_account b) \<Longrightarrow> ba_guard b \<in> W" using ok assms(2) by auto
  note e = account_op_effect [OF wf b(1) assms(1) [OF run]]
  have owned: "is_owned_by_current_program b tc \<longleftrightarrow> program_key i tc = Some (get_owner b tc)" using b(2) owned_iff by blast
  have "permitted (program_key i tc) W (ledger tc) (ledger tc') \<and> program_key i tc' = program_key i tc
      \<and> accounts_len (accounts tc') = accounts_len (accounts tc)"
    using e
  proof cases
    case unchanged
    then show ?thesis by simp
  next
    case touched
    show ?thesis unfolding touched by (rule write_step [OF wf b(1)]) (simp_all add: get_lamports_def get_owner_def get_data_def)
  next
    case (owner_set pk)
    show ?thesis unfolding owner_set(1)
      by (rule write_step [OF wf b(1)]) (use owner_set b(3) owned in \<open>simp_all add: get_lamports_def get_owner_def get_data_def\<close>)
  next
    case (lamports_set x)
    show ?thesis unfolding lamports_set(1)
      by (rule write_step [OF wf b(1)]) (use lamports_set b(3) owned in \<open>auto simp: get_lamports_def get_owner_def get_data_def\<close>)
  next
    case (data_set d res)
    show ?thesis unfolding data_set(1)
      by (rule write_step [OF wf b(1)]) (use data_set(2,3) b(3) owned in \<open>simp_all add: get_lamports_def get_owner_def get_data_def\<close>)
  next
    case (executable_set x)
    show ?thesis unfolding executable_set(1)
      by (rule write_step [OF wf b(1)]) (use executable_set b(3) owned in \<open>simp_all add: get_lamports_def get_owner_def get_data_def\<close>)
  qed
  then show "permitted (program_key i tc) W (ledger tc) (ledger tc') \<and> accounts_wf (accounts tc')
      \<and> accounts_len (accounts tc') = accounts_len (accounts tc) \<and> program_key i tc' = program_key i tc"
    using op_effect_wf [OF wf b(1) e] by blast
qed

section \<open>Writing back is lawful\<close>

lemma set_lamports_lawful [lawful_rules]: "b \<in> B \<Longrightarrow> lawful i W B (set_lamports b x)"
  and set_owner_lawful [lawful_rules]: "b \<in> B \<Longrightarrow> lawful i W B (set_owner b pk)"
  and set_data_from_slice_lawful [lawful_rules]: "b \<in> B \<Longrightarrow> lawful i W B (set_data_from_slice b bs)"
  and set_data_length_lawful [lawful_rules]: "b \<in> B \<Longrightarrow> lawful i W B (set_data_length b n)"
  by (auto intro: lawful_account_op account_op.intros)

lemma lawful_case_result [lawful_rules]:
  "(\<And>a. lawful i W B (f a)) \<Longrightarrow> (\<And>e. lawful i W B (g e)) \<Longrightarrow> lawful i W B (\<lambda>tc. case x tc of Ok a \<Rightarrow> f a tc | Err e \<Rightarrow> g e tc)"
  unfolding lawful_def by (auto split: result.splits)

lemma lawful_case_option [lawful_rules]:
  "lawful i W B m \<Longrightarrow> (\<And>a. lawful i W B (f a)) \<Longrightarrow> lawful i W B (case x of None \<Rightarrow> m | Some a \<Rightarrow> f a)"
  by (cases x) simp_all

lemma read_lawful [lawful_rules]: "lawful i W B (read_slice buffer start n)" "lawful i W B (read_u64 buffer start)"
  unfolding read_u64_def read_slice_def by (intro lawful_rules)+

lemma write_back_lawful [lawful_rules]:
  assumes "b \<in> B"
  shows "lawful i W B (write_back_lamports b balance)" "lawful i W B (write_back_data b va dm buffer start len)"
  unfolding write_back_lamports_def write_back_data_def by (intro lawful_rules assms)+

lemma deserialize_one_lawful [lawful_rules]:
  assumes "b \<in> B"
  shows "lawful i W B (deserialize_account_v0 va dm buffer pre_len start b)"
    "lawful i W B (deserialize_account_v1 si va dm buffer pre_len start b)"
  unfolding deserialize_account_v0_def deserialize_account_v1_def Let_def by (intro lawful_rules assms)+

text \<open>Borrowing moves a borrow counter only; dropping a guard moves it back and refreshes the length of the slice.\<close>

lemma try_borrow_counters:
  assumes "try_borrow_instruction_account index ic tc = (r, tc')"
  obtains cs where "tc' = tc\<lparr>accounts := accounts tc\<lparr>borrow_counters := cs\<rparr>\<rparr>" "length cs = length (borrow_counters (accounts tc))"
proof -
  have "tc' = tc\<lparr>accounts := accounts tc\<lparr>borrow_counters := borrow_counters (accounts tc')\<rparr>\<rparr>
      \<and> length (borrow_counters (accounts tc')) = length (borrow_counters (accounts tc))"
    using assms by (auto simp: try_borrow_instruction_account_def bindM_def liftR_def on_accounts_def ret_def try_borrow_mut_def
        borrow_with_def Let_def split: result.splits option.splits if_splits)
  then show thesis using that by blast
qed

lemma counters_frame:
  "ledger (tc\<lparr>accounts := accounts tc\<lparr>borrow_counters := cs\<rparr>\<rparr>) = ledger tc"
  "program_key i (tc\<lparr>accounts := accounts tc\<lparr>borrow_counters := cs\<rparr>\<rparr>) = program_key i tc"
  "accounts_len (accounts (tc\<lparr>accounts := accounts tc\<lparr>borrow_counters := cs\<rparr>\<rparr>)) = accounts_len (accounts tc)"
  "accounts_wf (accounts tc) \<Longrightarrow> length cs = length (borrow_counters (accounts tc)) \<Longrightarrow>
     accounts_wf (accounts (tc\<lparr>accounts := accounts tc\<lparr>borrow_counters := cs\<rparr>\<rparr>))"
  by (simp_all add: ledger_def program_key_def get_key_of_account_at_index_def account_key_def accounts_len_def accounts_wf_def payload_len_def)

lemma nth_update_any: "n < length xs \<Longrightarrow> xs[i := y] ! n = (if i = n then y else xs ! n)"
  by (auto simp: nth_list_update)

lemma drop_frame:
  assumes "accounts_wf (accounts tc)"
  shows "accounts_wf (accounts (drop_borrowed b tc))" "accounts_len (accounts (drop_borrowed b tc)) = accounts_len (accounts tc)"
    "program_key i (drop_borrowed b tc) = program_key i tc"
  using assms
  by (auto simp: drop_borrowed_def modify_accounts_def drop_ref_mut_def set_slice_len_def update_shared_def Let_def accounts_wf_def accounts_len_def
      payload_len_def program_key_def get_key_of_account_at_index_def account_key_def nth_update_any get_at_def ok_or_def
      split: result.split)

lemma with_borrowed_lawful:
  assumes body: "\<And>b. lawful (ic_program_index ic) W {b} (body b)" and W: "writable_indices ic \<subseteq> W"
  shows "lawful (ic_program_index ic) W {} (with_borrowed index ic body)"
  unfolding lawful_def
proof (intro allI impI)
  let ?i = "ic_program_index ic"
  fix tc r tc'
  assume run: "with_borrowed index ic body tc = (r, tc')" and wf: "accounts_wf (accounts tc)"
  obtain x t where bor: "try_borrow_instruction_account index ic tc = (x, t)" by fastforce
  obtain cs where t: "t = tc\<lparr>accounts := accounts tc\<lparr>borrow_counters := cs\<rparr>\<rparr>" "length cs = length (borrow_counters (accounts tc))"
    by (rule try_borrow_counters [OF bor])
  have frame: "ledger t = ledger tc" "program_key ?i t = program_key ?i tc" "accounts_len (accounts t) = accounts_len (accounts tc)"
    "accounts_wf (accounts t)"
    using counters_frame [where cs = cs and tc = tc] t wf by simp_all
  show "permitted (program_key ?i tc) W (ledger tc) (ledger tc') \<and> accounts_wf (accounts tc')
      \<and> accounts_len (accounts tc') = accounts_len (accounts tc) \<and> program_key ?i tc' = program_key ?i tc"
  proof (cases x)
    case (Ok b)
    obtain u where u: "body b t = (r, u)" "tc' = drop_borrowed b u"
      using run bor Ok by (auto simp: with_borrowed_def bindM_def split: prod.splits)
    have "ba_program b = ?i"
      using bor Ok by (auto simp: try_borrow_instruction_account_def monad_defs split: result.splits prod.splits)
    moreover have "is_writable (ba_account b) \<Longrightarrow> ba_guard b \<in> W"
      using try_borrow_ledger(2,3) [OF bor [unfolded Ok]] W
      by (fastforce simp: get_instruction_account_def writable_indices_def borrowed_ok_def ok_or_def in_set_conv_nth split: option.splits)
    ultimately have "b' \<in> {b} \<Longrightarrow> borrowed_ok b' t \<and> ba_program b' = ?i \<and> (is_writable (ba_account b') \<longrightarrow> ba_guard b' \<in> W)" for b'
      using try_borrow_ledger(3) [OF bor [unfolded Ok]] by auto
    note s = lawfulD [OF body u(1) frame(4) this]
    show ?thesis using s frame drop_frame [OF s(2)] unfolding u(2) by simp
  next
    case (Err e)
    then show ?thesis using run bor frame by (simp add: with_borrowed_def bindM_def)
  qed
qed

lemma deserialize_accounts_lawful:
  assumes "\<And>pre_len start b. lawful (ic_program_index ic) W {b} (single pre_len start b)" and "writable_indices ic \<subseteq> W"
  shows "lawful (ic_program_index ic) W {} (deserialize_accounts single dup ic items start)"
proof (induction items arbitrary: start)
  case (Cons item items)
  obtain index pre_len where item: "item = (index, pre_len)" by fastforce
  show ?case unfolding item deserialize_accounts.simps
    by (intro lawful_rules Cons.IH with_borrowed_lawful assms)
qed (simp add: lawful_rules)

lemma get_program_owner_lawful: "lawful i W B (get_program_owner ic)"
  unfolding lawful_def
proof (intro allI impI)
  fix tc r tc'
  assume run: "get_program_owner ic tc = (r, tc')" and wf: "accounts_wf (accounts tc)"
  have "\<exists>cs. tc' = tc\<lparr>accounts := accounts tc\<lparr>borrow_counters := cs\<rparr>\<rparr> \<and> length cs = length (borrow_counters (accounts tc))"
    using run by (intro exI [of _ "borrow_counters (accounts tc')"])
      (auto simp: get_program_owner_def monad_defs on_accounts_def try_borrow_def borrow_with_def modify_accounts_def drop_ref_def Let_def
        split: result.splits option.splits if_splits prod.splits)
  then show "permitted (program_key i tc) W (ledger tc) (ledger tc') \<and> accounts_wf (accounts tc')
      \<and> accounts_len (accounts tc') = accounts_len (accounts tc) \<and> program_key i tc' = program_key i tc"
    using counters_frame(1,3,4) [where tc = tc] counters_frame(2) [where tc = tc and i = i] wf by auto
qed

section \<open>Properties\<close>

text \<open>
  C11. Whatever a program leaves in its input, writing it back changes only what the program may change. For every content of the buffer,
  every list of lengths and both layouts, also when the write-back stops with an error half-way: an account the instruction does not list as
  writable keeps its balance, owner and data, and an account that another program owns keeps its owner and data and loses no lamports.
\<close>

theorem deserialize_permissions:
  assumes "accounts_wf (accounts tc)" and "deserialize_parameters si ic va dm buffer metas tc = (r, tc')"
  shows "length (ledger tc') = length (ledger tc) \<and> (\<forall>n < length (ledger tc). \<forall>balance own bs balance' own' bs'.
     ledger tc ! n = (balance, own, bs) \<longrightarrow> ledger tc' ! n = (balance', own', bs') \<longrightarrow>
       (n \<notin> writable_indices ic \<longrightarrow> (balance', own', bs') = (balance, own, bs))
       \<and> (get_key_of_account_at_index (ic_program_index ic) tc \<noteq> Ok own \<longrightarrow> own' = own \<and> bs' = bs \<and> balance \<le> balance'))"
proof -
  have "lawful (ic_program_index ic) (writable_indices ic) {} (deserialize_parameters si ic va dm buffer metas)"
    unfolding deserialize_parameters_def deserialize_parameters_for_abiv0_def deserialize_parameters_for_abiv1_def Let_def
    by (intro lawful_rules get_program_owner_lawful deserialize_accounts_lawful) simp_all
  note p = lawfulD(1) [OF this assms(2,1), simplified]
  have "get_key_of_account_at_index (ic_program_index ic) tc = Ok own \<longleftrightarrow> program_key (ic_program_index ic) tc = Some own" for own
    by (simp add: program_key_def split: result.split)
  then show ?thesis using p by (auto simp: permitted_def)
qed

lemmas ser_eval = ser_context_def ser_instruction_def context_new_def accounts_new_def new_shared_fields_def new_private_fields_def Let_def

lemma ser_context_wf: "accounts_wf (accounts ser_context)"
  by (simp add: accounts_wf_def accounts_len_def payload_len_def ser_eval less_Suc_eq numeral_eq_Suc)

lemma ser_ledger: "ledger ser_context ! 1 = (6, replicate 32 3, [])" "length (ledger ser_context) = 3"
  by (simp_all add: ledger_def ser_eval upt_rec)

lemma ser_readonly: "1 \<notin> writable_indices ser_instruction"
  by (auto simp: writable_indices_def ser_instruction_def instruction_account_new_def is_writable_def bool_as_u8_def)

theorem deserialize_permissions_witness:
  "ledger (snd (deserialize_parameters ser_interface ser_instruction False False (replicate 400 0)
      (replicate 3 \<lparr>original_data_len = 2, vm_data_addr = 0, vm_key_addr = 0, vm_lamports_addr = 0, vm_owner_addr = 0\<rparr>) ser_context)) ! 1
    = (6, replicate 32 3, [])" (is "ledger (snd ?run) ! 1 = _")
proof -
  have "?run = (fst ?run, snd ?run)" by simp
  note p = deserialize_permissions [OF ser_context_wf this]
  obtain balance own bs where e: "ledger (snd ?run) ! 1 = (balance, own, bs)" by (cases "ledger (snd ?run) ! 1")
  have "(1::nat) < length (ledger ser_context)" using ser_ledger(2) by simp
  from p [THEN conjunct2, rule_format, OF this ser_ledger(1) e] show ?thesis using ser_readonly e by simp
qed

end
