(* ===== verification/Rt_Serialize_Exact.thy ===== *)
theory Rt_Serialize_Exact
  imports Rt_Serialize_Spec Rt_Prepare
begin

text \<open>
  Serializing is exact: the input of an instruction fills its buffer to the last byte, so that none of the unchecked writes of
  \<^verbatim>\<open>src/program-runtime/src/serialization.rs\<close> leaves it, and no step panics; and writing an unchanged input back changes no account. The
  bytes of the input are specified apart from the serializer (\<open>instruction_input\<close>, \<open>encode_v0\<close>, \<open>encode_v1\<close>); \<open>writes\<close> says of a computation
  that it succeeds and appends given bytes.
\<close>

section \<open>Definitions\<close>

text \<open>What the serializer reads of an account: key, lamports, owner, data and the executable flag.\<close>

type_synonym account_entry = "pubkey \<times> u64 \<times> pubkey \<times> bytes \<times> bool"

definition entry_of :: "account_shared_fields \<Rightarrow> account_private_fields \<Rightarrow> account_entry" where
  "entry_of a p = (acc_key a, acc_lamports a, acc_owner a, acc_payload p, acc_executable p)"

definition account_entries :: "transaction_context \<Rightarrow> account_entry list" where
  "account_entries tc = map2 entry_of (shared_account_fields (accounts tc)) (private_account_fields (accounts tc))"

definition data_bytes :: "serialization_interface \<Rightarrow> bool \<times> bool \<times> bool \<Rightarrow> bytes \<Rightarrow> bytes" where
  "data_bytes si = (\<lambda>(v1, va, dm) bs.
    if va \<and> dm then (if v1 then [] else replicate (BPF_ALIGN_OF_U128 si) 0)
    else bs @ (if v1 then [] else replicate (MAX_PERMITTED_DATA_INCREASE si + usize_align_offset (length bs) (BPF_ALIGN_OF_U128 si)) 0))"

definition encode_v0 :: "serialization_interface \<Rightarrow> bool \<Rightarrow> bool \<Rightarrow> account_entry list \<Rightarrow> instruction_account \<Rightarrow> bytes" where
  "encode_v0 si va dm es ia = (case es ! unat (index_in_transaction ia) of (key, balance, own, bs, exec) \<Rightarrow>
    [NON_DUP_MARKER si, bool_as_u8 (is_signer ia), bool_as_u8 (is_writable ia)] @ key @ le_bytes 8 balance
    @ le_bytes 8 (word_of_nat (length bs)) @ data_bytes si (True, va, dm) bs @ own @ [bool_as_u8 exec] @ le_bytes 8 (- 1))"

definition encode_v1 :: "serialization_interface \<Rightarrow> bool \<Rightarrow> bool \<Rightarrow> account_entry list \<Rightarrow> instruction_account \<Rightarrow> bytes" where
  "encode_v1 si va dm es ia = (case es ! unat (index_in_transaction ia) of (key, balance, own, bs, exec) \<Rightarrow>
    [NON_DUP_MARKER si, bool_as_u8 (is_signer ia), bool_as_u8 (is_writable ia), bool_as_u8 exec, 0, 0, 0, 0] @ key @ own
    @ le_bytes 8 balance @ le_bytes 8 (word_of_nat (length bs)) @ data_bytes si (False, va, dm) bs @ le_bytes 8 (- 1))"

definition ser_flags :: "serializer \<Rightarrow> bool \<times> bool \<times> bool" where
  "ser_flags s = (sz_is_loader_v1 s, virtual_address_space_adjustments s, account_data_direct_mapping s)"

definition ser_ok :: "serializer \<Rightarrow> bool" where
  "ser_ok s \<longleftrightarrow> al_length (sz_buffer s) \<le> capacity (sz_buffer s) \<and> \<not> al_zero_up_to_max_len (sz_buffer s)
     \<and> sz_region_start s \<le> al_length (sz_buffer s)"

text \<open>
  In a state whose accounts have the entries \<open>es\<close>, with room for \<open>bs\<close>, the computation succeeds with a result
  that satisfies \<open>Q\<close> and appends \<open>bs\<close> to the buffer.
\<close>

definition writes :: "account_entry list \<Rightarrow> bool \<times> bool \<times> bool \<Rightarrow> bytes \<Rightarrow> ('a \<Rightarrow> bool) \<Rightarrow> 'a ser \<Rightarrow> bool" where
  "writes es fl bs Q m \<longleftrightarrow> (\<forall>s tc. ser_ok s \<and> ser_flags s = fl \<and> account_entries tc = es 
      \<and> accounts_wf (accounts tc) \<and> al_length (sz_buffer s) + length bs \<le> capacity (sz_buffer s) \<longrightarrow>
    (\<exists>a s' tc'. m (s, tc) = (Ok a, (s', tc')) \<and> Q a \<and> ser_ok s' \<and> ser_flags s' = fl \<and> account_entries tc' = es  \<and> accounts_wf (accounts tc') \<and> capacity (sz_buffer s') = capacity (sz_buffer s)
      \<and> as_slice (sz_buffer s') = as_slice (sz_buffer s) @ bs))"

definition guards_ok :: "account_entry list \<Rightarrow> borrowed_account \<Rightarrow> bool" where
  "guards_ok es b \<longleftrightarrow> ba_guard b = unat (index_in_transaction (ba_account b)) \<and> ba_guard b < length es"

fun collected_ok :: "account_entry list \<Rightarrow> nat \<Rightarrow> serialize_account list \<Rightarrow> bool" where
  "collected_ok es n [] = True"
| "collected_ok es n (sa # rest) \<longleftrightarrow>
    (case sa of Ser_account _ b \<Rightarrow> guards_ok es b | Ser_duplicate pos \<Rightarrow> unat pos < n) \<and> collected_ok es (Suc n) rest"

definition entry_data :: "account_entry \<Rightarrow> bytes" where
  "entry_data = (\<lambda>(key, balance, own, bs, exec). bs)"

definition length_recorded :: "account_entry list \<Rightarrow> serialize_account \<Rightarrow> serialized_account_metadata \<Rightarrow> bool" where
  "length_recorded es sa meta \<longleftrightarrow> (case sa of
     Ser_account _ b \<Rightarrow> original_data_len meta = length (entry_data (es ! ba_guard b)) | Ser_duplicate _ \<Rightarrow> True)"

definition encode_one :: "(instruction_account \<Rightarrow> bytes) \<Rightarrow> bytes \<Rightarrow> serialize_account \<Rightarrow> bytes" where
  "encode_one enc padding sa = (case sa of Ser_account _ b \<Rightarrow> enc (ba_account b) | Ser_duplicate pos \<Rightarrow> ucast pos # padding)"

definition input_v0 :: "serialization_interface \<Rightarrow> bool \<Rightarrow> bool \<Rightarrow> account_entry list \<Rightarrow> serialize_account list \<Rightarrow> bytes \<Rightarrow> pubkey \<Rightarrow> bytes" where
  "input_v0 si va dm es sas ix_bytes pid = le_bytes 8 (word_of_nat (length sas)) @ concat (map (encode_one (encode_v0 si va dm es) []) sas)
    @ le_bytes 8 (word_of_nat (length ix_bytes)) @ ix_bytes @ pid"

definition input_v1 :: "serialization_interface \<Rightarrow> bool \<Rightarrow> bool \<Rightarrow> account_entry list \<Rightarrow> serialize_account list \<Rightarrow> bytes \<Rightarrow> pubkey \<Rightarrow> bytes" where
  "input_v1 si va dm es sas ix_bytes pid =
    le_bytes 8 (word_of_nat (length sas)) @ concat (map (encode_one (encode_v1 si va dm es) [0, 0, 0, 0, 0, 0, 0]) sas)
    @ le_bytes 8 (word_of_nat (length ix_bytes)) @ ix_bytes @ pid"

definition pointer_bytes :: "serialization_interface \<Rightarrow> bool \<Rightarrow> nat \<Rightarrow> serialized_account_metadata list \<Rightarrow> bytes" where
  "pointer_bytes si pointers n metas = (if pointers
    then replicate (usize_align_offset n (BPF_ALIGN_OF_U128 si)) 0 @ concat (map (le_bytes 8 \<circ> vm_data_addr) metas) else [])"

definition keys_sized :: "account_entry list \<Rightarrow> bool" where
  "keys_sized es \<longleftrightarrow> (\<forall>(key, balance, own, bs, exec) \<in> set es. length key = 32 \<and> length own = 32)"

text \<open>An instruction whose accounts are those of the transaction, each found first where the deduplication map says.\<close>

definition instruction_wf :: "nat \<Rightarrow> instruction_context \<Rightarrow> bool" where
  "instruction_wf n ic \<longleftrightarrow> length (ic_accounts ic) \<le> unat MAX_ACCOUNTS_PER_INSTRUCTION \<and> firsts_ok (ic_dedup_map ic) (ic_accounts ic)
    \<and> (\<forall>j < length (ic_accounts ic). first_use (ic_dedup_map ic) (ic_accounts ic ! j) \<le> j
        \<and> unat (index_in_transaction (ic_accounts ic ! j)) < n)"

definition first_of :: "instruction_context \<Rightarrow> nat \<Rightarrow> nat" where
  "first_of ic j = first_use (ic_dedup_map ic) (ic_accounts ic ! j)"

definition borrowed_at :: "instruction_context \<Rightarrow> nat \<Rightarrow> borrowed_account" where
  "borrowed_at ic j = \<lparr>ba_guard = unat (index_in_transaction (ic_accounts ic ! j)), ba_account = ic_accounts ic ! j,
     ba_program = ic_program_index ic\<rparr>"

definition serialized_at :: "instruction_context \<Rightarrow> nat \<Rightarrow> serialize_account" where
  "serialized_at ic j = (if first_of ic j = j then Ser_account (word_of_nat j) (borrowed_at ic j) else Ser_duplicate (word_of_nat (first_of ic j)))"

text \<open>The input of an instruction: \<open>enc\<close> encodes an account where it occurs first, a repeated account is the position of the first.\<close>

definition account_input :: "(instruction_account \<Rightarrow> bytes) \<Rightarrow> bytes \<Rightarrow> instruction_context \<Rightarrow> nat \<Rightarrow> bytes" where
  "account_input enc padding ic j = (if first_of ic j = j then enc (ic_accounts ic ! j) else word_of_nat (first_of ic j) # padding)"

definition instruction_input :: "(instruction_account \<Rightarrow> bytes) \<Rightarrow> bytes \<Rightarrow> instruction_context \<Rightarrow> pubkey \<Rightarrow> bytes" where
  "instruction_input enc padding ic pid =
    le_bytes 8 (word_of_nat (length (ic_accounts ic))) @ concat (map (account_input enc padding ic) [0..<length (ic_accounts ic)])
    @ le_bytes 8 (word_of_nat (length (ic_data ic))) @ ic_data ic @ pid"

text \<open>A well-formed transaction in which no account is borrowed.\<close>

definition idle :: "transaction_context \<Rightarrow> bool" where
  "idle tc \<longleftrightarrow> accounts_wf (accounts tc) \<and> (\<forall>c \<in> set (borrow_counters (accounts tc)). c = 0)"

definition parameters :: "serialization_interface \<Rightarrow> bool \<Rightarrow> bool \<Rightarrow> account_entry list \<Rightarrow> instruction_context \<Rightarrow> pubkey \<Rightarrow> pubkey \<Rightarrow> bytes" where
  "parameters si va dm es ic own pid =
    (if own = deprecated_loader_id si then instruction_input (encode_v0 si va dm es) [] ic pid
     else instruction_input (encode_v1 si va dm es) [0, 0, 0, 0, 0, 0, 0] ic pid)"

text \<open>What writing back an unchanged input keeps.\<close>

definition kept :: "transaction_context \<Rightarrow> transaction_context \<Rightarrow> bool" where
  "kept tc tc' \<longleftrightarrow> account_entries tc' = account_entries tc \<and> accounts_wf (accounts tc')
    \<and> borrow_counters (accounts tc') = borrow_counters (accounts tc) \<and> resize_delta (accounts tc') = resize_delta (accounts tc)"

definition growth_ok :: "transaction_context \<Rightarrow> bool" where
  "growth_ok tc \<longleftrightarrow> - (2 ^ 63) \<le> resize_delta (accounts tc) \<and> resize_delta (accounts tc) \<le> MAX_ACCOUNT_DATA_GROWTH_PER_TRANSACTION"

definition lengths_ok :: "serialization_interface \<Rightarrow> account_entry list \<Rightarrow> bool" where
  "lengths_ok si es \<longleftrightarrow> (\<forall>e \<in> set es. length (entry_data e) \<le> MAX_ACCOUNT_DATA_LEN \<and> length (entry_data e) \<le> unat (MAX_PERMITTED_DATA_LENGTH si))"

text \<open>Writing back one account of the buffer, where \<open>enc\<close> encodes it, passes over its bytes and changes nothing.\<close>

definition restores :: "account_entry list \<Rightarrow> bytes \<Rightarrow> (instruction_account \<Rightarrow> bytes) \<Rightarrow>
    (nat \<Rightarrow> nat \<Rightarrow> borrowed_account \<Rightarrow> (transaction_context, nat) ix) \<Rightarrow> bool" where
  "restores es buffer enc single \<longleftrightarrow> (\<forall>t b pre rest. accounts_wf (accounts t) \<and> account_entries t = es \<and> guards_ok es b \<and> growth_ok t
      \<and> buffer = pre @ enc (ba_account b) @ rest \<longrightarrow>
    (\<exists>t'. single (length (entry_data (es ! ba_guard b))) (length pre + 1) b t = (Ok (length pre + length (enc (ba_account b))), t') \<and> kept t t'))"


section \<open>Lemmas\<close>

lemma serializer_slice_length: "ser_ok s \<Longrightarrow> length (as_slice (sz_buffer s)) = al_length (sz_buffer s)"
  by (simp add: ser_ok_def as_slice_def capacity_def)

lemma writes_ret: "Q a \<Longrightarrow> writes es fl [] Q (ret a)"
  by (simp add: writes_def ret_def)

lemma writes_run:
  assumes "writes es fl bs Q m" "\<And>st a st'. m st = (Ok a, st') \<Longrightarrow> n st = (Ok a, st')"
  shows "writes es fl bs Q n"
  unfolding writes_def
proof (intro allI impI)
  fix s tc
  assume "ser_ok s \<and> ser_flags s = fl \<and> account_entries tc = es \<and> accounts_wf (accounts tc)
    \<and> al_length (sz_buffer s) + length bs \<le> capacity (sz_buffer s)"
  with assms(1) [unfolded writes_def, rule_format, of s tc] assms(2) [of "(s, tc)"]
  show "\<exists>a s' tc'. n (s, tc) = (Ok a, (s', tc')) \<and> Q a \<and> ser_ok s' \<and> ser_flags s' = fl \<and> account_entries tc' = es
      \<and> accounts_wf (accounts tc') \<and> capacity (sz_buffer s') = capacity (sz_buffer s)
      \<and> as_slice (sz_buffer s') = as_slice (sz_buffer s) @ bs"
    by blast
qed

lemma writes_weaken:
  assumes "writes es fl bs Q m" "\<And>a. Q a \<Longrightarrow> R a"
  shows "writes es fl bs R m"
  unfolding writes_def
proof (intro allI impI)
  fix s tc
  assume "ser_ok s \<and> ser_flags s = fl \<and> account_entries tc = es \<and> accounts_wf (accounts tc)
    \<and> al_length (sz_buffer s) + length bs \<le> capacity (sz_buffer s)"
  with assms(1) [unfolded writes_def, rule_format, of s tc] assms(2)
  show "\<exists>a s' tc'. m (s, tc) = (Ok a, (s', tc')) \<and> R a \<and> ser_ok s' \<and> ser_flags s' = fl \<and> account_entries tc' = es
      \<and> accounts_wf (accounts tc') \<and> capacity (sz_buffer s') = capacity (sz_buffer s)
      \<and> as_slice (sz_buffer s') = as_slice (sz_buffer s) @ bs"
    by blast
qed

lemma writes_return: "writes es fl [] (\<lambda>_. True) (ret a)"
  by (rule writes_ret) simp

lemma writes_bindM:
  assumes m: "writes es fl bs Q m" and f: "\<And>a. Q a \<Longrightarrow> writes es fl bs' R (f a)"
  shows "writes es fl (bs @ bs') R (bindM m f)"
  unfolding writes_def
proof (intro allI impI, elim conjE)
  fix s tc
  assume pre: "ser_ok s" "ser_flags s = fl" "account_entries tc = es" "accounts_wf (accounts tc)"
    "al_length (sz_buffer s) + length (bs @ bs') \<le> capacity (sz_buffer s)"
  obtain a s1 tc1 where one: "m (s, tc) = (Ok a, (s1, tc1))" "Q a" "ser_ok s1" "ser_flags s1 = fl" "account_entries tc1 = es" "accounts_wf (accounts tc1)" "capacity (sz_buffer s1) = capacity (sz_buffer s)"
      "as_slice (sz_buffer s1) = as_slice (sz_buffer s) @ bs"
    using m pre unfolding writes_def by fastforce
  have "al_length (sz_buffer s1) + length bs' \<le> capacity (sz_buffer s1)"
    using serializer_slice_length [OF one(3)] serializer_slice_length [OF pre(1)] one(7,8) pre(5) by simp
  with f [OF one(2)] one obtain c s2 tc2 where two: "f a (s1, tc1) = (Ok c, (s2, tc2))" "R c" "ser_ok s2" "ser_flags s2 = fl" "account_entries tc2 = es" "accounts_wf (accounts tc2)" "capacity (sz_buffer s2) = capacity (sz_buffer s1)"
      "as_slice (sz_buffer s2) = as_slice (sz_buffer s1) @ bs'"
    unfolding writes_def by blast
  then show "\<exists>a s' tc'. bindM m f (s, tc) = (Ok a, (s', tc')) \<and> R a \<and> ser_ok s' \<and> ser_flags s' = fl \<and> account_entries tc' = es  \<and> accounts_wf (accounts tc') \<and> capacity (sz_buffer s') = capacity (sz_buffer s)
      \<and> as_slice (sz_buffer s') = as_slice (sz_buffer s) @ bs @ bs'"
    using one by (simp add: bindM_def)
qed

lemma writes_seqM: "writes es fl bs Q m \<Longrightarrow> writes es fl bs' R n \<Longrightarrow> writes es fl (bs @ bs') R (seqM m n)"
  unfolding seqM_def by (rule writes_bindM)

lemma writes_getsM: "(\<And>s tc. ser_ok s \<Longrightarrow> ser_flags s = fl \<Longrightarrow> account_entries tc = es \<Longrightarrow> accounts_wf (accounts tc) \<Longrightarrow> Q (f (s, tc)))
    \<Longrightarrow> writes es fl [] Q (getsM f)"
  by (simp add: writes_def getsM_def)

lemma writes_liftR: "(\<And>s tc. ser_ok s \<Longrightarrow> ser_flags s = fl \<Longrightarrow> account_entries tc = es \<Longrightarrow> accounts_wf (accounts tc) \<Longrightarrow> f (s, tc) = Ok a)
    \<Longrightarrow> Q a \<Longrightarrow> writes es fl [] Q (liftR f)"
  by (simp add: writes_def liftR_def)

lemma overwrite_end: "n + length bs \<le> length block \<Longrightarrow> take (n + length bs) (overwrite n bs block) = take n block @ bs"
  by (simp add: overwrite_def)

lemma writes_all: "writes es fl bs (\<lambda>_. True) (on_serializer (ser_write_all bs))"
  by (auto simp: writes_def on_serializer_def ser_write_all_def write_all_unchecked_def Let_def ser_ok_def ser_flags_def capacity_def
      as_slice_def overwrite_end)

lemma writes_fill: "writes es fl (replicate n v) (\<lambda>_. True) (on_serializer (ser_fill_write n v))"
  using overwrite_end [where bs = "replicate n v"] overwrite_length [where bs = "replicate n v"]
  by (auto simp: writes_def on_serializer_def ser_fill_write_def fill_write_def write_ptr_for_def Let_def ser_ok_def ser_flags_def capacity_def
      as_slice_def)

lemma writes_u8: "writes es fl [v] (\<lambda>_. True) (on_serializer (ser_write_u8 v))"
  and writes_u64: "writes es fl (le_bytes 8 w) (\<lambda>_. True) (on_serializer (ser_write_u64 w))"
  unfolding ser_write_u8_def ser_write_u64_def by (rule writes_all)+

lemma writes_push: "writes es fl [] (\<lambda>_. True) (on_serializer (push_region hl))"
  by (auto simp: writes_def on_serializer_def push_region_def Let_def ser_ok_def ser_flags_def)

lemma entries_get:
  assumes e: "account_entries tc = es" "accounts_wf (accounts tc)" and g: "guards_ok es b" "es ! ba_guard b = (key, balance, own, bs, exec)"
  shows "get_data b tc = bs" "get_lamports b tc = balance" "get_owner b tc = own" "get_key b tc = Ok key" "acc_executable (private_of b tc) = exec"
    "borrowed_ok b tc"
proof -
  have len: "length es = accounts_len (accounts tc)" using e by (auto simp: account_entries_def accounts_wf_def accounts_len_def)
  then have n: "ba_guard b < accounts_len (accounts tc)" using g by (simp add: guards_ok_def)
  then have "es ! ba_guard b = entry_of (shared_account_fields (accounts tc) ! ba_guard b) (private_account_fields (accounts tc) ! ba_guard b)"
    using e by (auto simp: account_entries_def accounts_wf_def accounts_len_def)
  then show "get_data b tc = bs" "get_lamports b tc = balance" "get_owner b tc = own" "get_key b tc = Ok key" "acc_executable (private_of b tc) = exec"
    "borrowed_ok b tc"
    using n g by (auto simp: entry_of_def guards_ok_def get_data_def get_lamports_def get_owner_def get_key_def shared_of_def private_of_def
      accounts_len_def borrowed_ok_def account_key_def get_at_def unwrap_def ok_or_def)
qed

lemma writes_cong: "writes es fl bs Q m \<Longrightarrow> bs = bs' \<Longrightarrow> writes es fl bs' Q m"
  by simp

lemma writes_get:
  "(\<And>s tc. ser_ok s \<Longrightarrow> ser_flags s = fl \<Longrightarrow> account_entries tc = es \<Longrightarrow> accounts_wf (accounts tc) \<Longrightarrow> f (s, tc) = v)
    \<Longrightarrow> writes es fl bs R (k v) \<Longrightarrow> writes es fl bs R (bindM (getsM f) k)"
  by (simp add: writes_def bindM_def getsM_def)

lemma writes_lift:
  "(\<And>s tc. account_entries tc = es \<Longrightarrow> accounts_wf (accounts tc) \<Longrightarrow> f (s, tc) = Ok v)
    \<Longrightarrow> writes es fl bs R (k v) \<Longrightarrow> writes es fl bs R (bindM (liftR f) k)"
  by (simp add: writes_def bindM_def liftR_def)

lemma writes_inline:
  assumes "guards_ok es b" "es ! ba_guard b = (key, balance, own, bs, exec)" "fl = (v1, False, dm)"
  shows "writes es fl (data_bytes si fl bs) (\<lambda>_. True) (write_account_inline si b)"
  unfolding write_account_inline_def
proof (rule writes_cong, rule writes_bindM [where Q = "\<lambda>(_, d, v). d = bs \<and> v = v1" and R = "\<lambda>_. True"])
  show "writes es fl [] (\<lambda>(_, d, v). d = bs \<and> v = v1)
      (getsM (\<lambda>(s, tc). (saturating_add (sz_vaddr s) (word_of_nat (al_length (sz_buffer s))), get_data b tc, sz_is_loader_v1 s)))"
    by (rule writes_getsM) (use entries_get(1) [OF _ _ assms(1,2)] assms(3) in \<open>auto simp: ser_flags_def\<close>)
next
  fix a :: "u64 \<times> bytes \<times> bool"
  assume a: "case a of (_, d, v) \<Rightarrow> d = bs \<and> v = v1"
  show "writes es fl (data_bytes si fl bs) (\<lambda>_. True) ((\<lambda>(vm_data_addr, bs, v1).
        seqM (on_serializer (ser_write_all bs)) (
        seqM (if v1 then ret ()
              else on_serializer (ser_fill_write (MAX_PERMITTED_DATA_INCREASE si + usize_align_offset (length bs) (BPF_ALIGN_OF_U128 si)) 0))
          (ret vm_data_addr))) a)"
  proof (cases v1)
    case True
    then show ?thesis using a by (auto simp: data_bytes_def assms(3) split: prod.splits
        intro!: writes_cong [OF writes_seqM [OF writes_all writes_seqM [OF writes_ret writes_ret]]])
  next
    case False
    then show ?thesis using a by (auto simp: data_bytes_def assms(3) split: prod.splits
        intro!: writes_cong [OF writes_seqM [OF writes_all writes_seqM [OF writes_fill writes_ret]]])
  qed
qed simp

lemma write_entries:
  assumes "accounts_wf (accounts tc)" "borrowed_ok b tc" "entry_of a p = entry_of (shared_of b tc) (private_of b tc)"
  shows "account_entries (account_write b a p lam res tc) = account_entries tc"
proof -
  have "account_entries (account_write b a p lam res tc) = (account_entries tc)[ba_guard b := entry_of a p]"
    using assms(1,2) by (simp add: account_entries_def account_write_def Let_def zip_update map_update)
  also have "\<dots> = account_entries tc"
    using assms by (intro nth_equalityI)
      (auto simp: nth_list_update account_entries_def shared_of_def private_of_def accounts_wf_def accounts_len_def borrowed_ok_def)
  finally show ?thesis .
qed

lemma create_region_runs:
  assumes wf: "accounts_wf (accounts tc)" "borrowed_ok b tc"
  shows "\<exists>region tc'. create_memory_region_of_account hl b vaddr tc = (Ok region, tc')
    \<and> account_entries tc' = account_entries tc \<and> accounts_wf (accounts tc')"
proof (cases "can_data_be_changed b tc = Ok () \<and> \<not> view_is_shared (accounts tc) (ba_guard b)")
  case False
  then show ?thesis using wf
    by (cases "can_data_be_changed b tc") (auto simp: create_memory_region_of_account_def Let_def is_ok_def)
next
  case True
  let ?tc = "account_write b (shared_of b tc) ((private_of b tc)\<lparr>acc_payload := get_data b tc, acc_payload_shared := False\<rparr>)
        (lamports_delta (accounts tc)) (resize_delta (accounts tc)) tc"
  have "account_entries ?tc = account_entries tc"
    by (rule write_entries [OF wf]) (simp add: entry_of_def get_data_def)
  moreover have "accounts_wf (accounts ?tc)"
    by (rule write_wf [OF wf]) (use wf in \<open>simp add: accounts_wf_def borrowed_ok_def shared_of_def get_data_def private_of_def payload_len_def\<close>)
  moreover have "\<exists>region. create_memory_region_of_account hl b vaddr tc = (Ok region, ?tc)"
    using True by (auto simp: create_memory_region_of_account_def Let_def is_ok_def bindM_def get_data_mut_eq [OF wf])
  ultimately show ?thesis by blast
qed

lemma region_keeps:
  assumes "accounts_wf (accounts tc)" "borrowed_ok b tc" "account_data_direct_mapping s"
  shows "\<exists>s' tc'. write_account_region si hl b bs (s, tc) = (Ok (), (s', tc')) \<and> sz_buffer s' = sz_buffer s
    \<and> sz_region_start s' = sz_region_start s \<and> ser_flags s' = ser_flags s \<and> account_entries tc' = account_entries tc
    \<and> accounts_wf (accounts tc')"
proof -
  obtain region tc' where r: "create_memory_region_of_account hl b (sz_vaddr s) tc = (Ok region, tc')"
      "account_entries tc' = account_entries tc" "accounts_wf (accounts tc')"
    using create_region_runs [OF assms(1,2), of hl "sz_vaddr s"] by blast
  then show ?thesis
    using assms by (simp add: write_account_region_def Let_def bindM_def getsM_def ret_def on_context_def modifyM_def ser_flags_def)
qed

lemma writes_region:
  assumes "fl = (v1, va, False)"
  shows "writes es fl [] (\<lambda>_. True) (write_account_region si hl b bs)"
  using assms
  by (auto simp: writes_def write_account_region_def Let_def bindM_def seqM_def getsM_def ret_def on_serializer_def modifyM_def push_region_def
      ser_ok_def ser_flags_def)

lemma writes_mapped_copy:
  assumes g: "guards_ok es b" "es ! ba_guard b = (key, balance, own, bs, exec)" and fl: "fl = (v1, va, False)"
  shows "writes es fl (data_bytes si fl bs) (\<lambda>_. True) (write_account_mapped si hl b)"
  unfolding write_account_mapped_def
proof (rule writes_cong, rule writes_seqM [OF writes_push],
    rule writes_bindM [where Q = "\<lambda>(s, d). ser_flags s = fl \<and> d = bs" and R = "\<lambda>_. True"])
  show "writes es fl [] (\<lambda>(s, d). ser_flags s = fl \<and> d = bs) (getsM (\<lambda>(s, tc). (s, get_data b tc)))"
    by (rule writes_getsM) (use entries_get(1) [OF _ _ g] in auto)
next
  fix a :: "serializer \<times> bytes"
  assume "case a of (s, d) \<Rightarrow> ser_flags s = fl \<and> d = bs"
  then obtain s where a: "a = (s, bs)" "sz_is_loader_v1 s = v1" "\<not> account_data_direct_mapping s"
    by (auto simp: fl ser_flags_def)
  let ?inc = "MAX_PERMITTED_DATA_INCREASE si" and ?align = "usize_align_offset (length bs) (BPF_ALIGN_OF_U128 si)"
  note region = writes_region [OF fl, of es si hl b bs]
  show "writes es fl (data_bytes si fl bs) (\<lambda>_. True) ((\<lambda>(s, bs).
      let vm_data_addr = sz_vaddr s; v1 = sz_is_loader_v1 s; dm = account_data_direct_mapping s;
          align = usize_align_offset (length bs) (BPF_ALIGN_OF_U128 si)
      in
      seqM (if dm then ret ()
            else seqM (on_serializer (ser_write_all bs))
                   (if v1 then ret () else on_serializer (ser_fill_write (MAX_PERMITTED_DATA_INCREASE si) 0))) (
      seqM (write_account_region si hl b bs) (
      seqM (if v1 then ret ()
            else if \<not> dm then on_serializer (ser_fill_write align 0)
            else seqM (on_serializer (ser_fill_write (BPF_ALIGN_OF_U128 si) 0))
                   (modifyM (\<lambda>(s, tc). (s\<lparr>sz_region_start := sz_region_start s + (BPF_ALIGN_OF_U128 si - align)\<rparr>, tc))))
        (ret vm_data_addr)))) a)"
  proof (cases v1)
    case True
    show ?thesis
      by (simp add: a True Let_def, rule writes_cong, (rule writes_seqM writes_all writes_return region)+) (simp add: data_bytes_def fl True)
  next
    case False
    show ?thesis
      by (simp add: a False Let_def, rule writes_cong, (rule writes_seqM writes_all writes_fill writes_return region)+)
        (simp add: data_bytes_def fl False replicate_add)
  qed
qed simp

lemma fill_step:
  assumes "ser_ok s" "al_length (sz_buffer s) + n \<le> capacity (sz_buffer s)"
  shows "\<exists>s'. ser_fill_write n v s = (Ok (), s') \<and> al_length (sz_buffer s') = al_length (sz_buffer s) + n \<and> ser_ok s'
    \<and> sz_region_start s' = sz_region_start s \<and> ser_flags s' = ser_flags s \<and> capacity (sz_buffer s') = capacity (sz_buffer s)
    \<and> as_slice (sz_buffer s') = as_slice (sz_buffer s) @ replicate n v"
  using assms overwrite_end [where bs = "replicate n v"] overwrite_length [where bs = "replicate n v"]
  by (auto simp: ser_fill_write_def fill_write_def write_ptr_for_def Let_def ser_ok_def ser_flags_def capacity_def as_slice_def)

lemma writes_mapped_direct:
  assumes g: "guards_ok es b" "es ! ba_guard b = (key, balance, own, bs, exec)" and fl: "fl = (v1, True, True)"
  shows "writes es fl (data_bytes si fl bs) (\<lambda>_. True) (write_account_mapped si hl b)"
  unfolding writes_def
proof (intro allI impI, elim conjE)
  fix s tc
  assume pre: "ser_ok s" "ser_flags s = fl" "account_entries tc = es" "accounts_wf (accounts tc)"
    "al_length (sz_buffer s) + length (data_bytes si fl bs) \<le> capacity (sz_buffer s)"
  note get = entries_get [OF pre(3,4) g]
  define s1 where "s1 = snd (push_region hl s)"
  have s1: "push_region hl s = (Ok (), s1)" "sz_buffer s1 = sz_buffer s" "sz_region_start s1 = al_length (sz_buffer s)" "ser_flags s1 = fl"
      "account_data_direct_mapping s1" "sz_is_loader_v1 s1 = v1"
    using pre(1,2) fl by (auto simp: s1_def push_region_def Let_def ser_ok_def ser_flags_def)
  obtain s2 tc2 where s2: "write_account_region si hl b bs (s1, tc) = (Ok (), (s2, tc2))" "sz_buffer s2 = sz_buffer s1"
      "sz_region_start s2 = sz_region_start s1" "ser_flags s2 = fl" "account_entries tc2 = es" "accounts_wf (accounts tc2)"
    using region_keeps [OF pre(4) get(6) s1(5), of si hl bs] pre(3) s1(4) by metis
  have ok2: "ser_ok s2" using pre(1) s1 s2 by (simp add: ser_ok_def)
  show "\<exists>a s' tc'. write_account_mapped si hl b (s, tc) = (Ok a, (s', tc')) \<and> True \<and> ser_ok s' \<and> ser_flags s' = fl
      \<and> account_entries tc' = es \<and> accounts_wf (accounts tc') \<and> capacity (sz_buffer s') = capacity (sz_buffer s)
      \<and> as_slice (sz_buffer s') = as_slice (sz_buffer s) @ data_bytes si fl bs"
  proof (cases v1)
    case True
    then show ?thesis using pre s1 s2 ok2 get(1)
      by (simp add: write_account_mapped_def seqM_def bindM_def getsM_def ret_def on_serializer_def Let_def data_bytes_def fl)
  next
    case False
    have "al_length (sz_buffer s2) + BPF_ALIGN_OF_U128 si \<le> capacity (sz_buffer s2)"
      using pre(5) False s1(2) s2(2) by (simp add: data_bytes_def fl)
    note f = fill_step [OF ok2 this, of 0]
    then obtain s3 where s3: "ser_fill_write (BPF_ALIGN_OF_U128 si) 0 s2 = (Ok (), s3)"
        "al_length (sz_buffer s3) = al_length (sz_buffer s2) + BPF_ALIGN_OF_U128 si" "ser_ok s3" "sz_region_start s3 = sz_region_start s2"
        "ser_flags s3 = fl" "capacity (sz_buffer s3) = capacity (sz_buffer s2)"
        "as_slice (sz_buffer s3) = as_slice (sz_buffer s2) @ replicate (BPF_ALIGN_OF_U128 si) 0"
      using s2(4) by auto
    show ?thesis using False pre s1 s2 s3 get(1)
      by (simp add: write_account_mapped_def seqM_def bindM_def getsM_def ret_def on_serializer_def modifyM_def Let_def data_bytes_def fl
          ser_ok_def ser_flags_def)
  qed
qed

lemma writes_account:
  assumes g: "guards_ok es b" "es ! ba_guard b = (key, balance, own, bs, exec)"
  shows "writes es fl (data_bytes si fl bs) (\<lambda>_. True) (write_account si hl b)"
proof -
  obtain v1 va dm where fl: "fl = (v1, va, dm)" by (cases fl)
  have "writes es fl (data_bytes si fl bs) (\<lambda>_. True) (if \<not> va then write_account_inline si b else write_account_mapped si hl b)"
    using writes_inline [OF g] writes_mapped_copy [OF g] writes_mapped_direct [OF g] by (cases va; cases dm) (simp_all add: fl)
  then show ?thesis
    unfolding write_account_def by (auto simp: writes_def bindM_def getsM_def fl ser_flags_def)
qed

lemma guards_ok_guard: "guards_ok es b \<Longrightarrow> ba_guard b = unat (index_in_transaction (ba_account b))"
  by (simp add: guards_ok_def)

lemma writes_account_v1:
  assumes g: "guards_ok es b"
  shows "writes es (False, va, dm) (encode_v1 si va dm es (ba_account b)) (\<lambda>meta. original_data_len meta = length (entry_data (es ! ba_guard b)))
    (serialize_account_v1 si hl b)"
proof -
  obtain key balance own bs exec where e: "es ! ba_guard b = (key, balance, own, bs, exec)" by (cases "es ! ba_guard b")
  note get = entries_get [OF _ _ g e]
  show ?thesis
    unfolding serialize_account_v1_def
    apply (rule writes_cong)
     apply (rule writes_seqM [OF writes_u8] writes_seqM [OF writes_u64] writes_seqM [OF writes_all] writes_bindM [OF writes_all]
        writes_bindM [OF writes_u64] writes_bindM [OF writes_account [OF g e]]
        | rule writes_get [where v = "exec"] writes_get [where v = "(own, balance, length bs)"] writes_get [where v = "length bs"]
            writes_lift [where v = key], simp add: get
        | simp only: prod.case)+
     apply (rule writes_ret)
     apply (simp add: e entry_data_def)
    apply (use g in \<open>simp add: encode_v1_def e [unfolded guards_ok_guard [OF g]]\<close>)
    done
qed

lemma writes_account_v0:
  assumes g: "guards_ok es b"
  shows "writes es (True, va, dm) (encode_v0 si va dm es (ba_account b)) (\<lambda>meta. original_data_len meta = length (entry_data (es ! ba_guard b)))
    (serialize_account_v0 si hl b)"
proof -
  obtain key balance own bs exec where e: "es ! ba_guard b = (key, balance, own, bs, exec)" by (cases "es ! ba_guard b")
  note get = entries_get [OF _ _ g e]
  show ?thesis
    unfolding serialize_account_v0_def
    apply (rule writes_cong)
     apply (rule writes_seqM [OF writes_u8] writes_seqM [OF writes_u64] writes_seqM [OF writes_all] writes_bindM [OF writes_all]
        writes_bindM [OF writes_u64] writes_bindM [OF writes_account [OF g e]]
        | rule writes_get [where v = "(own, exec, length bs)"] writes_get [where v = "length bs"] writes_get [where v = balance]
            writes_lift [where v = key], simp add: get
        | simp only: prod.case)+
     apply (rule writes_ret)
     apply (simp add: e entry_data_def)
    apply (use g in \<open>simp add: encode_v0_def e [unfolded guards_ok_guard [OF g]]\<close>)
    done
qed

lemma drop_entries:
  assumes "accounts_wf (accounts tc)"
  shows "account_entries (drop_serialized sa tc) = account_entries tc" "accounts_wf (accounts (drop_serialized sa tc))"
proof -
  have "account_entries (drop_borrowed b tc) = account_entries tc" for b
    by (auto simp: drop_borrowed_def modify_accounts_def drop_ref_mut_def set_slice_len_def update_shared_def Let_def account_entries_def
        nth_update_any entry_of_def intro!: nth_equalityI)
  then show "account_entries (drop_serialized sa tc) = account_entries tc" "accounts_wf (accounts (drop_serialized sa tc))"
    using drop_frame(1) [OF assms] assms by (simp_all add: drop_serialized_def split: serialize_account.split)
qed

lemma writes_drop: "writes es fl bs R m \<Longrightarrow> writes es fl bs R (\<lambda>(s, tc). m (s, drop_serialized sa tc))"
  unfolding writes_def using drop_entries by simp

lemma writes_accounts:
  assumes single: "\<And>b. guards_ok es b \<Longrightarrow>
      writes es fl (enc (ba_account b)) (\<lambda>meta. original_data_len meta = length (entry_data (es ! ba_guard b))) (single b)"
    and ok: "collected_ok es (length metas) sas"
  shows "writes es fl (concat (map (encode_one enc padding) sas)) (\<lambda>ms. \<exists>new. ms = metas @ new \<and> list_all2 (length_recorded es) sas new)
    (serialize_accounts single padding metas sas)"
  using ok
proof (induction sas arbitrary: metas)
  case Nil
  then show ?case by (simp add: writes_def)
next
  case (Cons sa rest)
  let ?Q = "length_recorded es sa"
  have one: "writes es fl (encode_one enc padding sa) ?Q (serialize_one single padding metas sa)"
  proof (cases sa)
    case (Ser_account i b)
    then show ?thesis using Cons.prems single by (simp add: serialize_one_def encode_one_def length_recorded_def [abs_def])
  next
    case (Ser_duplicate pos)
    then have "unwrap (get_at metas (unat pos)) = (Ok (metas ! unat pos) :: (_, instruction_error failure) result)"
      using Cons.prems by (simp add: get_at_def unwrap_def ok_or_def)
    then show ?thesis
      unfolding Ser_duplicate serialize_one_def serialize_account.case
      by (intro writes_lift [where v = "metas ! unat pos"])
        (assumption, rule writes_cong, rule writes_seqM [OF writes_u8], rule writes_seqM [where bs = padding and Q = "\<lambda>_. True"],
          auto simp: writes_return encode_one_def length_recorded_def intro: writes_all writes_ret)
  qed
  have rest: "writes es fl (concat (map (encode_one enc padding) rest))
      (\<lambda>ms. \<exists>new. ms = metas @ new \<and> list_all2 (length_recorded es) (sa # rest) new)
      (\<lambda>(s, tc). serialize_accounts single padding (metas @ [meta]) rest (s, drop_serialized sa tc))" if "?Q meta" for meta
  proof (rule writes_drop)
    show "writes es fl (concat (map (encode_one enc padding) rest))
      (\<lambda>ms. \<exists>new. ms = metas @ new \<and> list_all2 (length_recorded es) (sa # rest) new) (serialize_accounts single padding (metas @ [meta]) rest)"
      by (rule writes_weaken [OF Cons.IH]) (use Cons.prems that in auto)
  qed
  have "writes es fl (encode_one enc padding sa @ concat (map (encode_one enc padding) rest))
      (\<lambda>ms. \<exists>new. ms = metas @ new \<and> list_all2 (length_recorded es) (sa # rest) new)
      (bindM (serialize_one single padding metas sa)
        (\<lambda>meta (s, tc). serialize_accounts single padding (metas @ [meta]) rest (s, drop_serialized sa tc)))"
    by (rule writes_bindM [OF one rest])
  then show ?case
    unfolding list.map concat.simps by (rule writes_run) (auto simp: bindM_def split: result.splits prod.splits)
qed

lemma entry_of_guard:
  assumes "guards_ok es b" "keys_sized es"
  obtains key balance own bs exec where "es ! ba_guard b = (key, balance, own, bs, exec)" "length key = 32" "length own = 32"
proof -
  have "es ! ba_guard b \<in> set es" using assms(1) by (simp add: guards_ok_def)
  from assms(2) [unfolded keys_sized_def, THEN bspec, OF this] show thesis
    using that by (auto split: prod.splits)
qed

lemma encoded_length:
  assumes "\<And>b. guards_ok es b \<Longrightarrow> length (enc (ba_account b)) = 1 + f b" and "collected_ok es n sas" and "length padding = p"
  shows "length (concat (map (encode_one enc padding) sas)) = (\<Sum>sa\<leftarrow>sas. 1 + (case sa of Ser_duplicate _ \<Rightarrow> p | Ser_account _ b \<Rightarrow> f b))"
  using assms(2)
proof (induction sas arbitrary: n)
  case (Cons sa sas)
  then show ?case using assms(1,3) by (cases sa) (auto simp: encode_one_def)
qed simp

lemma size_v0:
  assumes "accounts_wf (accounts tc)" "keys_sized (account_entries tc)" "collected_ok (account_entries tc) n sas" "length pid = 32"
  shows "size_for_abiv0 va dm tc sas ix_bytes = length (input_v0 si va dm (account_entries tc) sas ix_bytes pid)"
proof -
  let ?es = "account_entries tc"
  have one: "length (encode_v0 si va dm ?es (ba_account b)) = 1 + (1 + 1 + 32 + 8 + 8 + 32 + 1 + 8 + (if va \<and> dm then 0 else length (get_data b tc)))"
    if g: "guards_ok ?es b" for b
  proof -
    obtain key balance own bs exec where e: "?es ! ba_guard b = (key, balance, own, bs, exec)" "length key = 32" "length own = 32"
      by (rule entry_of_guard [OF g assms(2)])
    then show ?thesis using entries_get(1) [OF refl assms(1) g e(1)] by (simp add: encode_v0_def e(1) [unfolded guards_ok_guard [OF g]] data_bytes_def)
  qed
  have "length (concat (map (encode_one (encode_v0 si va dm ?es) []) sas)) = (\<Sum>sa\<leftarrow>sas. 1 + (case sa of
           Ser_duplicate _ \<Rightarrow> 0
         | Ser_account _ b \<Rightarrow> 1 + 1 + 32 + 8 + 8 + 32 + 1 + 8 + (if va \<and> dm then 0 else length (get_data b tc))))"
    by (rule encoded_length [where enc = "encode_v0 si va dm ?es", OF one assms(3)]) simp_all
  then show ?thesis using assms(4) by (simp add: size_for_abiv0_def input_v0_def)
qed

lemma size_v1:
  assumes "accounts_wf (accounts tc)" "keys_sized (account_entries tc)" "collected_ok (account_entries tc) n sas" "length pid = 32"
  shows "size_for_abiv1 si va dm tc sas ix_bytes = length (input_v1 si va dm (account_entries tc) sas ix_bytes pid)"
proof -
  let ?es = "account_entries tc"
  have one: "length (encode_v1 si va dm ?es (ba_account b)) = 1 + (1 + 1 + 1 + 4 + 32 + 32 + 8 + 8 + 8 +
             (let data_len = length (get_data b tc) in
              if va \<and> dm then BPF_ALIGN_OF_U128 si
              else data_len + MAX_PERMITTED_DATA_INCREASE si + usize_align_offset data_len (BPF_ALIGN_OF_U128 si)))"
    if g: "guards_ok ?es b" for b
  proof -
    obtain key balance own bs exec where e: "?es ! ba_guard b = (key, balance, own, bs, exec)" "length key = 32" "length own = 32"
      by (rule entry_of_guard [OF g assms(2)])
    then show ?thesis using entries_get(1) [OF refl assms(1) g e(1)] by (simp add: encode_v1_def e(1) [unfolded guards_ok_guard [OF g]] data_bytes_def Let_def)
  qed
  have "length (concat (map (encode_one (encode_v1 si va dm ?es) [0, 0, 0, 0, 0, 0, 0]) sas)) = (\<Sum>sa\<leftarrow>sas. 1 + (case sa of
           Ser_duplicate _ \<Rightarrow> 7
         | Ser_account _ b \<Rightarrow> 1 + 1 + 1 + 4 + 32 + 32 + 8 + 8 + 8 +
             (let data_len = length (get_data b tc) in
              if va \<and> dm then BPF_ALIGN_OF_U128 si
              else data_len + MAX_PERMITTED_DATA_INCREASE si + usize_align_offset data_len (BPF_ALIGN_OF_U128 si))))"
    by (rule encoded_length [where enc = "encode_v1 si va dm ?es", OF one assms(3)]) simp_all
  then show ?thesis using assms(4) by (simp add: size_for_abiv1_def input_v1_def)
qed

text \<open>The part of the input that both layouts share, run on a fresh buffer.\<close>

lemma writes_input:
  assumes "\<And>b. guards_ok es b \<Longrightarrow>
      writes es fl (enc (ba_account b)) (\<lambda>meta. original_data_len meta = length (entry_data (es ! ba_guard b))) (single b)"
    and "collected_ok es 0 sas"
  shows "writes es fl (le_bytes 8 (word_of_nat (length sas)) @ concat (map (encode_one enc padding) sas)
      @ le_bytes 8 (word_of_nat (length ix_bytes)) @ ix_bytes @ pid) (\<lambda>(metas, offset). list_all2 (length_recorded es) sas metas)
    (seqM (on_serializer (ser_write_u64 (word_of_nat (length sas)))) (
     bindM (serialize_accounts single padding [] sas) (\<lambda>metas.
     seqM (on_serializer (ser_write_u64 (word_of_nat (length ix_bytes)))) (
     bindM (on_serializer (ser_write_all ix_bytes)) (\<lambda>offset.
     seqM (on_serializer (ser_write_all pid)) (ret (metas, offset)))))))"
proof (rule writes_seqM [OF writes_u64], rule writes_bindM [OF writes_accounts [where metas = "[]"]])
  show "writes es fl (le_bytes 8 (word_of_nat (length ix_bytes)) @ ix_bytes @ pid) (\<lambda>(metas, offset). list_all2 (length_recorded es) sas metas)
     (seqM (on_serializer (ser_write_u64 (word_of_nat (length ix_bytes)))) (
     bindM (on_serializer (ser_write_all ix_bytes)) (\<lambda>offset.
     seqM (on_serializer (ser_write_all pid)) (ret (metas, offset)))))"
    if "\<exists>new. metas = [] @ new \<and> list_all2 (length_recorded es) sas new" for metas
    by (rule writes_cong, rule writes_seqM [OF writes_u64], rule writes_bindM [OF writes_all], rule writes_seqM [OF writes_all], rule writes_ret)
      (use that in auto)
qed (use assms in simp_all)

lemma fills_fresh:
  assumes w: "writes (account_entries tc) (v1, va, dm) bs Q m" and wf: "accounts_wf (accounts tc)"
    and fresh: "length (fresh n) = n" "length bs \<le> n"
  shows "\<exists>a s' tc'. m (serializer_new fresh n start v1 va dm, tc) = (Ok a, (s', tc')) \<and> Q a \<and> ser_ok s' \<and> ser_flags s' = (v1, va, dm)
    \<and> account_entries tc' = account_entries tc \<and> accounts_wf (accounts tc') \<and> capacity (sz_buffer s') = n \<and> as_slice (sz_buffer s') = bs"
proof -
  let ?s = "serializer_new fresh n start v1 va dm"
  have "ser_ok ?s" "ser_flags ?s = (v1, va, dm)" "capacity (sz_buffer ?s) = n" "as_slice (sz_buffer ?s) = []" "al_length (sz_buffer ?s) = 0"
    using fresh by (simp_all add: ser_ok_def ser_flags_def serializer_new_def capacity_def as_slice_def with_capacity_def aligned_vec_new_def)
  with w [unfolded writes_def, rule_format, of ?s tc] wf fresh(2) show ?thesis by simp
qed

lemma finish_runs:
  assumes "ser_ok s"
  shows "\<exists>regions s'. bindM (on_serializer (ser_finish hl)) (\<lambda>(mem, regions). ret (mem, regions, metas, k)) (s, tc)
    = (Ok (sz_buffer s, regions, metas, k), (s', tc))"
  using assms by (auto simp: bindM_def ret_def on_serializer_def ser_finish_def seqM_def push_region_def getsM_def Let_def ser_ok_def)

lemma bindM_assoc: "bindM (bindM m f) g = bindM m (\<lambda>a. bindM (f a) g)"
  by (auto simp: bindM_def fun_eq_iff split: prod.split result.split)

lemma ret_bindM: "bindM (ret a) f = f a"
  by (simp add: bindM_def ret_def fun_eq_iff)

lemma run_bindM: "m st = (Ok a, st') \<Longrightarrow> bindM m f st = f a st'"
  and run_seqM: "m st = (Ok a, st') \<Longrightarrow> seqM m n st = n st'"
  by (simp_all add: bindM_def seqM_def)

lemma abiv0_fills:
  assumes wf: "accounts_wf (accounts tc)" "keys_sized (account_entries tc)" "collected_ok (account_entries tc) 0 sas" "length pid = 32"
    and fresh: "\<And>n. length (fresh n) = n"
  shows "\<exists>mem regions metas offset tc'. serialize_parameters_for_abiv0 si hl fresh va dm sas ix_bytes pid tc = (Ok (mem, regions, metas, offset), tc')
    \<and> as_slice mem = input_v0 si va dm (account_entries tc) sas ix_bytes pid \<and> capacity mem = length (as_slice mem)
    \<and> list_all2 (length_recorded (account_entries tc)) sas metas \<and> account_entries tc' = account_entries tc \<and> accounts_wf (accounts tc')"
proof -
  let ?es = "account_entries tc" and ?in = "input_v0 si va dm (account_entries tc) sas ix_bytes pid"
  let ?s = "serializer_new fresh (length ?in) MM_INPUT_START True va dm"
  have w: "writes ?es (True, va, dm) ?in (\<lambda>(metas, offset). list_all2 (length_recorded ?es) sas metas)
    (seqM (on_serializer (ser_write_u64 (word_of_nat (length sas)))) (
     bindM (serialize_accounts (serialize_account_v0 si hl) [] [] sas) (\<lambda>metas.
     seqM (on_serializer (ser_write_u64 (word_of_nat (length ix_bytes)))) (
     bindM (on_serializer (ser_write_all ix_bytes)) (\<lambda>offset.
     seqM (on_serializer (ser_write_all pid)) (ret (metas, offset)))))))" (is "writes _ _ _ _ ?m")
    unfolding input_v0_def by (rule writes_input [OF writes_account_v0 wf(3)])
  obtain metas offset s' tc' where run: "?m (?s, tc) = (Ok (metas, offset), (s', tc'))"
      "list_all2 (length_recorded ?es) sas metas" "ser_ok s'"
      "account_entries tc' = ?es" "accounts_wf (accounts tc')" "capacity (sz_buffer s') = length ?in" "as_slice (sz_buffer s') = ?in"
    using fills_fresh [where fresh = fresh and start = MM_INPUT_START, OF w wf(1) fresh order.refl] by auto
  obtain regions s2 where fin: "bindM (on_serializer (ser_finish hl)) (\<lambda>(mem, regions). ret (mem, regions, metas, unat offset)) (s', tc')
      = (Ok (sz_buffer s', regions, metas, unat offset), (s2, tc'))"
    using finish_runs [where hl = hl and metas = metas and k = "unat offset" and tc = tc', OF run(3)] by blast
  have "serialize_parameters_for_abiv0 si hl fresh va dm sas ix_bytes pid tc
      = (let (r, s, tc) = bindM ?m (\<lambda>(metas, offset). bindM (on_serializer (ser_finish hl)) (\<lambda>(mem, regions). ret (mem, regions, metas, unat offset)))
           (?s, tc) in (r, tc))"
    unfolding serialize_parameters_for_abiv0_def size_v0 [OF wf, where si = si and va = va and dm = dm and ix_bytes = ix_bytes]
    by (simp add: Let_def seqM_def bindM_assoc ret_bindM)
  also have "\<dots> = (Ok (sz_buffer s', regions, metas, unat offset), tc')"
    by (simp add: run_bindM [where m = ?m, OF run(1)] fin)
  finally show ?thesis using run by auto
qed

lemma writes_pointers:
  "writes es fl (case offset of None \<Rightarrow> [] | Some padding \<Rightarrow> replicate padding 0 @ concat (map (le_bytes 8 \<circ> vm_data_addr) metas)) (\<lambda>_. True)
     (write_account_pointers offset metas)"
proof (cases offset)
  case (Some padding)
  have "writes es fl (concat (map (le_bytes 8 \<circ> vm_data_addr) metas)) (\<lambda>_. True)
      (foldr (\<lambda>meta rest. seqM (on_serializer (ser_write_u64 (vm_data_addr meta))) rest) metas (ret ()))"
    by (induction metas) (auto intro: writes_return writes_seqM [OF writes_u64])
  then show ?thesis by (simp add: write_account_pointers_def Some writes_seqM [OF writes_fill])
qed (simp add: write_account_pointers_def writes_return)

lemma pointer_bytes_length: "length (pointer_bytes si pointers n metas)
    = (if pointers then usize_align_offset n (BPF_ALIGN_OF_U128 si) + length metas * 8 else 0)"
  by (simp add: pointer_bytes_def length_concat o_def sum_list_triv)

lemma abiv1_fills:
  assumes wf: "accounts_wf (accounts tc)" "keys_sized (account_entries tc)" "collected_ok (account_entries tc) 0 sas" "length pid = 32"
    and fresh: "\<And>n. length (fresh n) = n"
  shows "\<exists>mem regions metas offset tc'. serialize_parameters_for_abiv1 si hl fresh va dm pointers sas ix_bytes pid tc = (Ok (mem, regions, metas, offset), tc')
    \<and> as_slice mem = input_v1 si va dm (account_entries tc) sas ix_bytes pid
        @ pointer_bytes si pointers (length (input_v1 si va dm (account_entries tc) sas ix_bytes pid)) metas
    \<and> capacity mem = length (as_slice mem)
    \<and> list_all2 (length_recorded (account_entries tc)) sas metas \<and> account_entries tc' = account_entries tc \<and> accounts_wf (accounts tc')"
proof -
  let ?es = "account_entries tc" and ?in = "input_v1 si va dm (account_entries tc) sas ix_bytes pid"
  define padding where "padding = (if pointers then Some (usize_align_offset (length ?in) (BPF_ALIGN_OF_U128 si)) else None)"
  define n where "n = (case padding of Some k \<Rightarrow> length ?in + k + length sas * 8 | None \<Rightarrow> length ?in)"
  let ?s = "serializer_new fresh n MM_INPUT_START False va dm"
  let ?fin = "\<lambda>(metas, offset). bindM (on_serializer (ser_finish hl)) (\<lambda>(mem, regions). ret (mem, regions, metas, unat offset))"
  have w: "writes ?es (False, va, dm) ?in (\<lambda>(metas, offset). list_all2 (length_recorded ?es) sas metas)
    (seqM (on_serializer (ser_write_u64 (word_of_nat (length sas)))) (
     bindM (serialize_accounts (serialize_account_v1 si hl) [0, 0, 0, 0, 0, 0, 0] [] sas) (\<lambda>metas.
     seqM (on_serializer (ser_write_u64 (word_of_nat (length ix_bytes)))) (
     bindM (on_serializer (ser_write_all ix_bytes)) (\<lambda>offset.
     seqM (on_serializer (ser_write_all pid)) (ret (metas, offset)))))))" (is "writes _ _ _ _ ?m")
    unfolding input_v1_def by (rule writes_input [OF writes_account_v1 wf(3)])
  have n: "length ?in \<le> n" by (simp add: n_def split: option.split)
  obtain metas offset s' tc' where run: "?m (?s, tc) = (Ok (metas, offset), (s', tc'))"
      "list_all2 (length_recorded ?es) sas metas" "ser_ok s'" "ser_flags s' = (False, va, dm)"
      "account_entries tc' = ?es" "accounts_wf (accounts tc')" "capacity (sz_buffer s') = n" "as_slice (sz_buffer s') = ?in"
    using fills_fresh [where fresh = fresh and start = MM_INPUT_START, OF w wf(1) fresh n] by auto
  let ?ptr = "pointer_bytes si pointers (length ?in) metas"
  have room: "length ?in + length ?ptr = n"
    using list_all2_lengthD [OF run(2)] by (simp add: pointer_bytes_length n_def padding_def)
  have p: "writes ?es (False, va, dm) ?ptr (\<lambda>_. True) (write_account_pointers padding metas)"
    using writes_pointers [where es = ?es and fl = "(False, va, dm)" and offset = padding and metas = metas] by (cases pointers) (simp_all add: padding_def pointer_bytes_def)
  obtain s2 tc2 where run2: "write_account_pointers padding metas (s', tc') = (Ok (), (s2, tc2))" "ser_ok s2" "account_entries tc2 = ?es"
      "accounts_wf (accounts tc2)" "capacity (sz_buffer s2) = n" "as_slice (sz_buffer s2) = ?in @ ?ptr"
    using p [unfolded writes_def, rule_format, of s' tc'] run room serializer_slice_length [OF run(3)] by auto
  obtain regions s3 where fin: "bindM (on_serializer (ser_finish hl)) (\<lambda>(mem, regions). ret (mem, regions, metas, unat offset)) (s2, tc2)
      = (Ok (sz_buffer s2, regions, metas, unat offset), (s3, tc2))"
    using finish_runs [where hl = hl and metas = metas and k = "unat offset" and tc = tc2, OF run2(2)] by blast
  have "serialize_parameters_for_abiv1 si hl fresh va dm pointers sas ix_bytes pid tc
      = (let (r, s, tc) = bindM ?m (\<lambda>(metas, offset). seqM (write_account_pointers padding metas) (?fin (metas, offset))) (?s, tc) in (r, tc))"
    unfolding serialize_parameters_for_abiv1_def size_v1 [OF wf, where si = si and va = va and dm = dm and ix_bytes = ix_bytes]
    by (simp add: Let_def seqM_def bindM_assoc ret_bindM padding_def n_def)
  also have "\<dots> = (Ok (sz_buffer s2, regions, metas, unat offset), tc2)"
    by (simp add: run_bindM [where m = ?m, OF run(1)] run_seqM [where m = "write_account_pointers padding metas", OF run2(1)] fin)
  finally show ?thesis using run run2 room by auto
qed

lemma instruction_wfD:
  assumes "instruction_wf n ic" "j < length (ic_accounts ic)"
  shows "length (ic_accounts ic) \<le> 255" "unat (word_of_nat j :: u16) = j" "first_of ic j \<le> j" "unat (word_of_nat (first_of ic j) :: u16) = first_of ic j"
    "unat (index_in_transaction (ic_accounts ic ! j)) < n" "unat (index_in_transaction (ic_accounts ic ! j)) < length (ic_dedup_map ic)"
    "word_of_nat (first_of ic j) = ic_dedup_map ic ! unat (index_in_transaction (ic_accounts ic ! j))"
proof -
  show a: "length (ic_accounts ic) \<le> 255" using assms(1) by (simp add: instruction_wf_def MAX_ACCOUNTS_PER_INSTRUCTION_def)
  then show "unat (word_of_nat j :: u16) = j" using assms(2) by (simp add: unat_of_nat take_bit_nat_eq_self)
  show b: "first_of ic j \<le> j" "unat (index_in_transaction (ic_accounts ic ! j)) < n"
    using assms by (auto simp: instruction_wf_def first_of_def)
  show "unat (index_in_transaction (ic_accounts ic ! j)) < length (ic_dedup_map ic)" using assms by (simp add: instruction_wf_def firsts_ok_def)
  show "word_of_nat (first_of ic j) = ic_dedup_map ic ! unat (index_in_transaction (ic_accounts ic ! j))"
    by (simp add: first_of_def first_use_def)
  show "unat (word_of_nat (first_of ic j) :: u16) = first_of ic j" using a b(1) assms(2) by (simp add: unat_of_nat take_bit_nat_eq_self)
qed

lemma duplicate_at:
  assumes "instruction_wf n ic" "j < length (ic_accounts ic)"
  shows "is_instruction_account_duplicate (word_of_nat j) ic = Ok (if first_of ic j = j then None else Some (word_of_nat (first_of ic j)))"
proof -
  note w = instruction_wfD [OF assms]
  have "(word_of_nat (first_of ic j) :: u16) = word_of_nat j \<longleftrightarrow> first_of ic j = j" using w(2,4) by metis
  then show ?thesis using w(2-6) assms(2)
    by (simp add: is_instruction_account_duplicate_def get_index_of_instruction_account_in_transaction_def get_instruction_account_def
        get_index_of_account_in_instruction_def get_at_def ok_or_def bindR_def w(7) [symmetric] not_le)
qed

lemma first_distinct:
  assumes "first_of ic j = j" "first_of ic k = k" "index_in_transaction (ic_accounts ic ! j) = index_in_transaction (ic_accounts ic ! k)"
  shows "j = k"
  using assms by (simp add: first_of_def first_use_def)

lemma borrow_at:
  assumes wf: "instruction_wf (accounts_len (accounts tc)) ic" "accounts_wf (accounts tc)" and j: "j < length (ic_accounts ic)"
    and free: "borrow_counters (accounts tc) ! unat (index_in_transaction (ic_accounts ic ! j)) = 0"
  shows "try_borrow_instruction_account (word_of_nat j) ic tc = (Ok (borrowed_at ic j),
    tc\<lparr>accounts := accounts tc\<lparr>borrow_counters := (borrow_counters (accounts tc))[unat (index_in_transaction (ic_accounts ic ! j)) := - 1]\<rparr>\<rparr>)"
  using instruction_wfD(1,2,5) [OF wf(1) j] j free wf(2)
  by (simp add: try_borrow_instruction_account_def get_instruction_account_def get_at_def ok_or_def liftR_def bindM_def on_accounts_def ret_def
      try_borrow_mut_def borrow_with_def counter_try_borrow_mut_def is_writing_def is_reading_def accounts_wf_def accounts_len_def Let_def
      borrowed_at_def)

lemma counters_entries:
  "account_entries (tc\<lparr>accounts := accounts tc\<lparr>borrow_counters := cs\<rparr>\<rparr>) = account_entries tc"
  by (simp add: account_entries_def)

lemma collect_runs:
  assumes wf: "instruction_wf (accounts_len (accounts tc)) ic" "accounts_wf (accounts tc)"
    and free: "\<And>k. j \<le> k \<Longrightarrow> k < length (ic_accounts ic) \<Longrightarrow> first_of ic k = k \<Longrightarrow>
      borrow_counters (accounts tc) ! unat (index_in_transaction (ic_accounts ic ! k)) = 0"
    and j: "j \<le> length (ic_accounts ic)"
  shows "\<exists>cs. collect_accounts (map word_of_nat [j..<length (ic_accounts ic)]) ic tc
    = (Ok (map (serialized_at ic) [j..<length (ic_accounts ic)]), tc\<lparr>accounts := accounts tc\<lparr>borrow_counters := cs\<rparr>\<rparr>)
    \<and> length cs = length (borrow_counters (accounts tc))"
  using j wf free
proof (induction j arbitrary: tc rule: inc_induct)
  case base
  then show ?case by (auto simp: ret_def intro: exI [of _ "borrow_counters (accounts tc)"])
next
  case (step j)
  let ?n = "length (ic_accounts ic)" and ?t = "unat (index_in_transaction (ic_accounts ic ! j))"
  have upt: "[j..<?n] = j # [Suc j..<?n]" using step.hyps by (simp add: upt_conv_Cons)
  note dup = duplicate_at [OF step.prems(1) step.hyps(2)]
  show ?case
  proof (cases "first_of ic j = j")
    case False
    obtain cs where "collect_accounts (map word_of_nat [Suc j..<?n]) ic tc = (Ok (map (serialized_at ic) [Suc j..<?n]),
        tc\<lparr>accounts := accounts tc\<lparr>borrow_counters := cs\<rparr>\<rparr>)" "length cs = length (borrow_counters (accounts tc))"
      using step.IH [OF step.prems(1,2)] step.prems(3) by (meson Suc_leD)
    then show ?thesis using False dup by (auto simp: upt bindM_def ret_def serialized_at_def)
  next
    case True
    define tc1 where "tc1 = tc\<lparr>accounts := accounts tc\<lparr>borrow_counters := (borrow_counters (accounts tc))[?t := - 1]\<rparr>\<rparr>"
    have bor: "try_borrow_instruction_account (word_of_nat j) ic tc = (Ok (borrowed_at ic j), tc1)"
      unfolding tc1_def by (rule borrow_at [OF step.prems(1,2) step.hyps(2)]) (simp add: step True)
    have "accounts_len (accounts tc1) = accounts_len (accounts tc)" "accounts_wf (accounts tc1)"
      using counters_frame(3,4) [where tc = tc] step.prems(2) by (simp_all add: tc1_def)
    moreover have "borrow_counters (accounts tc1) ! unat (index_in_transaction (ic_accounts ic ! k)) = 0"
      if k: "Suc j \<le> k" "k < ?n" "first_of ic k = k" for k
    proof -
      have "unat (index_in_transaction (ic_accounts ic ! k)) \<noteq> ?t" using first_distinct [OF True k(3)] k(1) by (auto simp: word_unat_eq_iff)
      then show ?thesis using step.prems(3) [of k] k by (simp add: tc1_def)
    qed
    ultimately obtain cs where "collect_accounts (map word_of_nat [Suc j..<?n]) ic tc1 = (Ok (map (serialized_at ic) [Suc j..<?n]),
        tc1\<lparr>accounts := accounts tc1\<lparr>borrow_counters := cs\<rparr>\<rparr>)" "length cs = length (borrow_counters (accounts tc1))"
      using step.IH [of tc1] step.prems(1) by auto
    then show ?thesis using True dup bor by (auto simp: upt bindM_def ret_def serialized_at_def tc1_def)
  qed
qed

lemma idle_wf: "idle tc \<Longrightarrow> accounts_wf (accounts tc)"
  by (simp add: idle_def)

lemma idle_counter: "idle tc \<Longrightarrow> n < accounts_len (accounts tc) \<Longrightarrow> borrow_counters (accounts tc) ! n = 0"
  by (simp add: idle_def accounts_wf_def)

lemma collected_input:
  assumes "instruction_wf (length es) ic" "j \<le> length (ic_accounts ic)"
  shows "collected_ok es j (map (serialized_at ic) [j..<length (ic_accounts ic)])"
  using assms(2)
proof (induction rule: inc_induct)
  case (step j)
  then show ?case using instruction_wfD [OF assms(1) step.hyps(2)]
    by (auto simp: upt_conv_Cons serialized_at_def guards_ok_def borrowed_at_def)
qed simp

lemma encoded_input:
  assumes "instruction_wf n ic" "j < length (ic_accounts ic)"
  shows "encode_one enc padding (serialized_at ic j) = account_input enc padding ic j"
proof -
  have "(ucast (word_of_nat (first_of ic j) :: u16) :: u8) = word_of_nat (first_of ic j)"
    by (simp add: unsigned_of_nat of_nat_take_bit take_bit_word_eq_self)
  then show ?thesis by (simp add: encode_one_def serialized_at_def account_input_def borrowed_at_def)
qed

lemma input_is_instruction_input:
  assumes "instruction_wf n ic"
  shows "input_v0 si va dm es (map (serialized_at ic) [0..<length (ic_accounts ic)]) (ic_data ic) pid
      = instruction_input (encode_v0 si va dm es) [] ic pid"
    "input_v1 si va dm es (map (serialized_at ic) [0..<length (ic_accounts ic)]) (ic_data ic) pid
      = instruction_input (encode_v1 si va dm es) [0, 0, 0, 0, 0, 0, 0] ic pid"
  using encoded_input [OF assms] by (auto simp: input_v0_def input_v1_def instruction_input_def intro!: arg_cong [where f = concat])

lemma program_owner_at:
  assumes "idle tc" "get_index_of_program_account_in_transaction ic = Ok index" "unat index < accounts_len (accounts tc)"
  shows "get_program_owner ic tc = (Ok (acc_owner (shared_account_fields (accounts tc) ! unat index)), tc)"
  using idle_wf [OF assms(1)] idle_counter [OF assms(1,3)] assms(2,3)
  by (simp add: get_program_owner_def bindM_def liftR_def on_accounts_def try_borrow_def borrow_with_def counter_try_borrow_def is_writing_def
      get_at_def Let_def accounts_wf_def accounts_len_def modify_accounts_def drop_ref_def counter_release_borrow_def list_update_same_conv)

lemma program_index:
  assumes "get_program_key ic tc = Ok pid"
  obtains index where "get_index_of_program_account_in_transaction ic = Ok index" "unat index < accounts_len (accounts tc)"
    "pid = acc_key (shared_account_fields (accounts tc) ! unat index)"
  using assms by (auto simp: get_program_key_def get_key_of_account_at_index_def account_key_def get_at_def ok_or_def accounts_len_def
      bindR_eq_Ok_iff split: if_splits option.splits)

lemma program_owner_runs: "idle tc \<Longrightarrow> get_program_key ic tc = Ok pid \<Longrightarrow> \<exists>own. get_program_owner ic tc = (Ok own, tc)"
  by (erule program_index) (simp add: program_owner_at)

lemma key_sized:
  assumes "keys_sized (account_entries tc)" "accounts_wf (accounts tc)" "get_program_key ic tc = Ok pid"
  shows "length pid = 32"
proof -
  obtain n where "n < accounts_len (accounts tc)" "pid = acc_key (shared_account_fields (accounts tc) ! n)"
    using program_index [OF assms(3)] by metis
  moreover from this have "entry_of (shared_account_fields (accounts tc) ! n) (private_account_fields (accounts tc) ! n) \<in> set (account_entries tc)"
    using assms(2) by (force simp: account_entries_def accounts_wf_def accounts_len_def in_set_conv_nth)
  ultimately show ?thesis using assms(1) by (auto simp: keys_sized_def entry_of_def)
qed

lemma serialize_runs:
  assumes tc: "idle tc" "keys_sized (account_entries tc)" and ic: "instruction_wf (accounts_len (accounts tc)) ic"
    and prog: "get_program_key ic tc = Ok pid" "fst (get_program_owner ic tc) = Ok own" and fresh: "\<And>n. length (fresh n) = n"
  shows "\<exists>mem regions metas offset tc'. serialize_parameters si hl fresh ic va dm pointers tc = (Ok (mem, regions, metas, offset), tc')
    \<and> as_slice mem = parameters si va dm (account_entries tc) ic own pid
        @ (if own = deprecated_loader_id si then [] else pointer_bytes si pointers (length (parameters si va dm (account_entries tc) ic own pid)) metas)
    \<and> capacity mem = length (as_slice mem) \<and> account_entries tc' = account_entries tc
    \<and> list_all2 (length_recorded (account_entries tc)) (map (serialized_at ic) [0..<length (ic_accounts ic)]) metas"
proof -
  let ?n = "length (ic_accounts ic)"
  let ?sas = "map (serialized_at ic) [0..<?n]"
  have wf: "accounts_wf (accounts tc)" using tc(1) by (simp add: idle_def)
  have len: "length (account_entries tc) = accounts_len (accounts tc)" using wf by (simp add: account_entries_def accounts_wf_def accounts_len_def)
  have owner: "get_program_owner ic tc = (Ok own, tc)" using program_owner_runs [OF tc(1) prog(1)] prog(2) by auto
  have small: "?n \<le> 255" using ic by (simp add: instruction_wf_def MAX_ACCOUNTS_PER_INSTRUCTION_def)
  then have number: "unat (get_number_of_instruction_accounts ic) = ?n" "\<not> get_number_of_instruction_accounts ic > MAX_ACCOUNTS_PER_INSTRUCTION"
    by (simp_all add: get_number_of_instruction_accounts_def unat_of_nat take_bit_nat_eq_self MAX_ACCOUNTS_PER_INSTRUCTION_def word_less_nat_alt)
  obtain cs where collect: "collect_accounts (account_indices ic) ic tc = (Ok ?sas, tc\<lparr>accounts := accounts tc\<lparr>borrow_counters := cs\<rparr>\<rparr>)"
      "length cs = length (borrow_counters (accounts tc))"
    using collect_runs [OF ic wf, of 0] instruction_wfD(5) [OF ic] idle_counter [OF tc(1)] by (auto simp: account_indices_def number(1))
  let ?tc = "tc\<lparr>accounts := accounts tc\<lparr>borrow_counters := cs\<rparr>\<rparr>"
  have wf': "accounts_wf (accounts ?tc)" using counters_frame(4) [OF wf collect(2)] .
  have "collected_ok (account_entries ?tc) 0 ?sas" using collected_input [of "account_entries tc" ic 0] ic by (simp add: counters_entries len)
  note ok = wf' tc(2) [folded counters_entries [where tc = tc and cs = cs]] this key_sized [OF tc(2) wf prog(1)]
  have run: "serialize_parameters si hl fresh ic va dm pointers tc
      = (if own = deprecated_loader_id si then serialize_parameters_for_abiv0 si hl fresh va dm ?sas (ic_data ic) pid ?tc
         else serialize_parameters_for_abiv1 si hl fresh va dm pointers ?sas (ic_data ic) pid ?tc)"
    using number(2) prog(1) owner collect(1) by (simp add: serialize_parameters_def bindM_def seqM_def failIf_def ret_def liftR_def)
  show ?thesis
  proof (cases "own = deprecated_loader_id si")
    case True
    then show ?thesis using abiv0_fills [OF ok fresh, of si hl va dm "ic_data ic"] run
      by (auto simp: counters_entries parameters_def input_is_instruction_input [OF ic])
  next
    case False
    then show ?thesis using abiv1_fills [OF ok fresh, of si hl va dm pointers "ic_data ic"] run
      by (auto simp: counters_entries parameters_def input_is_instruction_input [OF ic])
  qed
qed

lemma kept_refl: "accounts_wf (accounts tc) \<Longrightarrow> kept tc tc"
  by (simp add: kept_def)

lemma slice_at: "length pre = start \<Longrightarrow> length xs = n \<Longrightarrow> slice_get (pre @ xs @ ys) start (start + n) = Some xs"
  by (auto simp: slice_get_def)

lemma read_back:
  assumes "slice_get buffer start (start + n) = Some xs"
  shows "read_slice buffer start n tc = (Ok xs, tc)"
  using assms by (simp add: read_slice_def liftR_def ok_or_def)

lemma read_back_u64:
  assumes "slice_get buffer start (start + 8) = Some (le_bytes 8 v)"
  shows "read_u64 buffer start tc = (Ok v, tc)"
  using read_back [OF assms] by (simp add: read_u64_def bindM_def ret_def of_le_bytes_le_bytes take_bit_word_eq_self)

lemma can_resize_same:
  assumes "growth_ok tc" "n \<le> MAX_ACCOUNT_DATA_LEN"
  shows "can_data_be_resized n n (accounts tc) = Ok ()"
  using assms by (simp add: can_data_be_resized_def growth_ok_def MAX_ACCOUNT_DATA_GROWTH_PER_TRANSACTION_def MAX_ACCOUNT_DATA_LEN_def)

lemma set_same_data:
  assumes wf: "accounts_wf (accounts tc)" "borrowed_ok b tc" and g: "growth_ok tc"
    and can: "can_borrowed_be_resized b (length (get_data b tc)) tc = Ok ()"
  shows "\<exists>tc'. set_data_from_slice b (get_data b tc) tc = (Ok (), tc') \<and> kept tc tc'"
proof -
  let ?bs = "get_data b tc"
  let ?tc = "account_write b (shared_of b tc) ((private_of b tc)\<lparr>acc_payload := ?bs, acc_payload_shared := False\<rparr>)
    (lamports_delta (accounts tc)) (resize_delta (accounts tc)) tc"
  have res: "saturate_i64 (resize_delta (accounts tc)) = resize_delta (accounts tc)"
    using g by (simp add: growth_ok_def MAX_ACCOUNT_DATA_GROWTH_PER_TRANSACTION_def MAX_ACCOUNT_DATA_LEN_def)
  have "set_data_from_slice b ?bs tc = (Ok (), ?tc)"
    using can res synced_slice [OF wf refl]
    by (simp add: set_data_from_slice_def seqM_liftR touch_and_resize [OF wf] modifyM_def write_views [OF wf])
  moreover have "account_entries ?tc = account_entries tc"
    by (rule write_entries [OF wf]) (simp add: entry_of_def get_data_def)
  moreover have "accounts_wf (accounts ?tc)"
    by (rule write_wf [OF wf]) (use wf in \<open>simp add: accounts_wf_def borrowed_ok_def shared_of_def get_data_def private_of_def payload_len_def\<close>)
  ultimately show ?thesis by (simp add: kept_def account_write_def Let_def)
qed

lemma write_back_same:
  assumes wf: "accounts_wf (accounts tc)" "borrowed_ok b tc" and g: "growth_ok tc" "length (get_data b tc) \<le> MAX_ACCOUNT_DATA_LEN"
    and read: "\<not> (va \<and> dm) \<Longrightarrow> slice_get buffer start (start + length (get_data b tc)) = Some (get_data b tc)"
  shows "\<exists>tc'. write_back_data b va dm buffer start (length (get_data b tc)) tc = (Ok (), tc') \<and> kept tc tc'"
proof -
  let ?n = "length (get_data b tc)"
  have can: "can_borrowed_be_resized b ?n tc = can_data_be_changed b tc"
    using can_resize_same [OF g] by (simp add: can_borrowed_be_resized_def Let_def bindR_def)
  show ?thesis
  proof (cases "can_data_be_changed b tc")
    case (Ok u)
    then show ?thesis
      using set_same_data [OF wf g(1)] can read_back [OF read] kept_refl [OF wf(1)]
      by (cases va; cases dm) (auto simp: write_back_data_def bindM_def is_ok_def)
  next
    case (Err e)
    then show ?thesis
      using can read_back [OF read] kept_refl [OF wf(1)]
      by (cases va; cases dm) (auto simp: write_back_data_def bindM_def is_ok_def)
  qed
qed

lemma lengths_at:
  assumes "lengths_ok si es" "guards_ok es b" "es ! ba_guard b = (key, balance, own, bs, exec)"
  shows "length bs \<le> MAX_ACCOUNT_DATA_LEN" "length bs \<le> unat (MAX_PERMITTED_DATA_LENGTH si)" "unat (word_of_nat (length bs) :: u64) = length bs"
proof -
  have "es ! ba_guard b \<in> set es" using assms(2) by (simp add: guards_ok_def)
  then show l: "length bs \<le> MAX_ACCOUNT_DATA_LEN" "length bs \<le> unat (MAX_PERMITTED_DATA_LENGTH si)"
    using assms(1,3) by (auto simp: lengths_ok_def entry_data_def)
  then show "unat (word_of_nat (length bs) :: u64) = length bs" by (simp add: unat_of_nat take_bit_nat_eq_self MAX_ACCOUNT_DATA_LEN_def)
qed

lemma restore_v0:
  assumes wf: "accounts_wf (accounts tc)" "account_entries tc = es" and g: "guards_ok es b" "growth_ok tc"
    and es: "keys_sized es" "lengths_ok si es" and buffer: "buffer = pre @ encode_v0 si va dm es (ba_account b) @ rest"
  shows "\<exists>tc'. deserialize_account_v0 va dm buffer (length (entry_data (es ! ba_guard b))) (length pre + 1) b tc
    = (Ok (length pre + length (encode_v0 si va dm es (ba_account b))), tc') \<and> kept tc tc'"
proof -
  obtain key balance own bs exec where e: "es ! ba_guard b = (key, balance, own, bs, exec)" "length key = 32" "length own = 32"
    by (rule entry_of_guard [OF g(1) es(1)])
  note get = entries_get [OF wf(2,1) g(1) e(1)] and len = lengths_at [OF es(2) g(1) e(1)]
  let ?flags = "[NON_DUP_MARKER si, bool_as_u8 (is_signer (ba_account b)), bool_as_u8 (is_writable (ba_account b))]"
  have enc: "encode_v0 si va dm es (ba_account b) = ?flags @ key @ le_bytes 8 balance @ le_bytes 8 (word_of_nat (length bs))
      @ data_bytes si (True, va, dm) bs @ own @ [bool_as_u8 exec] @ le_bytes 8 (- 1)"
    using e(1) guards_ok_guard [OF g(1)] by (simp add: encode_v0_def)
  have b: "slice_get buffer (35 + length pre) (35 + length pre + 8) = Some (le_bytes 8 balance)"
    using slice_at [of "pre @ ?flags @ key" "35 + length pre" "le_bytes 8 balance" 8] e(2) by (simp add: buffer enc)
  have d: "slice_get buffer (51 + length pre) (51 + length pre + length bs) = Some bs" if "\<not> (va \<and> dm)"
    using slice_at [of "pre @ ?flags @ key @ le_bytes 8 balance @ le_bytes 8 (word_of_nat (length bs))" "51 + length pre" bs "length bs"] e(2) that
    by (auto simp: buffer enc data_bytes_def)
  obtain tc' where wb: "write_back_data b va dm buffer (51 + length pre) (length bs) tc = (Ok (), tc')" "kept tc tc'"
    using write_back_same [OF wf(1) get(6) g(2), unfolded get(1), OF len(1) d] by blast
  then show ?thesis using read_back_u64 [OF b] e
    by (simp add: deserialize_account_v0_def entry_data_def Let_def bindM_def seqM_def ret_def write_back_lamports_def get(2) enc data_bytes_def)
qed

lemma restore_v1:
  assumes wf: "accounts_wf (accounts tc)" "account_entries tc = es" and g: "guards_ok es b" "growth_ok tc"
    and es: "keys_sized es" "lengths_ok si es" and buffer: "buffer = pre @ encode_v1 si va dm es (ba_account b) @ rest"
  shows "\<exists>tc'. deserialize_account_v1 si va dm buffer (length (entry_data (es ! ba_guard b))) (length pre + 1) b tc
    = (Ok (length pre + length (encode_v1 si va dm es (ba_account b))), tc') \<and> kept tc tc'"
proof -
  obtain key balance own bs exec where e: "es ! ba_guard b = (key, balance, own, bs, exec)" "length key = 32" "length own = 32"
    by (rule entry_of_guard [OF g(1) es(1)])
  note get = entries_get [OF wf(2,1) g(1) e(1)] and len = lengths_at [OF es(2) g(1) e(1)]
  let ?flags = "[NON_DUP_MARKER si, bool_as_u8 (is_signer (ba_account b)), bool_as_u8 (is_writable (ba_account b)), bool_as_u8 exec, 0, 0, 0, 0]"
  let ?len = "le_bytes 8 (word_of_nat (length bs))"
  have enc: "encode_v1 si va dm es (ba_account b) = ?flags @ key @ own @ le_bytes 8 balance @ ?len
      @ data_bytes si (False, va, dm) bs @ le_bytes 8 (- 1)"
    using e(1) guards_ok_guard [OF g(1)] by (simp add: encode_v1_def)
  have o: "slice_get buffer (40 + length pre) (40 + length pre + 32) = Some own"
    using slice_at [of "pre @ ?flags @ key" "40 + length pre" own 32] e by (simp add: buffer enc)
  have b: "slice_get buffer (72 + length pre) (72 + length pre + 8) = Some (le_bytes 8 balance)"
    using slice_at [of "pre @ ?flags @ key @ own" "72 + length pre" "le_bytes 8 balance" 8] e by (simp add: buffer enc)
  have l: "slice_get buffer (80 + length pre) (80 + length pre + 8) = Some ?len"
    using slice_at [of "pre @ ?flags @ key @ own @ le_bytes 8 balance" "80 + length pre" ?len 8] e by (simp add: buffer enc)
  have d: "slice_get buffer (88 + length pre) (88 + length pre + length bs) = Some bs" if "\<not> (va \<and> dm)"
    using slice_at [of "pre @ ?flags @ key @ own @ le_bytes 8 balance @ ?len" "88 + length pre" bs "length bs"] e that
    by (auto simp: buffer enc data_bytes_def)
  obtain tc' where wb: "write_back_data b va dm buffer (88 + length pre) (length bs) tc = (Ok (), tc')" "kept tc tc'"
    using write_back_same [OF wf(1) get(6) g(2), unfolded get(1), OF len(1) d] by blast
  have "get_owner b tc' = own" using entries_get(3) [OF _ _ g(1) e(1)] wb(2) wf(2) by (simp add: kept_def)
  then show ?thesis using read_back [OF o] read_back_u64 [OF b] read_back_u64 [OF l] wb len e
    by (simp add: deserialize_account_v1_def entry_data_def Let_def bindM_def seqM_def ret_def failIf_def write_back_lamports_def get(2) enc
        data_bytes_def)
qed

lemma kept_idle: "idle tc \<Longrightarrow> kept tc tc' \<Longrightarrow> idle tc'"
  by (simp add: idle_def kept_def)

lemma kept_trans: "kept tc tc1 \<Longrightarrow> kept tc1 tc2 \<Longrightarrow> kept tc tc2"
  by (simp add: kept_def)

lemma restore_borrowed:
  assumes tc: "idle tc" and ic: "instruction_wf (accounts_len (accounts tc)) ic" and j: "j < length (ic_accounts ic)"
    and body: "\<And>t. account_entries t = account_entries tc \<Longrightarrow> accounts_wf (accounts t) \<Longrightarrow> resize_delta (accounts t) = resize_delta (accounts tc) \<Longrightarrow>
      \<exists>t'. body (borrowed_at ic j) t = (Ok a, t') \<and> kept t t'"
  shows "\<exists>tc'. with_borrowed (word_of_nat j) ic body tc = (Ok a, tc') \<and> kept tc tc'"
proof -
  let ?n = "unat (index_in_transaction (ic_accounts ic ! j))" and ?cs = "borrow_counters (accounts tc)"
  let ?t = "tc\<lparr>accounts := accounts tc\<lparr>borrow_counters := ?cs[?n := - 1]\<rparr>\<rparr>"
  note wf = idle_wf [OF tc] and n = instruction_wfD(5) [OF ic j]
  have bor: "try_borrow_instruction_account (word_of_nat j) ic tc = (Ok (borrowed_at ic j), ?t)"
    by (rule borrow_at [OF ic wf j idle_counter [OF tc n]])
  obtain t' where t': "body (borrowed_at ic j) ?t = (Ok a, t')" "kept ?t t'"
    using body [of ?t] counters_entries counters_frame(4) [OF wf] by auto
  have "account_entries (drop_borrowed (borrowed_at ic j) t') = account_entries tc" "accounts_wf (accounts (drop_borrowed (borrowed_at ic j) t'))"
    using drop_entries [of t' "Ser_account 0 (borrowed_at ic j)"] t'(2) by (simp_all add: drop_serialized_def kept_def counters_entries)
  moreover have "borrow_counters (accounts (drop_borrowed (borrowed_at ic j) t')) = ?cs"
    using t'(2) idle_counter [OF tc n] wf n
    by (simp add: drop_borrowed_def modify_accounts_def drop_ref_mut_def Let_def set_slice_len_def update_shared_def kept_def borrowed_at_def
        counter_release_borrow_mut_def accounts_wf_def list_update_same_conv)
  moreover have "resize_delta (accounts (drop_borrowed (borrowed_at ic j) t')) = resize_delta (accounts tc)"
    using t'(2) by (simp add: drop_borrowed_def modify_accounts_def drop_ref_mut_def Let_def set_slice_len_def update_shared_def kept_def)
  ultimately have "kept tc (drop_borrowed (borrowed_at ic j) t')" by (simp add: kept_def)
  then show ?thesis using bor t'(1) by (simp add: with_borrowed_def bindM_def)
qed

text \<open>One turn of the loop: the account, or the position of a repeated one, is passed over and nothing changes.\<close>

lemma restore_step:
  assumes tc: "idle tc" "account_entries tc = es" "growth_ok tc" and ic: "instruction_wf (length es) ic" and j: "j < length (ic_accounts ic)"
    and single: "restores es buffer enc single"
    and buffer: "buffer = pre @ account_input enc padding ic j @ rest" "length padding = dup"
    and n: "first_of ic j = j \<Longrightarrow> n = length (entry_data (es ! unat (index_in_transaction (ic_accounts ic ! j))))"
  shows "\<exists>tc'. (case if first_of ic j = j then None else Some (word_of_nat (first_of ic j) :: u16) of
             Some _ \<Rightarrow> ret (length pre + 1 + dup)
           | None \<Rightarrow> with_borrowed (word_of_nat j) ic (single n (length pre + 1))) tc
    = (Ok (length (pre @ account_input enc padding ic j)), tc') \<and> kept tc tc'"
proof (cases "first_of ic j = j")
  case False
  then show ?thesis using tc(1) buffer(2) by (simp add: ret_def account_input_def kept_refl idle_wf)
next
  case True
  let ?pre = "pre @ account_input enc padding ic j"
  have len: "accounts_len (accounts tc) = length es"
    using tc(1,2) by (auto simp: idle_def account_entries_def accounts_wf_def accounts_len_def)
  have "guards_ok es (borrowed_at ic j)" using instruction_wfD(5) [OF ic j] by (simp add: guards_ok_def borrowed_at_def)
  then have "\<exists>t'. single n (length pre + 1) (borrowed_at ic j) t = (Ok (length ?pre), t') \<and> kept t t'"
    if "account_entries t = account_entries tc" "accounts_wf (accounts t)" "resize_delta (accounts t) = resize_delta (accounts tc)" for t
    using single [unfolded restores_def, rule_format, of t "borrowed_at ic j" pre rest] that tc True buffer(1) n by (simp add: growth_ok_def account_input_def borrowed_at_def)
  then have "\<exists>tc'. with_borrowed (word_of_nat j) ic (single n (length pre + 1)) tc = (Ok (length ?pre), tc') \<and> kept tc tc'"
    by (rule restore_borrowed [OF tc(1) ic [folded len] j])
  then show ?thesis using True by simp
qed

lemma restore_loop:
  assumes tc: "idle tc" "account_entries tc = es" "growth_ok tc" and ic: "instruction_wf (length es) ic" and j: "j \<le> length (ic_accounts ic)"
    and single: "restores es buffer enc single"
    and buffer: "buffer = pre @ concat (map (account_input enc padding ic) [j..<length (ic_accounts ic)]) @ rest" "length padding = dup"
    and lens: "list_all2 (\<lambda>k n. first_of ic k = k \<longrightarrow> n = length (entry_data (es ! unat (index_in_transaction (ic_accounts ic ! k)))))
      [j..<length (ic_accounts ic)] lens"
  shows "\<exists>tc'. deserialize_accounts single dup ic (zip (map word_of_nat [j..<length (ic_accounts ic)]) lens) (length pre) tc = (Ok (), tc') \<and> kept tc tc'"
  using j tc buffer(1) lens
proof (induction j arbitrary: tc pre lens rule: inc_induct)
  case base
  then show ?case by (simp add: ret_def kept_refl idle_wf)
next
  case (step j)
  let ?n = "length (ic_accounts ic)"
  have upt: "[j..<?n] = j # [Suc j..<?n]" using step.hyps by (simp add: upt_conv_Cons)
  obtain n lens' where lens: "lens = n # lens'" "first_of ic j = j \<Longrightarrow> n = length (entry_data (es ! unat (index_in_transaction (ic_accounts ic ! j))))"
      "list_all2 (\<lambda>k n. first_of ic k = k \<longrightarrow> n = length (entry_data (es ! unat (index_in_transaction (ic_accounts ic ! k))))) [Suc j..<?n] lens'"
    using step.prems(5) by (auto simp: upt list_all2_Cons1)
  let ?one = "account_input enc padding ic j"
  let ?pre = "pre @ ?one"
  have buf: "buffer = ?pre @ concat (map (account_input enc padding ic) [Suc j..<?n]) @ rest" using step.prems(4) by (simp add: upt)
  note dup = duplicate_at [OF ic step.hyps(2)]
  obtain tc1 where one: "(case if first_of ic j = j then None else Some (word_of_nat (first_of ic j) :: u16) of
             Some _ \<Rightarrow> ret (length pre + 1 + dup)
           | None \<Rightarrow> with_borrowed (word_of_nat j) ic (single n (length pre + 1))) tc = (Ok (length ?pre), tc1)" "kept tc tc1"
    using restore_step [where enc = enc and single = single and buffer = buffer and rest = "concat (map (account_input enc padding ic) [Suc j..<?n]) @ rest",
        OF step.prems(1-3) ic step.hyps(2) single buf [unfolded append_assoc] buffer(2) lens(2)] by blast
  have "idle tc1" "account_entries tc1 = es" "growth_ok tc1"
    using one(2) step.prems kept_idle by (auto simp: kept_def growth_ok_def)
  from step.IH [OF this buf lens(3)] obtain tc2 where
    "deserialize_accounts single dup ic (zip (map word_of_nat [Suc j..<?n]) lens') (length ?pre) tc1 = (Ok (), tc2)" "kept tc1 tc2" by blast
  moreover have "deserialize_accounts single dup ic (zip (map word_of_nat [j..<?n]) lens) (length pre) tc
      = deserialize_accounts single dup ic (zip (map word_of_nat [Suc j..<?n]) lens') (length ?pre) tc1"
    unfolding upt lens(1) list.map zip_Cons_Cons deserialize_accounts.simps
    by (simp only: bindM_def liftR_def dup prod.case result.case one(1))
  ultimately show ?case using kept_trans [OF one(2)] by auto
qed

lemma entries_program:
  assumes "account_entries tc2 = account_entries tc" "accounts_wf (accounts tc2)" "accounts_wf (accounts tc)"
  shows "map acc_key (shared_account_fields (accounts tc2)) = map acc_key (shared_account_fields (accounts tc))"
    "map acc_owner (shared_account_fields (accounts tc2)) = map acc_owner (shared_account_fields (accounts tc))"
proof -
  have fst: "map fst (account_entries t) = map acc_key (shared_account_fields (accounts t))"
    and own: "map (fst \<circ> snd \<circ> snd) (account_entries t) = map acc_owner (shared_account_fields (accounts t))" if "accounts_wf (accounts t)" for t
    using that by (auto simp: account_entries_def entry_of_def accounts_wf_def accounts_len_def intro!: nth_equalityI)
  show "map acc_key (shared_account_fields (accounts tc2)) = map acc_key (shared_account_fields (accounts tc))"
    "map acc_owner (shared_account_fields (accounts tc2)) = map acc_owner (shared_account_fields (accounts tc))"
    using fst own assms by metis+
qed

lemma program_same:
  assumes "idle tc" "idle tc2" "account_entries tc2 = account_entries tc" "get_program_key ic tc = Ok pid" "get_program_owner ic tc = (Ok own, tc)"
  shows "get_program_owner ic tc2 = (Ok own, tc2)"
proof -
  let ?n = "accounts_len (accounts tc)"
  note maps = entries_program [OF assms(3) idle_wf [OF assms(2)] idle_wf [OF assms(1)]]
  have len: "accounts_len (accounts tc2) = ?n" using maps(1) by (metis accounts_len_def length_map)
  obtain index where index: "get_index_of_program_account_in_transaction ic = Ok index" "unat index < ?n"
    using program_index [OF assms(4)] by metis
  note run = program_owner_at [OF _ index(1)]
  have "acc_owner (shared_account_fields (accounts tc2) ! unat index) = acc_owner (shared_account_fields (accounts tc) ! unat index)"
    using arg_cong [OF maps(2), of "\<lambda>xs. xs ! unat index"] index(2) len by (simp add: accounts_len_def)
  then show ?thesis using run [OF assms(1) index(2)] run [OF assms(2)] index(2) len assms(5) by simp
qed

lemma recorded_lengths:
  assumes "list_all2 (length_recorded es) (map (serialized_at ic) ks) metas"
  shows "list_all2 (\<lambda>k n. first_of ic k = k \<longrightarrow> n = length (entry_data (es ! unat (index_in_transaction (ic_accounts ic ! k)))))
    ks (map original_data_len metas)"
  using assms by (auto simp: list_all2_conv_all_nth length_recorded_def serialized_at_def borrowed_at_def split: if_splits)

lemma restore_parameters:
  assumes tc: "idle tc" "growth_ok tc" "keys_sized (account_entries tc)" "lengths_ok si (account_entries tc)"
    and ic: "instruction_wf (accounts_len (accounts tc)) ic" and owner: "get_program_owner ic tc = (Ok own, tc)"
    and metas: "list_all2 (length_recorded (account_entries tc)) (map (serialized_at ic) [0..<length (ic_accounts ic)]) metas"
  shows "\<exists>tc'. deserialize_parameters si ic va dm (parameters si va dm (account_entries tc) ic own pid @ rest) metas tc = (Ok (), tc') \<and> kept tc tc'"
proof -
  let ?es = "account_entries tc" and ?n = "length (ic_accounts ic)" and ?lens = "map original_data_len metas"
  have es: "length ?es = accounts_len (accounts tc)"
    using idle_wf [OF tc(1)] by (simp add: account_entries_def accounts_wf_def accounts_len_def)
  have idx: "account_indices ic = map word_of_nat [0..<?n]"
    using ic by (simp add: account_indices_def get_number_of_instruction_accounts_def instruction_wf_def MAX_ACCOUNTS_PER_INSTRUCTION_def
        unat_of_nat take_bit_nat_eq_self)
  let ?pre = "le_bytes 8 (word_of_nat ?n)" and ?tail = "le_bytes 8 (word_of_nat (length (ic_data ic))) @ ic_data ic @ pid @ rest"
  have "\<exists>tc'. deserialize_accounts (deserialize_account_v0 va dm (instruction_input (encode_v0 si va dm ?es) [] ic pid @ rest)) 0 ic
      (zip (map word_of_nat [0..<?n]) ?lens) (length ?pre) tc = (Ok (), tc') \<and> kept tc tc'"
    by (rule restore_loop [where enc = "encode_v0 si va dm ?es" and padding = "[]" and rest = ?tail and es = ?es,
          OF tc(1) refl tc(2) ic [folded es] le0 _ _ _ recorded_lengths [OF metas]])
      (use restore_v0 [OF _ _ _ _ tc(3,4)] in \<open>auto simp: restores_def instruction_input_def\<close>)
  moreover have "\<exists>tc'. deserialize_accounts (deserialize_account_v1 si va dm (instruction_input (encode_v1 si va dm ?es) [0, 0, 0, 0, 0, 0, 0] ic pid @ rest)) 7 ic
      (zip (map word_of_nat [0..<?n]) ?lens) (length ?pre) tc = (Ok (), tc') \<and> kept tc tc'"
    by (rule restore_loop [where enc = "encode_v1 si va dm ?es" and padding = "[0, 0, 0, 0, 0, 0, 0]" and rest = ?tail and es = ?es,
          OF tc(1) refl tc(2) ic [folded es] le0 _ _ _ recorded_lengths [OF metas]])
      (use restore_v1 [OF _ _ _ _ tc(3,4)] in \<open>auto simp: restores_def instruction_input_def\<close>)
  ultimately show ?thesis
    by (simp add: deserialize_parameters_def run_bindM [where m = "get_program_owner ic", OF owner] Let_def deserialize_parameters_for_abiv0_def deserialize_parameters_for_abiv1_def
        idx parameters_def)
qed

section \<open>Properties\<close>


text \<open>
  C13. What serialization writes, deserialization reads back: for an input the program did not change, writing it back to the same accounts,
  none of them borrowed, succeeds and leaves key, lamports, owner, data and executable flag of every account as they were. This holds for
  both layouts and every setting, when the data of the accounts is within the limits on its length and the transaction within the limit on
  growth.
\<close>

theorem serialize_roundtrip:
  assumes tc: "idle tc" "keys_sized (account_entries tc)" "lengths_ok si (account_entries tc)"
    and ic: "instruction_wf (accounts_len (accounts tc)) ic" "get_program_key ic tc = Ok pid" and fresh: "\<And>n. length (fresh n) = n"
    and run: "serialize_parameters si hl fresh ic va dm pointers tc = (Ok (buffer, regions, metas, offset), tc1)"
    and later: "idle tc2" "account_entries tc2 = account_entries tc" "growth_ok tc2"
  shows "\<exists>tc'. deserialize_parameters si ic va dm (as_slice buffer) metas tc2 = (Ok (), tc') \<and> account_entries tc' = account_entries tc"
proof -
  obtain own where owner: "get_program_owner ic tc = (Ok own, tc)" using program_owner_runs [OF tc(1) ic(2)] by blast
  then have "fst (get_program_owner ic tc) = Ok own" by simp
  from serialize_runs [OF tc(1,2) ic this fresh, of si hl va dm pointers] run
  obtain rest where out: "as_slice buffer = parameters si va dm (account_entries tc) ic own pid @ rest"
    "list_all2 (length_recorded (account_entries tc)) (map (serialized_at ic) [0..<length (ic_accounts ic)]) metas" by auto
  have "accounts_len (accounts tc2) = accounts_len (accounts tc)"
    using entries_program(1) [OF later(2) idle_wf [OF later(1)] idle_wf [OF tc(1)]] by (metis accounts_len_def length_map)
  then show ?thesis
    using restore_parameters [where tc = tc2 and metas = metas and va = va and dm = dm and pid = pid and rest = rest, OF later(1,3) _ _ _
        program_same [OF tc(1) later(1,2) ic(2) owner]] tc ic(1) out later(2)
    by (auto simp: kept_def)
qed

section \<open>The hypotheses hold\<close>

lemma ser_context_idle: "idle ser_context" "growth_ok ser_context" "accounts_len (accounts ser_context) = 3"
  by (simp_all add: idle_def growth_ok_def accounts_wf_def accounts_len_def payload_len_def ser_eval less_Suc_eq numeral_eq_Suc
      MAX_ACCOUNT_DATA_GROWTH_PER_TRANSACTION_def)

lemma ser_context_sized: "keys_sized (account_entries ser_context)" "lengths_ok ser_interface (account_entries ser_context)"
  by (simp_all add: keys_sized_def lengths_ok_def account_entries_def entry_of_def entry_data_def ser_eval ser_interface_def upt_rec
      MAX_ACCOUNT_DATA_LEN_def)

lemma ser_instruction_wf: "instruction_wf 3 ser_instruction"
proof -
  have less3: "(\<forall>j < 3. P j) \<longleftrightarrow> P 0 \<and> P 1 \<and> P (2::nat)" for P
    by (auto simp: numeral_3_eq_3 numeral_2_eq_2 less_Suc_eq)
  show ?thesis
    by (simp add: instruction_wf_def ser_instruction_def MAX_ACCOUNTS_PER_INSTRUCTION_def firsts_ok_def dedup_ok_def first_use_def
        instruction_account_new_def less3 flip: numeral_2_eq_2 numeral_3_eq_3)
qed

lemma ser_program:
  "get_program_key ser_instruction ser_context = Ok (replicate 32 9)"
  "fst (get_program_owner ser_instruction ser_context) = Ok (replicate 32 4)"
proof -
  show "get_program_key ser_instruction ser_context = Ok (replicate 32 9)"
    by (simp add: get_program_key_def get_index_of_program_account_in_transaction_def get_key_of_account_at_index_def account_key_def get_at_def
        ok_or_def ser_eval upt_rec bindR_def)
  have "get_index_of_program_account_in_transaction ser_instruction = Ok 2"
    by (simp add: get_index_of_program_account_in_transaction_def ser_instruction_def)
  from program_owner_at [OF ser_context_idle(1) this] show "fst (get_program_owner ser_instruction ser_context) = Ok (replicate 32 4)"
    using ser_context_idle(3) by (simp add: ser_eval upt_rec)
qed

lemmas ser_ready = ser_context_idle(1) ser_context_sized(1) ser_instruction_wf [folded ser_context_idle(3)]


theorem serialize_roundtrip_witness:
  "\<exists>buffer regions metas offset tc1 tc'. serialize_parameters ser_interface ser_layout (\<lambda>n. replicate n 0) ser_instruction False False False ser_context
      = (Ok (buffer, regions, metas, offset), tc1)
    \<and> deserialize_parameters ser_interface ser_instruction False False (as_slice buffer) metas ser_context = (Ok (), tc')
    \<and> account_entries tc' = account_entries ser_context"
proof -
  obtain buffer regions metas offset tc1 where run: "serialize_parameters ser_interface ser_layout (\<lambda>n. replicate n 0) ser_instruction
      False False False ser_context = (Ok (buffer, regions, metas, offset), tc1)"
    using serialize_runs [OF ser_ready ser_program, where fresh = "\<lambda>n. replicate n 0" and si = ser_interface and hl = ser_layout
        and va = False and dm = False and pointers = False] by auto
  from serialize_roundtrip [OF ser_ready(1,2) ser_context_sized(2) ser_ready(3) ser_program(1) _ run ser_context_idle(1) refl ser_context_idle(2)]
  show ?thesis using run by auto
qed

end
