(* ===== verification/Spec2Isabelle.thy ===== *)
theory Spec2Isabelle
  imports Sbpf_Calls Rt_Pool Svm_Processor_Spec Rt_Serialize_Exact
begin

text \<open>
  \<^bold>\<open>Verification of the Solana virtual machine.\<close>

  The program under \<^verbatim>\<open>src/\<close> executes batches of Solana transactions. Its parts, from the bottom up:

  \<^item> the SBPF virtual machine (\<^verbatim>\<open>src/sbpf/src\<close>): instruction encoding, verifier, memory mapping, interpreter;
  \<^item> the transaction context (\<^verbatim>\<open>src/transaction-context/src\<close>): the accounts of a transaction, the stack and the trace of its
    instructions, and the operations that programs perform on the accounts they borrow;
  \<^item> the program runtime (\<^verbatim>\<open>src/program-runtime/src\<close>, \<^verbatim>\<open>src/compute-budget/src\<close>, \<^verbatim>\<open>src/log-collector/src\<close>,
    \<^verbatim>\<open>src/feature-set/src\<close>): compute budgets, the pool of stacks and heaps, logs, the sysvar cache, and the invoke context, which
    prepares instructions, calls programs and meters them, and the serialization of what an SBPF program gets as its input;
  \<^item> built-in programs (\<^verbatim>\<open>src/programs/system\<close>, \<^verbatim>\<open>src/programs/compute-budget\<close>);
  \<^item> the transaction processor (\<^verbatim>\<open>src/svm/src\<close>, \<^verbatim>\<open>src/transaction/src\<close>): it validates the nonce and the fee payer of a
    transaction, loads its accounts, has the message processor run its instructions, checks the result and settles it in the
    account loader, from which the next transaction of the batch loads.

  \<^bold>\<open>Theories.\<close> A theory models the files it names in its opening text; lemmas on a component stand behind its definitions, and where they
  are many in a theory of their own.

  \<^item> \<^verbatim>\<open>Svm_Prelude\<close>: machine integers, \<open>Result\<close>, the state-and-error monad \<open>sm\<close> with weakest preconditions (\<open>wp_rules\<close>),
    checked and saturating arithmetic, little-endian bytes. \<^verbatim>\<open>Svm_Features\<close>: the feature gates.
  \<^item> \<^verbatim>\<open>Sbpf_Ebpf\<close> (\<^verbatim>\<open>ebpf.rs\<close>), \<^verbatim>\<open>Sbpf_Program\<close> (\<^verbatim>\<open>program.rs\<close>), \<^verbatim>\<open>Sbpf_Memory\<close> (\<^verbatim>\<open>memory_region.rs\<close>) with
    \<^verbatim>\<open>Sbpf_Region_Search\<close> and \<^verbatim>\<open>Sbpf_Translation\<close>, \<^verbatim>\<open>Sbpf_Verifier\<close> (\<^verbatim>\<open>verifier.rs\<close>), \<^verbatim>\<open>Sbpf_Interpreter\<close>
    (\<^verbatim>\<open>interpreter.rs\<close>, \<^verbatim>\<open>vm.rs\<close>) with \<^verbatim>\<open>Sbpf_Arms\<close>, \<^verbatim>\<open>Sbpf_Safety\<close> and \<^verbatim>\<open>Sbpf_Calls\<close>, \<^verbatim>\<open>Sbpf_Aligned\<close>
    (\<^verbatim>\<open>aligned_memory.rs\<close>).
  \<^item> \<^verbatim>\<open>Tx_Accounts\<close>, \<^verbatim>\<open>Tx_Context\<close>, \<^verbatim>\<open>Tx_Borrowed\<close> (\<^verbatim>\<open>src/transaction-context/src\<close>), with the effect of every operation in
    \<^verbatim>\<open>Tx_Effects\<close> and the invariants of all runs in \<^verbatim>\<open>Tx_Invariants\<close>.
  \<^item> \<^verbatim>\<open>Rt_Budget\<close>, \<^verbatim>\<open>Rt_Pool\<close>, \<^verbatim>\<open>Rt_Logs\<close>, \<^verbatim>\<open>Rt_Sysvars\<close>, \<^verbatim>\<open>Rt_Invoke\<close> (\<^verbatim>\<open>src/program-runtime/src\<close>), with
    \<^verbatim>\<open>Rt_Prepare\<close> on prepared instructions, \<^verbatim>\<open>Rt_Process\<close> on running programs and \<^verbatim>\<open>Rt_Ledger\<close> on the balances, owners and
    data that programs are about. \<^verbatim>\<open>Rt_Serialize\<close> (\<^verbatim>\<open>serialization.rs\<close>), with \<^verbatim>\<open>Rt_Serialize_Spec\<close> on what writing back may
    change and \<^verbatim>\<open>Rt_Serialize_Exact\<close> on the bytes written and the way back.
  \<^item> \<^verbatim>\<open>Prog_System\<close> and \<^verbatim>\<open>Prog_System_Spec\<close>: the System program and its specification on the ledger.
  \<^item> \<^verbatim>\<open>Svm_Message\<close> (\<^verbatim>\<open>message_processor.rs\<close>, the compute-budget program), \<^verbatim>\<open>Svm_Transaction\<close> (\<^verbatim>\<open>svm_message.rs\<close>),
    \<^verbatim>\<open>Svm_Loader\<close> and \<^verbatim>\<open>Svm_Loader_Spec\<close> (\<^verbatim>\<open>account_loader.rs\<close>, \<^verbatim>\<open>rent_calculator.rs\<close>, \<^verbatim>\<open>rollback_accounts.rs\<close>,
    \<^verbatim>\<open>nonce_info.rs\<close>, \<^verbatim>\<open>account_overrides.rs\<close>), \<^verbatim>\<open>Svm_Processor\<close> and \<^verbatim>\<open>Svm_Processor_Spec\<close>
    (\<^verbatim>\<open>transaction_processor.rs\<close>, \<^verbatim>\<open>transaction_account_state_info.rs\<close>, \<^verbatim>\<open>transaction_balances.rs\<close> and the result types).

  \<^bold>\<open>How code becomes definitions.\<close> A struct is a record, an enum a datatype, a method a definition of its name. A fallible method
  that takes \<open>&mut self\<close> is a function of type \<open>sm\<close>: it gives the result and the state it leaves behind, also on the error path. An error
  is \<open>Fail e\<close>, a panic (an \<open>unwrap\<close>, an index out of range) is \<open>Panic\<close>, so that its absence can be stated. Words keep their width; a
  \<open>usize\<close> is a \<open>nat\<close>, with the saturation written out where a value can reach it; \<open>i64\<close> and \<open>i128\<close> cells are \<open>int\<close> with the saturation or
  the overflow check of each operation. A guard on an account is the index it guards, and dropping it is an operation.
  Debug assertions are left out: the model is that of a release build. A loop is a recursive
  function over what it iterates; the interpreter runs on the instruction meter, and \<open>execute_program_terminates\<close> shows that a meter of the
  compute units left is enough. Code of other packages (hashes, codecs, rent, the accounts database, key derivation, printing) is a parameter;
  what a property needs of it is a named hypothesis such as \<open>sysvar_keeps_length\<close> or \<open>live_database\<close>, met by a concrete instance.

  \<^bold>\<open>Interfaces.\<close> Where a part relies on another one, the contract is a locale: \<open>symbol_table\<close> (function registry), \<open>region_map\<close> (both
  memory mappings and their sum), \<open>context_object\<close> (the meter of the virtual machine, provided by the invoke context), \<open>byte_buffer\<close>
  (aligned memory), \<open>builtin_runtime\<close> (programs that act by borrowed accounts and invocations only, provided by the System and the
  compute-budget program through \<open>native_programs\<close>), \<open>account_store\<close> (a store that loads may fill, provided by the account loader over a
  live database).

  \<^bold>\<open>What is shown.\<close>

  \<^item> A verified program never panics, accesses memory only inside its regions, writes only writable ones, returns from calls with the
    caller's registers, and ends within its meter; interpreter and verifier agree on the opcodes. The verifier is characterised exactly and
    never panics. The optimised region lookup is a scan of the regions. Encoding and decoding of instructions are inverse.
  \<^item> Whatever operations a transaction runs, lamports are conserved, data grows at most by the limit, and no program changes an account
    it may not change. A prepared invocation never gains privileges, a program below the top of the stack cannot be called again, and a
    message conserves lamports and reports the units it used. The System program refines its specification on the ledger.
  \<^item> Memory from the pool carries no bytes of an earlier run; allocations stay inside the heap; the log exceeds its limit by the notice of truncation
    at most; the sysvar cache keeps bytes as they are.
  \<^item> The input of an SBPF program has exactly the specified bytes and fills its buffer exactly, so that the unchecked writes of the
    serializer stay inside; whatever the program leaves there, writing it back respects the same rules as the operations of native
    programs; an unchanged input changes nothing.
  \<^item> The account loader is a map that only settled transactions change; the loaded size bounds what is loaded; a fee payer pays
    exactly the fee or is refused with the error of its case; a failed transaction changes only its fee payer and nonce; a successful one
    keeps the total of lamports; a batch has one result per transaction, and an all-or-nothing batch is processed as a whole or not at all.

  \<^bold>\<open>Not modelled.\<close> The JIT compiler emits machine code, outside a functional model of the Rust source. The ELF loader, the assembler, the
  disassembler, the static analysis and the debugger do not take part in the interpretation of a loaded program. The program cache is
  concurrent shared state behind locks; finding a program is the parameter \<open>rt_find\<close> and filling the cache the parameter
  \<open>pr_replenish\<close>. The BPF loaders, cross-program invocation from SBPF programs and the syscalls connect the virtual machine with the
  runtime through typed references into guest memory; here the two meet in the contracts \<open>context_object\<close> and \<open>builtin_runtime\<close> and in the
  input. What a successful transaction adds to the program cache of its batch, and the handler of access violations, which grows account
  data on behalf of an SBPF program and is a parameter of the memory mapping, are not part of the steps of a transaction either. Hash and curve
  syscalls are wrappers of third-party packages. Timings, measurements, error counters and test harnesses have no effect on a result.
\<close>

end
